(* ===== verification/CG_Prelude.thy ===== *)
theory CG_Prelude
  imports "HOL-Library.Word" "HOL-Library.Sublist"
begin

text \<open>
  Shared vocabulary of the development: the machine types of the agent, the
  integer operations of the Rust standard library that the agent uses, the
  string functions it calls, and the generic list lemmas that several
  component theories rely on.

  Strings are lists of characters, one character per UTF-8 byte, so every
  length and index is the byte length and byte index of the source.
\<close>

named_theorems rust_int
named_theorems rust_str

section \<open>Machine types\<close>

type_synonym u8 = "8 word"
type_synonym u16 = "16 word"
type_synonym u32 = "32 word"
type_synonym u64 = "64 word"
type_synonym i32 = "32 word"
type_synonym i64 = "64 word"
type_synonym bytes = "u8 list"

text \<open>
  \<open>usize\<close> counts objects in memory and is read as a natural number. An
  \<open>Instant\<close> is a number of nanoseconds on the monotonic clock, a
  \<open>Duration\<close> a number of nanoseconds.
\<close>

type_synonym usize = nat
type_synonym instant = nat
type_synonym duration = nat

definition secs :: "nat \<Rightarrow> duration" where
  "secs n = n * 1000000000"

definition millis :: "nat \<Rightarrow> duration" where
  "millis n = n * 1000000"

section \<open>Integer operations\<close>

definition saturating_sub :: "'a::len word \<Rightarrow> 'a word \<Rightarrow> 'a word" where
  "saturating_sub a b = (if b \<le> a then a - b else 0)"

definition saturating_add :: "'a::len word \<Rightarrow> 'a word \<Rightarrow> 'a word" where
  "saturating_add a b =
     (if unat a + unat b < 2 ^ LENGTH('a) then a + b else - 1)"

definition saturating_mul :: "'a::len word \<Rightarrow> 'a word \<Rightarrow> 'a word" where
  "saturating_mul a b =
     (if unat a * unat b < 2 ^ LENGTH('a) then a * b else - 1)"

definition i64_checked_sub :: "i64 \<Rightarrow> i64 \<Rightarrow> i64 option" where
  "i64_checked_sub a b =
     (let d = sint a - sint b
      in if - (2 ^ 63) \<le> d \<and> d < 2 ^ 63 then Some (word_of_int d) else None)"

lemma unat_max_word [rust_int]: "unat (- 1 :: 'a::len word) = 2 ^ LENGTH('a) - 1"
  by transfer (simp add: mask_eq_exp_minus_1 nat_diff_distrib nat_power_eq)

lemma min_pred: "0 < m \<Longrightarrow> min p (m - 1) = (if p < m then p else m - 1)" for m p :: nat
  by auto

lemma unat_saturating_sub [rust_int]:
  "unat (saturating_sub a b) = unat a - unat b"
  by (auto simp: saturating_sub_def unat_sub word_le_nat_alt)

lemma unat_saturating_add [rust_int]:
  "unat (saturating_add a b) = min (unat a + unat b) (2 ^ LENGTH('a) - 1)"
  for a b :: "'a::len word"
  by (subst min_pred) (simp_all add: saturating_add_def unat_word_ariths unat_max_word)

lemma unat_saturating_mul [rust_int]:
  "unat (saturating_mul a b) = min (unat a * unat b) (2 ^ LENGTH('a) - 1)"
  for a b :: "'a::len word"
  by (subst min_pred) (simp_all add: saturating_mul_def unat_word_ariths unat_max_word)

lemma unat_bound: "unat w < 2 ^ LENGTH('a)" for w :: "'a::len word"
  by (rule unsigned_less)

lemma word_eq_of_natI: "unat w = n \<Longrightarrow> w = of_nat n" for w :: "'a::len word"
  by auto

lemma unat_inject [simp]: "unat v = unat w \<longleftrightarrow> v = w" for v w :: "'a::len word"
  by (auto intro: unsigned_word_eqI)

lemma sint_small:
  fixes w :: "'a::len word"
  assumes "unat w < 2 ^ (LENGTH('a) - 1)"
  shows "sint w = int (unat w)"
proof -
  have "int (unat w) < int (2 ^ (LENGTH('a) - 1))"
    using assms by (simp only: of_nat_less_iff)
  moreover have "- (2 ^ (LENGTH('a) - 1)) \<le> uint w"
    by (rule order_trans [of _ 0]) simp_all
  ultimately show ?thesis
    by (simp add: sint_uint signed_take_bit_int_eq_self)
qed

section \<open>Characters and strings\<close>

abbreviation bslash :: char where
  "bslash \<equiv> CHR 0x5C"

abbreviation cval :: "char \<Rightarrow> nat" where
  "cval c \<equiv> of_char c"

definition is_ascii_digit :: "char \<Rightarrow> bool" where
  "is_ascii_digit c \<longleftrightarrow> 48 \<le> cval c \<and> cval c \<le> 57"

definition is_ascii_hexdigit :: "char \<Rightarrow> bool" where
  "is_ascii_hexdigit c \<longleftrightarrow>
     is_ascii_digit c \<or> 97 \<le> cval c \<and> cval c \<le> 102 \<or> 65 \<le> cval c \<and> cval c \<le> 70"

definition ascii_lower :: "char \<Rightarrow> char" where
  "ascii_lower c = (if 65 \<le> cval c \<and> cval c \<le> 90 then char_of (cval c + 32) else c)"

definition eq_ignore_ascii_case :: "string \<Rightarrow> string \<Rightarrow> bool" where
  "eq_ignore_ascii_case s t \<longleftrightarrow> map ascii_lower s = map ascii_lower t"

definition strip_prefix :: "string \<Rightarrow> string \<Rightarrow> string option" where
  "strip_prefix s p = (if prefix p s then Some (drop (length p) s) else None)"

definition strip_suffix :: "string \<Rightarrow> string \<Rightarrow> string option" where
  "strip_suffix s p = (if suffix p s then Some (take (length s - length p) s) else None)"

definition trim_end_matches :: "char \<Rightarrow> string \<Rightarrow> string" where
  "trim_end_matches c s = rev (dropWhile (\<lambda>x. x = c) (rev s))"

text \<open>
  \<open>str::split\<close> on a character predicate: one piece more than there are
  separators, so never the empty list.
\<close>

fun split_on :: "(char \<Rightarrow> bool) \<Rightarrow> string \<Rightarrow> string list" where
  "split_on p [] = [[]]"
| "split_on p (c # s) =
     (if p c then [] # split_on p s
      else (case split_on p s of [] \<Rightarrow> [[c]] | w # ws \<Rightarrow> (c # w) # ws))"

definition split :: "char \<Rightarrow> string \<Rightarrow> string list" where
  "split c s = split_on (\<lambda>x. x = c) s"

fun join :: "string \<Rightarrow> string list \<Rightarrow> string" where
  "join sep [] = []"
| "join sep [w] = w"
| "join sep (w # ws) = w @ sep @ join sep ws"

text \<open>\<open>str::splitn\<close>: at most \<open>n\<close> pieces, the last one holding the rest of the string.\<close>

definition splitn :: "nat \<Rightarrow> char \<Rightarrow> string \<Rightarrow> string list" where
  "splitn n c s =
     (let ws = split c s
      in if length ws \<le> n then ws else take (n - 1) ws @ [join [c] (drop (n - 1) ws)])"

text \<open>Decimal and lowercase hexadecimal printing, as \<open>Display\<close> and \<open>{:x}\<close> write them.\<close>

definition digit :: "nat \<Rightarrow> char" where
  "digit d = (if d < 10 then char_of (48 + d) else char_of (87 + d))"

fun radix :: "nat \<Rightarrow> nat \<Rightarrow> string" where
  "radix b n = (if b < 2 \<or> n < b then [digit n] else radix b (n div b) @ [digit (n mod b)])"

declare radix.simps [simp del]

definition dec :: "nat \<Rightarrow> string" where
  "dec n = radix 10 n"

definition hex :: "nat \<Rightarrow> string" where
  "hex n = radix 16 n"

text \<open>Reading decimal digits back: every character a digit, most significant first.\<close>

definition digits_value :: "string \<Rightarrow> nat" where
  "digits_value s = foldl (\<lambda>v c. 10 * v + (cval c - 48)) 0 s"

section \<open>Lemmas on strings\<close>

lemma split_on_nonempty [simp]: "split_on p s \<noteq> []"
  by (induction s) (auto split: list.split)

lemma split_nonempty [simp]: "split c s \<noteq> []"
  by (simp add: split_def)

lemma join_Cons: "ws \<noteq> [] \<Longrightarrow> join sep (w # ws) = w @ sep @ join sep ws"
  by (cases ws) auto

lemma join_split [rust_str]: "join [c] (split c s) = s"
proof (induction s)
  case Nil
  then show ?case by (simp add: split_def)
next
  case (Cons x s)
  obtain w ws where "split c s = w # ws"
    using split_nonempty by (meson list.exhaust)
  with Cons show ?case
    by (cases ws) (auto simp: split_def)
qed

lemma split_on_pieces: "w \<in> set (split_on p s) \<Longrightarrow> x \<in> set w \<Longrightarrow> \<not> p x"
proof (induction s arbitrary: w)
  case Nil
  then show ?case by simp
next
  case (Cons c s)
  obtain v vs where "split_on p s = v # vs"
    using split_on_nonempty by (meson list.exhaust)
  with Cons show ?case
    by (fastforce split: if_splits)
qed

lemma split_on_snoc:
  "split_on p (s @ [c]) =
     (if p c then split_on p s @ [[]]
      else butlast (split_on p s) @ [last (split_on p s) @ [c]])"
proof (induction s)
  case (Cons x s)
  obtain v vs where "split_on p s = v # vs"
    using split_on_nonempty by (meson list.exhaust)
  with Cons show ?case
    by (cases vs) auto
qed simp

lemma split_on_free: "(\<And>x. x \<in> set s \<Longrightarrow> \<not> p x) \<Longrightarrow> split_on p s = [s]"
  by (induction s) auto

lemma split_on_append_sep:
  "(\<And>x. x \<in> set s \<Longrightarrow> \<not> p x) \<Longrightarrow> p c \<Longrightarrow> split_on p (s @ c # t) = s # split_on p t"
  by (induction s) auto

lemma length_split_on: "length (split_on p s) = Suc (length (filter p s))"
  by (induction s) (auto split: list.split)

lemma strip_prefix_Some [rust_str]: "strip_prefix s p = Some r \<longleftrightarrow> s = p @ r"
  by (auto simp: strip_prefix_def prefix_def)

lemma strip_suffix_Some [rust_str]: "strip_suffix s p = Some r \<longleftrightarrow> s = r @ p"
  by (auto simp: strip_suffix_def suffix_def)

lemma strip_prefix_append [simp]: "strip_prefix (p @ r) p = Some r"
  by (simp add: strip_prefix_Some)

lemma strip_suffix_append [simp]: "strip_suffix (r @ p) p = Some r"
  by (simp add: strip_suffix_Some)

lemma length_ascii_lower_eq: "eq_ignore_ascii_case s t \<Longrightarrow> length s = length t"
  unfolding eq_ignore_ascii_case_def by (rule map_eq_imp_length_eq)

lemma eq_ignore_ascii_case_refl [simp]: "eq_ignore_ascii_case s s"
  by (simp add: eq_ignore_ascii_case_def)

lemma eq_ignore_ascii_case_append:
  "eq_ignore_ascii_case s t \<Longrightarrow> eq_ignore_ascii_case s' t'
   \<Longrightarrow> eq_ignore_ascii_case (s @ s') (t @ t')"
  by (simp add: eq_ignore_ascii_case_def)

lemma trim_end_matches_not_last: "trim_end_matches c s = [] \<or> last (trim_end_matches c s) \<noteq> c"
  using hd_dropWhile [of "\<lambda>x. x = c" "rev s"]
  by (metis last_rev rev_is_Nil_conv trim_end_matches_def)

section \<open>Lemmas on printed numbers\<close>

lemma radix_small: "n < b \<Longrightarrow> radix b n = [digit n]"
  by (simp add: radix.simps)

lemma radix_step: "2 \<le> b \<Longrightarrow> b \<le> n \<Longrightarrow> radix b n = radix b (n div b) @ [digit (n mod b)]"
  by (subst radix.simps) simp

lemma radix_nonempty [simp]: "radix b n \<noteq> []"
  by (subst radix.simps) simp

lemma dec_nonempty [simp]: "dec n \<noteq> []"
  by (simp add: dec_def)

lemma digit_decimal: "d < 10 \<Longrightarrow> is_ascii_digit (digit d) \<and> cval (digit d) = 48 + d"
  by (auto simp: digit_def is_ascii_digit_def of_char_of)

lemma dec_digits [rust_str]: "c \<in> set (dec n) \<Longrightarrow> is_ascii_digit c"
proof (induction n rule: less_induct)
  case (less n)
  show ?case
  proof (cases "n < 10")
    case True
    with less show ?thesis by (simp add: dec_def radix_small digit_decimal)
  next
    case False
    then have "c \<in> set (dec (n div 10)) \<or> c = digit (n mod 10)"
      using less.prems by (auto simp: dec_def radix_step)
    with False less.IH [of "n div 10"] show ?thesis
      by (auto simp: digit_decimal)
  qed
qed

lemma digits_value_snoc: "digits_value (s @ [c]) = 10 * digits_value s + (cval c - 48)"
  by (simp add: digits_value_def)

lemma digits_value_dec [rust_str]: "digits_value (dec n) = n"
proof (induction n rule: less_induct)
  case (less n)
  show ?case
  proof (cases "n < 10")
    case True
    then show ?thesis by (simp add: dec_def radix_small digits_value_def digit_decimal)
  next
    case False
    then have "dec n = dec (n div 10) @ [digit (n mod 10)]"
      by (simp add: dec_def radix_step)
    with False less.IH [of "n div 10"] show ?thesis
      by (simp add: digits_value_snoc digit_decimal)
  qed
qed

lemma dec_inject [simp]: "dec m = dec n \<longleftrightarrow> m = n"
  by (metis digits_value_dec)

lemma length_dec: "0 < k \<Longrightarrow> n < 10 ^ k \<Longrightarrow> length (dec n) \<le> k"
proof (induction k arbitrary: n)
  case 0
  then show ?case by simp
next
  case (Suc k)
  show ?case
  proof (cases "n < 10")
    case True
    then show ?thesis by (simp add: dec_def radix_small)
  next
    case False
    with Suc.prems have "0 < k" by (cases k) auto
    moreover have "n div 10 < 10 ^ k" using Suc.prems(2) by (simp add: less_mult_imp_div_less mult.commute)
    ultimately have "length (dec (n div 10)) \<le> k" by (rule Suc.IH)
    with False show ?thesis by (simp add: dec_def radix_step)
  qed
qed

section \<open>Lemmas on lists\<close>

lemma subseq_tl: "subseq (tl xs) xs"
  by (cases xs) (simp_all add: list_emb_Cons)

end
