(* ===== verification/Event_Types.thy ===== *)
theory Event_Types
  imports CG_Prelude
begin

text \<open>
  The captured events and the classification of a failed capture start
  (\<open>etw/types.rs\<close>), with the logon event of \<open>logon/mod.rs\<close> that shares the
  ring with them. Field names carry a prefix per structure.
\<close>

section \<open>Captured events\<close>

datatype activity_id = Launch | Terminate

definition activity_id_as_u64 :: "activity_id \<Rightarrow> u64" where
  "activity_id_as_u64 a = (case a of Launch \<Rightarrow> 1 | Terminate \<Rightarrow> 2)"

definition activity_id_try_from :: "u64 \<Rightarrow> string + activity_id" where
  "activity_id_try_from v =
     (if v = 1 then Inr Launch else if v = 2 then Inr Terminate
      else Inl (''invalid activity_id: '' @ dec (unat v)))"

record captured_event =
  ce_pid :: u32
  ce_event_id :: string
  ce_activity_id :: activity_id
  ce_image_file_name :: string
  ce_parent_pid :: u32
  ce_command_line :: string
  ce_subject_user_sid :: string
  ce_etw_timestamp_nanos :: u64
  ce_created_time_nanos :: "u64 option"
  ce_exit_status :: "i32 option"

datatype direction = Outbound | Inbound

text \<open>
  \<open>std::net\<close>: an IPv4 address is its four octets, an IPv6 address its
  sixteen, in network order.
\<close>

datatype ip_addr = V4 bytes | V6 bytes

record socket_addr =
  sa_ip :: ip_addr
  sa_port :: u16

text \<open>\<open>Ipv6Addr::to_ipv4_mapped\<close>: the last four octets of \<open>::ffff:a.b.c.d\<close>.\<close>

definition to_ipv4_mapped :: "bytes \<Rightarrow> bytes option" where
  "to_ipv4_mapped b =
     (if take 12 b = replicate 10 0 @ [255, 255] then Some (drop 12 b) else None)"

record network_event =
  ne_event_id :: string
  ne_pid :: u32
  ne_direction :: direction
  ne_src :: socket_addr
  ne_dst :: socket_addr
  ne_etw_timestamp_nanos :: u64
  ne_created_time_nanos :: "u64 option"

datatype logon_status = Success | Failure

record logon_source =
  ls_ip :: ip_addr
  ls_hostname :: "string option"

record logon_event =
  le_event_id :: string
  le_status :: logon_status
  le_user_uid :: string
  le_user_name :: string
  le_user_domain :: string
  le_logon_type_id :: u8
  le_auth_protocol :: string
  le_auth_protocol_id :: u8
  le_src :: "logon_source option"
  le_status_code :: "u32 option"
  le_status_detail :: "u32 option"
  le_elevated_token :: "bool option"
  le_timestamp_nanos :: u64

datatype ring_event =
    Process captured_event
  | Network network_event
  | Logon logon_event

fun as_process :: "ring_event \<Rightarrow> captured_event option" where
  "as_process (Process e) = Some e"
| "as_process _ = None"

fun as_network :: "ring_event \<Rightarrow> network_event option" where
  "as_network (Network e) = Some e"
| "as_network _ = None"

fun as_logon :: "ring_event \<Rightarrow> logon_event option" where
  "as_logon (Logon e) = Some e"
| "as_logon _ = None"

section \<open>Why a capture session did not start\<close>

datatype start_mode = Locked | Unlocked

datatype open_error =
    PrivilegeNotHeld
  | AccessDenied
  | OpenFailed u32 string
  | Unsupported

text \<open>
  \<open>io::Error::from_raw_os_error(raw).to_string()\<close> is the operating system's
  text for the code, a parameter here, followed by the signed code.
\<close>

definition i32_to_string :: "i32 \<Rightarrow> string" where
  "i32_to_string w = (if sint w < 0 then ''-'' @ dec (nat (- sint w)) else dec (nat (sint w)))"

definition io_error_to_string :: "(i32 \<Rightarrow> string) \<Rightarrow> i32 \<Rightarrow> string" where
  "io_error_to_string os_text raw = os_text raw @ '' (os error '' @ i32_to_string raw @ '')''"

definition win32_message :: "(i32 \<Rightarrow> string) \<Rightarrow> u32 \<Rightarrow> string" where
  "win32_message os_text code =
     (let txt = io_error_to_string os_text code;
          suff = '' (os error '' @ dec (unat code) @ '')''
      in case strip_suffix txt suff of Some t \<Rightarrow> t | None \<Rightarrow> txt)"

definition from_win32 :: "(i32 \<Rightarrow> string) \<Rightarrow> u32 \<Rightarrow> open_error" where
  "from_win32 os_text code =
     (if code = 5 then AccessDenied
      else if code = 1314 then PrivilegeNotHeld
      else OpenFailed code (win32_message os_text code))"

fun is_privilege :: "open_error \<Rightarrow> bool" where
  "is_privilege PrivilegeNotHeld = True"
| "is_privilege AccessDenied = True"
| "is_privilege _ = False"

definition with_lock_mode :: "start_mode \<Rightarrow> open_error \<Rightarrow> open_error" where
  "with_lock_mode mode e =
     (case (mode, e) of
        (Unlocked, OpenFailed c m) \<Rightarrow> if c = 183 then PrivilegeNotHeld else e
      | _ \<Rightarrow> e)"

definition must_stop_after_failed_start :: "start_mode \<Rightarrow> open_error \<Rightarrow> bool" where
  "must_stop_after_failed_start mode e =
     (case mode of Locked \<Rightarrow> True | Unlocked \<Rightarrow> is_privilege e)"

unbundle bit_operations_syntax

definition win32_from_os_error :: "i32 \<Rightarrow> u32" where
  "win32_from_os_error raw =
     (if raw AND 0xFFFF0000 = 0x80070000 then raw AND 0xFFFF else raw)"

section \<open>Lemmas\<close>

lemma not_Outbound [simp]: "d \<noteq> Outbound \<longleftrightarrow> d = Inbound"
  by (cases d) simp_all

lemma activity_id_roundtrip [simp]:
  "activity_id_try_from (activity_id_as_u64 a) = Inr a"
  by (cases a) (simp_all add: activity_id_try_from_def activity_id_as_u64_def)

lemma win32_message_positive:
  assumes "unat code < 2 ^ 31"
  shows "win32_message os_text code = os_text code"
proof -
  have "sint code = int (unat code)"
    using assms by (simp add: sint_small)
  then have "i32_to_string code = dec (unat code)"
    by (simp add: i32_to_string_def)
  then show ?thesis
    unfolding win32_message_def io_error_to_string_def Let_def
    by (simp only: strip_suffix_append option.case)
qed

text \<open>
  Without the lock, a session that already exists is refused as a privilege
  failure and is never stopped by the start that did not create it.
\<close>

lemma unlocked_already_exists:
  "with_lock_mode Unlocked (OpenFailed 183 m) = PrivilegeNotHeld \<and>
   \<not> must_stop_after_failed_start Unlocked (OpenFailed 183 m)"
  by (simp add: with_lock_mode_def must_stop_after_failed_start_def)

lemma with_lock_mode_other:
  "with_lock_mode m e = e \<longleftrightarrow> \<not> (m = Unlocked \<and> (\<exists>msg. e = OpenFailed 183 msg))"
  by (cases m; cases e) (simp_all add: with_lock_mode_def)

end
