(* ===== verification/Event_Ring.thy ===== *)
theory Event_Ring
  imports Event_Types
begin

text \<open>
  The bounded ring of captured events and its overflow warning
  (\<open>etw/ring.rs\<close>). The mutex makes each operation atomic, so a concurrent
  execution is a sequence of operations; the instant an operation reads from
  the clock is an argument of it.

  The ring's clients (the dispatch callbacks that put, the delivery loop that
  takes) rely on the locale \<open>bounded_fifo\<close>; the ring is its interpretation.
\<close>

section \<open>The ring\<close>

record event_ring =
  er_capacity :: usize
  er_events :: "(instant \<times> ring_event) list"
  er_dropped_total :: u64

definition usize_MAX :: usize where
  "usize_MAX = 2 ^ 64 - 1"

definition ring_new :: "usize \<Rightarrow> event_ring" where
  "ring_new cap = \<lparr>er_capacity = cap, er_events = [], er_dropped_total = 0\<rparr>"

definition new_for_test :: "usize \<Rightarrow> event_ring" where
  "new_for_test cap = ring_new cap"

fun image_file_name_empty :: "ring_event \<Rightarrow> bool" where
  "image_file_name_empty (Process p) = (ce_image_file_name p = [])"
| "image_file_name_empty (Network e) = False"
| "image_file_name_empty (Logon e) = False"

definition enqueue_or_drop :: "instant \<Rightarrow> ring_event \<Rightarrow> event_ring \<Rightarrow> event_ring" where
  "enqueue_or_drop now e r =
     (if image_file_name_empty e then r
      else
        let r' = (if er_capacity r \<le> length (er_events r)
                  then r\<lparr>er_events := tl (er_events r),
                         er_dropped_total := er_dropped_total r + 1\<rparr>
                  else r)
        in r'\<lparr>er_events := er_events r' @ [(now, e)]\<rparr>)"

definition events_dropped_total :: "event_ring \<Rightarrow> u64" where
  "events_dropped_total r = er_dropped_total r"

definition add_dropped :: "u64 \<Rightarrow> event_ring \<Rightarrow> event_ring" where
  "add_dropped n r = r\<lparr>er_dropped_total := er_dropped_total r + n\<rparr>"

definition snapshot_events :: "event_ring \<Rightarrow> ring_event list" where
  "snapshot_events r = map snd (er_events r)"

definition drain_up_to :: "usize \<Rightarrow> event_ring \<Rightarrow> ring_event list \<times> event_ring" where
  "drain_up_to mx r =
     (let n = min mx (length (er_events r))
      in (map snd (take n (er_events r)), r\<lparr>er_events := drop n (er_events r)\<rparr>))"

definition drain_events :: "event_ring \<Rightarrow> ring_event list \<times> event_ring" where
  "drain_events r = drain_up_to usize_MAX r"

definition oldest_enqueued_at :: "event_ring \<Rightarrow> instant option" where
  "oldest_enqueued_at r = (case er_events r of [] \<Rightarrow> None | (at, _) # _ \<Rightarrow> Some at)"

definition ring_len :: "event_ring \<Rightarrow> usize" where
  "ring_len r = length (er_events r)"

definition ring_is_empty :: "event_ring \<Rightarrow> bool" where
  "ring_is_empty r \<longleftrightarrow> ring_len r = 0"

section \<open>The overflow warning\<close>

record overflow_warning =
  ow_reported_total :: u64
  ow_last_warn :: "instant option"

definition overflow_warning_INTERVAL :: duration where
  "overflow_warning_INTERVAL = secs 60"

definition overflow_warning_new :: overflow_warning where
  "overflow_warning_new = \<lparr>ow_reported_total = 0, ow_last_warn = None\<rparr>"

definition overflow_warning_check ::
    "event_ring \<Rightarrow> instant \<Rightarrow> overflow_warning \<Rightarrow> bool \<times> overflow_warning" where
  "overflow_warning_check r now w =
     (let total = events_dropped_total r
      in if total \<le> ow_reported_total w then (False, w)
         else if (case ow_last_warn w of
                    Some l \<Rightarrow> now - l < overflow_warning_INTERVAL
                  | None \<Rightarrow> False)
         then (False, w)
         else (True, w\<lparr>ow_reported_total := total, ow_last_warn := Some now\<rparr>))"

section \<open>Bounded first-in first-out queues that drop the oldest\<close>

text \<open>
  An execution of a queue's clients: elements put at an instant, up to so many
  elements taken, and losses outside the queue added to its count. A run
  returns the elements taken, in order.
\<close>

datatype 'e fifo_op = Put instant 'e | Take usize | CountLost u64

fun fifo_run ::
    "(instant \<Rightarrow> 'e \<Rightarrow> 'q \<Rightarrow> 'q) \<Rightarrow> (usize \<Rightarrow> 'q \<Rightarrow> 'e list \<times> 'q) \<Rightarrow> (u64 \<Rightarrow> 'q \<Rightarrow> 'q)
     \<Rightarrow> 'e fifo_op list \<Rightarrow> 'q \<Rightarrow> 'e list \<times> 'q" where
  "fifo_run put tk cnt [] q = ([], q)"
| "fifo_run put tk cnt (Put t e # ops) q = fifo_run put tk cnt ops (put t e q)"
| "fifo_run put tk cnt (Take n # ops) q =
     (let (xs, q') = tk n q; (ys, q'') = fifo_run put tk cnt ops q' in (xs @ ys, q''))"
| "fifo_run put tk cnt (CountLost n # ops) q = fifo_run put tk cnt ops (cnt n q)"

fun offered :: "('e \<Rightarrow> bool) \<Rightarrow> 'e fifo_op list \<Rightarrow> 'e list" where
  "offered ok [] = []"
| "offered ok (Put t e # ops) = (if ok e then e # offered ok ops else offered ok ops)"
| "offered ok (_ # ops) = offered ok ops"

fun counted :: "'e fifo_op list \<Rightarrow> u64" where
  "counted [] = 0"
| "counted (CountLost n # ops) = n + counted ops"
| "counted (_ # ops) = counted ops"

definition last_n :: "nat \<Rightarrow> 'a list \<Rightarrow> 'a list" where
  "last_n n xs = drop (length xs - n) xs"

lemma last_n_snoc:
  "0 < n \<Longrightarrow> last_n n (xs @ [x]) = (if length (last_n n xs) < n then last_n n xs else tl (last_n n xs)) @ [x]"
  by (cases "length xs < n") (simp_all add: last_n_def not_less Suc_diff_le drop_Suc tl_drop)

lemma last_n_all: "length xs \<le> n \<Longrightarrow> last_n n xs = xs"
  by (simp add: last_n_def)

locale bounded_fifo =
  fixes put :: "instant \<Rightarrow> 'e \<Rightarrow> 'q \<Rightarrow> 'q"
    and take_up_to :: "usize \<Rightarrow> 'q \<Rightarrow> 'e list \<times> 'q"
    and count_lost :: "u64 \<Rightarrow> 'q \<Rightarrow> 'q"
    and contents :: "'q \<Rightarrow> 'e list"
    and lost :: "'q \<Rightarrow> u64"
    and bound :: "'q \<Rightarrow> usize"
    and admits :: "'e \<Rightarrow> bool"
  assumes put_refused: "\<not> admits e \<Longrightarrow> put t e q = q"
    and contents_put: "admits e \<Longrightarrow> contents (put t e q) =
          (if length (contents q) < bound q then contents q else tl (contents q)) @ [e]"
    and lost_put: "admits e \<Longrightarrow> lost (put t e q) =
          (if length (contents q) < bound q then lost q else lost q + 1)"
    and bound_put: "bound (put t e q) = bound q"
    and fst_take: "fst (take_up_to n q) = take n (contents q)"
    and contents_take: "contents (snd (take_up_to n q)) = drop n (contents q)"
    and lost_take: "lost (snd (take_up_to n q)) = lost q"
    and bound_take: "bound (snd (take_up_to n q)) = bound q"
    and contents_count: "contents (count_lost k q) = contents q"
    and lost_count: "lost (count_lost k q) = lost q + k"
    and bound_count: "bound (count_lost k q) = bound q"
begin

lemmas fifo_laws = contents_put lost_put bound_put fst_take contents_take lost_take bound_take
  contents_count lost_count bound_count

lemma length_put:
  "length (contents q) \<le> bound q \<Longrightarrow> 0 < bound q \<Longrightarrow> length (contents (put t e q)) \<le> bound q"
  by (cases "admits e") (auto simp: put_refused contents_put)

lemma bound_run: "bound (snd (fifo_run put take_up_to count_lost ops q)) = bound q"
proof (induction ops arbitrary: q)
  case (Cons op ops)
  then show ?case
    by (cases op) (auto simp: fifo_laws split_beta Let_def)
qed simp

lemma run_within_bound:
  "length (contents q) \<le> bound q \<Longrightarrow> 0 < bound q \<Longrightarrow>
   length (contents (snd (fifo_run put take_up_to count_lost ops q))) \<le> bound q"
proof (induction ops arbitrary: q)
  case (Cons op ops)
  show ?case
  proof (cases op)
    case (Put t e)
    with Cons.IH [of "put t e q"] Cons.prems length_put [of q t e] show ?thesis
      by (simp add: bound_put)
  next
    case (Take n)
    with Cons.IH [of "snd (take_up_to n q)"] Cons.prems show ?thesis
      by (simp add: fifo_laws split_beta Let_def)
  next
    case (CountLost n)
    with Cons.IH [of "count_lost n q"] Cons.prems show ?thesis
      by (simp add: fifo_laws)
  qed
qed simp

lemma run_order:
  "subseq (fst (fifo_run put take_up_to count_lost ops q)
             @ contents (snd (fifo_run put take_up_to count_lost ops q)))
          (contents q @ offered admits ops)"
proof (induction ops arbitrary: q)
  case (Cons op ops)
  show ?case
  proof (cases op)
    case (Put t e)
    show ?thesis
    proof (cases "admits e")
      case True
      then have "subseq (contents (put t e q) @ offered admits ops) (contents q @ offered admits (op # ops))"
        using Put subseq_tl [of "contents q"] by (auto simp: contents_put)
      with Cons.IH [of "put t e q"] Put show ?thesis
        by (auto intro: subseq_order.trans)
    qed (use Put Cons.IH in \<open>auto simp: put_refused\<close>)
  next
    case (Take n)
    let ?q = "snd (take_up_to n q)"
    have "contents q @ offered admits ops
          = take n (contents q) @ drop n (contents q) @ offered admits ops"
      by simp
    with Cons.IH [of ?q] Take show ?thesis
      by (simp only: fifo_run.simps offered.simps split_beta Let_def fst_conv snd_conv fst_take
          contents_take append_assoc subseq_append')
  next
    case (CountLost n)
    with Cons.IH [of "count_lost n q"] show ?thesis
      by (simp add: contents_count)
  qed
qed simp

lemma run_conserves:
  "length (contents q) \<le> bound q \<Longrightarrow> 0 < bound q \<Longrightarrow>
   of_nat (length (fst (fifo_run put take_up_to count_lost ops q)))
     + of_nat (length (contents (snd (fifo_run put take_up_to count_lost ops q))))
     + lost (snd (fifo_run put take_up_to count_lost ops q))
   = of_nat (length (contents q) + length (offered admits ops)) + lost q + counted ops"
proof (induction ops arbitrary: q)
  case (Cons op ops)
  show ?case
  proof (cases op)
    case (Put t e)
    show ?thesis
    proof (cases "admits e")
      case True
      with Cons.IH [of "put t e q"] Cons.prems Put length_put [of q t e] show ?thesis
        by (cases "contents q") (auto simp: fifo_laws algebra_simps split: if_splits)
    qed (use Put Cons in \<open>auto simp: put_refused\<close>)
  next
    case (Take n)
    have "of_nat (length (contents q)) =
        (of_nat (length (take n (contents q))) + of_nat (length (drop n (contents q))) :: u64)"
      by (metis append_take_drop_id length_append of_nat_add)
    moreover have "length (drop n (contents q)) \<le> bound q"
      using Cons.prems by simp
    ultimately show ?thesis
      using Cons.IH [of "snd (take_up_to n q)"] Cons.prems Take
      by (simp add: fifo_laws split_beta Let_def algebra_simps del: length_take length_drop)
  next
    case (CountLost n)
    with Cons.IH [of "count_lost n q"] Cons.prems show ?thesis
      by (simp add: fifo_laws algebra_simps)
  qed
qed simp

lemma bound_puts: "bound (fold (\<lambda>(t, e). put t e) tes q) = bound q"
  by (induction tes rule: rev_induct) (auto simp: bound_put)

lemma puts_keep_newest:
  assumes "length (contents q) \<le> bound q" "0 < bound q"
  shows "contents (fold (\<lambda>(t, e). put t e) tes q)
         = last_n (bound q) (contents q @ filter admits (map snd tes))"
proof (induction tes rule: rev_induct)
  case Nil
  then show ?case using assms by (simp add: last_n_all)
next
  case (snoc te tes)
  moreover obtain t e where "te = (t, e)" by (cases te)
  ultimately show ?case
    using last_n_snoc [of "bound q" "contents q @ filter admits (map snd tes)" e] assms(2)
    by (cases "admits e") (auto simp: put_refused contents_put bound_puts)
qed

lemma puts_lost:
  assumes "length (contents q) \<le> bound q" "0 < bound q"
  shows "lost (fold (\<lambda>(t, e). put t e) tes q)
         = lost q + of_nat (length (contents q @ filter admits (map snd tes)) - bound q)"
proof (induction tes rule: rev_induct)
  case Nil
  then show ?case using assms by simp
next
  case (snoc te tes)
  have "length (contents (fold (\<lambda>(t, e). put t e) tes q))
        = min (length (contents q @ filter admits (map snd tes))) (bound q)"
    by (simp add: puts_keep_newest [OF assms] last_n_def)
  moreover obtain t e where "te = (t, e)" by (cases te)
  ultimately show ?case
    using snoc by (cases "admits e") (auto simp: put_refused lost_put bound_puts Suc_diff_le)
qed

end

interpretation ring: bounded_fifo enqueue_or_drop drain_up_to add_dropped snapshot_events
    events_dropped_total er_capacity "\<lambda>e. \<not> image_file_name_empty e"
  by unfold_locales
    (auto simp: enqueue_or_drop_def drain_up_to_def add_dropped_def snapshot_events_def
        events_dropped_total_def Let_def map_tl take_map drop_map not_less min_def)


section \<open>Properties of the ring\<close>

definition ring_run :: "ring_event fifo_op list \<Rightarrow> event_ring \<Rightarrow> ring_event list \<times> event_ring" where
  "ring_run ops r = fifo_run enqueue_or_drop drain_up_to add_dropped ops r"

abbreviation ring_offered :: "ring_event fifo_op list \<Rightarrow> ring_event list" where
  "ring_offered ops \<equiv> offered (\<lambda>e. \<not> image_file_name_empty e) ops"

lemma ring_new_simps [simp]:
  "snapshot_events (ring_new cap) = []" "events_dropped_total (ring_new cap) = 0"
  "er_capacity (ring_new cap) = cap"
  by (simp_all add: ring_new_def snapshot_events_def events_dropped_total_def)

text \<open>
  Claim C35. Whatever sequence of enqueues, drains and counted losses a ring of
  non-zero capacity sees, every admitted event is accounted for exactly once:
  drained events, retained events and the dropped total (modulo the 64-bit
  counter) add up to the events admitted plus the losses counted from
  outside; the drained and then the retained events are in the order they
  were admitted; and the ring never holds more than its capacity.
\<close>

theorem ring_conservation:
  assumes "0 < cap" and "ring_run ops (ring_new cap) = (out, r)"
  shows "length (snapshot_events r) \<le> cap
    \<and> subseq (out @ snapshot_events r) (ring_offered ops)
    \<and> of_nat (length out) + of_nat (length (snapshot_events r)) + events_dropped_total r
      = of_nat (length (ring_offered ops)) + counted ops"
  using assms ring.run_within_bound [of "ring_new cap" ops] ring.run_order [of ops "ring_new cap"]
    ring.run_conserves [of "ring_new cap" ops]
  by (simp add: ring_run_def)

definition demo_process :: "string \<Rightarrow> ring_event" where
  "demo_process img = Process
     \<lparr>ce_pid = 7, ce_event_id = [], ce_activity_id = Launch, ce_image_file_name = img,
      ce_parent_pid = 4, ce_command_line = [], ce_subject_user_sid = ''S-1-5-18'',
      ce_etw_timestamp_nanos = 1, ce_created_time_nanos = Some 1, ce_exit_status = None\<rparr>"

theorem ring_conservation_witness:
  "let ops = [Put 1 (demo_process ''a''), Put 2 (demo_process []), Put 3 (demo_process ''b''),
              Put 4 (demo_process ''c''), Take 1, CountLost 5];
       r = \<lparr>er_capacity = 2, er_events = [(4, demo_process ''c'')], er_dropped_total = 6\<rparr>
   in ring_run ops (ring_new 2) = ([demo_process ''b''], r)
      \<and> subseq ([demo_process ''b''] @ snapshot_events r) (ring_offered ops)
      \<and> of_nat 1 + of_nat 1 + events_dropped_total r = of_nat (length (ring_offered ops)) + counted ops"
proof -
  let ?ops = "[Put 1 (demo_process ''a''), Put 2 (demo_process []), Put 3 (demo_process ''b''),
              Put 4 (demo_process ''c''), Take 1, CountLost 5]"
  let ?r = "\<lparr>er_capacity = 2, er_events = [(4, demo_process ''c'')], er_dropped_total = 6\<rparr>"
  have "ring_run ?ops (ring_new 2) = ([demo_process ''b''], ?r)"
    by (simp add: ring_run_def ring_new_def enqueue_or_drop_def drain_up_to_def add_dropped_def
        demo_process_def)
  with ring_conservation [of 2 ?ops "[demo_process ''b'']" ?r] show ?thesis
    by (simp add: snapshot_events_def)
qed

text \<open>
  A ring of non-zero capacity that nobody drains holds exactly the
  newest admitted events, oldest first, up to its capacity, and has counted
  every older one as dropped.
\<close>

lemma ring_overflow_drops_oldest:
  assumes "0 < cap"
  shows "let r = fold (\<lambda>(t, e). enqueue_or_drop t e) tes (ring_new cap);
             admitted = filter (\<lambda>e. \<not> image_file_name_empty e) (map snd tes)
         in snapshot_events r = last_n cap admitted
            \<and> events_dropped_total r = of_nat (length admitted - cap)"
  using assms ring.puts_keep_newest [of "ring_new cap" tes] ring.puts_lost [of "ring_new cap" tes]
  by (simp add: Let_def)

section \<open>Draining and the age of the oldest event\<close>

lemma drain_events_all:
  "er_capacity r \<le> usize_MAX \<Longrightarrow> length (er_events r) \<le> er_capacity r \<Longrightarrow>
   drain_events r = (snapshot_events r, r\<lparr>er_events := []\<rparr>)"
  by (simp add: drain_events_def drain_up_to_def snapshot_events_def Let_def)

lemma oldest_enqueued_at_None: "oldest_enqueued_at r = None \<longleftrightarrow> ring_is_empty r"
  by (auto simp: oldest_enqueued_at_def ring_is_empty_def ring_len_def split: list.splits)

definition ring_ages_sorted :: "event_ring \<Rightarrow> bool" where
  "ring_ages_sorted r \<longleftrightarrow> sorted (map fst (er_events r))"

lemma oldest_is_least:
  "ring_ages_sorted r \<Longrightarrow> oldest_enqueued_at r = Some t \<Longrightarrow> (u, e) \<in> set (er_events r) \<Longrightarrow> t \<le> u"
  by (auto simp: ring_ages_sorted_def oldest_enqueued_at_def split: list.splits)

lemma enqueue_ages_sorted:
  assumes "ring_ages_sorted r" "\<And>t. t \<in> fst ` set (er_events r) \<Longrightarrow> t \<le> now"
  shows "ring_ages_sorted (enqueue_or_drop now e r)"
proof -
  have "sorted (map fst (tl (er_events r)))"
    using assms(1) by (cases "er_events r") (auto simp: ring_ages_sorted_def)
  moreover have "set (tl (er_events r)) \<subseteq> set (er_events r)"
    by (cases "er_events r") auto
  ultimately show ?thesis
    using assms by (auto simp: ring_ages_sorted_def enqueue_or_drop_def Let_def sorted_append)
qed

section \<open>The overflow warning is throttled\<close>

text \<open>
  Two warnings are at least the interval apart, and a warning is only given
  when the dropped total has grown past the one reported last.
\<close>

lemma overflow_warning_check_warned:
  "overflow_warning_check r now w = (True, w') \<Longrightarrow>
   ow_reported_total w < events_dropped_total r \<and>
   ow_reported_total w' = events_dropped_total r \<and> ow_last_warn w' = Some now \<and>
   (\<forall>l. ow_last_warn w = Some l \<longrightarrow> overflow_warning_INTERVAL \<le> now - l)"
  by (auto simp: overflow_warning_check_def Let_def split: if_splits option.splits)

lemma overflow_warning_check_silent:
  "overflow_warning_check r now w = (False, w') \<Longrightarrow> w' = w"
  by (auto simp: overflow_warning_check_def Let_def split: if_splits option.splits)

end
