(* ===== verification/Created_Cache.thy ===== *)
theory Created_Cache
  imports CG_Prelude "HOL-Library.AList"
begin

text \<open>
  The PID-keyed cache of process creation times (\<open>etw/cache.rs\<close>). The hash map
  is an association list with distinct keys. The sweep takes a snapshot, asks
  about liveness without holding the lock, and then evicts under the lock: its
  two locked phases are separate operations, so that other operations can run
  between them.
\<close>

section \<open>The cache\<close>

type_synonym created_time_cache = "(u32 \<times> u64) list"

definition cache_new :: created_time_cache where
  "cache_new = []"

definition cache_insert :: "u32 \<Rightarrow> u64 \<Rightarrow> created_time_cache \<Rightarrow> created_time_cache" where
  "cache_insert pid created_time_nanos c = AList.update pid created_time_nanos c"

definition created_time :: "u32 \<Rightarrow> created_time_cache \<Rightarrow> u64 option" where
  "created_time pid c = map_of c pid"

definition consult_and_purge ::
    "u32 \<Rightarrow> created_time_cache \<Rightarrow> u64 option \<times> created_time_cache" where
  "consult_and_purge pid c = (map_of c pid, AList.delete pid c)"

definition sweep_snapshot :: "created_time_cache \<Rightarrow> (u32 \<times> u64) list" where
  "sweep_snapshot c = c"

definition sweep_gone :: "(u32 \<Rightarrow> bool) \<Rightarrow> (u32 \<times> u64) list \<Rightarrow> (u32 \<times> u64) list" where
  "sweep_gone is_alive snapshot = filter (\<lambda>(pid, _). \<not> is_alive pid) snapshot"

fun sweep_evict ::
    "(u32 \<times> u64) list \<Rightarrow> created_time_cache \<Rightarrow> usize \<times> created_time_cache" where
  "sweep_evict [] c = (0, c)"
| "sweep_evict ((pid, time) # gone) c =
     (if created_time pid c = Some time
      then let (evicted, c') = sweep_evict gone (AList.delete pid c) in (Suc evicted, c')
      else sweep_evict gone c)"

definition sweep :: "(u32 \<Rightarrow> bool) \<Rightarrow> created_time_cache \<Rightarrow> usize \<times> created_time_cache" where
  "sweep is_alive c = sweep_evict (sweep_gone is_alive (sweep_snapshot c)) c"

definition cache_len :: "created_time_cache \<Rightarrow> usize" where
  "cache_len c = length c"

definition cache_is_empty :: "created_time_cache \<Rightarrow> bool" where
  "cache_is_empty c \<longleftrightarrow> cache_len c = 0"

section \<open>Creation times by process\<close>

definition cache_wf :: "created_time_cache \<Rightarrow> bool" where
  "cache_wf c \<longleftrightarrow> distinct (map fst c)"

text \<open>
  What the dispatch callbacks rely on: a launch records, a termination reads
  and forgets, a lookup reads, and no operation touches another process.
\<close>

locale creation_times =
  fixes none_known :: 'c
    and launched :: "u32 \<Rightarrow> u64 \<Rightarrow> 'c \<Rightarrow> 'c"
    and terminated :: "u32 \<Rightarrow> 'c \<Rightarrow> u64 option \<times> 'c"
    and known :: "u32 \<Rightarrow> 'c \<Rightarrow> u64 option"
    and ok :: "'c \<Rightarrow> bool"
  assumes known_none: "known p none_known = None"
    and known_launched: "ok c \<Longrightarrow> known q (launched p t c) = (if q = p then Some t else known q c)"
    and fst_terminated: "ok c \<Longrightarrow> fst (terminated p c) = known p c"
    and known_terminated: "ok c \<Longrightarrow> known q (snd (terminated p c)) = (if q = p then None else known q c)"
    and ok_none: "ok none_known"
    and ok_launched: "ok c \<Longrightarrow> ok (launched p t c)"
    and ok_terminated: "ok c \<Longrightarrow> ok (snd (terminated p c))"
begin

lemma terminated_after_launched:
  "ok c \<Longrightarrow> fst (terminated p (launched p t c)) = Some t"
  by (simp add: fst_terminated ok_launched known_launched)

lemma terminated_twice:
  "ok c \<Longrightarrow> fst (terminated p (snd (terminated p c))) = None"
  by (simp add: fst_terminated ok_terminated known_terminated)

end

lemma cache_wf_delete: "cache_wf c \<Longrightarrow> cache_wf (AList.delete p c)"
  by (simp add: cache_wf_def distinct_delete)

interpretation cache: creation_times cache_new cache_insert consult_and_purge created_time cache_wf
  by unfold_locales
    (auto simp: cache_new_def cache_insert_def consult_and_purge_def created_time_def cache_wf_def
        update_conv' delete_conv' distinct_update distinct_delete)

section \<open>The sweep\<close>

lemma created_time_delete [simp]:
  "created_time q (AList.delete p c) = (if q = p then None else created_time q c)"
  by (simp add: created_time_def delete_conv')

lemma sweep_evict_wf: "cache_wf c \<Longrightarrow> cache_wf (snd (sweep_evict gone c))"
  by (induction gone c rule: sweep_evict.induct)
    (auto simp: cache_wf_delete split_beta Let_def)

lemma created_time_sweep_evict:
  "created_time p (snd (sweep_evict gone c)) =
     (if \<exists>t. (p, t) \<in> set gone \<and> created_time p c = Some t then None else created_time p c)"
  by (induction gone c rule: sweep_evict.induct) (auto simp: split_beta Let_def)

lemma length_alist_delete:
  "distinct (map fst c) \<Longrightarrow> map_of c p = Some t \<Longrightarrow> Suc (length (AList.delete p c)) = length c"
proof (induction c)
  case (Cons x c)
  then show ?case
    by (cases "fst x = p") (auto simp: dest!: map_of_SomeD)
qed simp

lemma sweep_evict_count:
  "cache_wf c \<Longrightarrow> fst (sweep_evict gone c) + cache_len (snd (sweep_evict gone c)) = cache_len c"
proof (induction gone c rule: sweep_evict.induct)
  case (2 pid time gone c)
  then show ?case
    using length_alist_delete [of c pid time] cache_wf_delete [of c pid]
    by (auto simp: split_beta Let_def cache_len_def cache_wf_def created_time_def)
qed simp

lemma in_sweep_gone:
  "cache_wf snap \<Longrightarrow>
   (p, t) \<in> set (sweep_gone is_alive (sweep_snapshot snap)) \<longleftrightarrow> \<not> is_alive p \<and> created_time p snap = Some t"
  by (auto simp: sweep_gone_def sweep_snapshot_def created_time_def cache_wf_def)

text \<open>
  Claim C36. Whatever ran between the snapshot of a sweep and its eviction, the
  sweep forgets exactly the processes that are not alive and whose creation
  time is still the one of the snapshot: a live process keeps its entry, and
  so does a PID that was launched again with another creation time. The
  number returned is the number of entries removed.
\<close>

theorem sweep_interleaved:
  assumes "cache_wf snap" and "cache_wf c"
    and "sweep_evict (sweep_gone is_alive (sweep_snapshot snap)) c = (evicted, c')"
  shows "created_time p c' =
           (if \<not> is_alive p \<and> created_time p c = created_time p snap then None else created_time p c)
         \<and> evicted + cache_len c' = cache_len c \<and> cache_wf c'"
  using assms sweep_evict_count [OF assms(2), of "sweep_gone is_alive (sweep_snapshot snap)"]
    sweep_evict_wf [OF assms(2), of "sweep_gone is_alive (sweep_snapshot snap)"]
    created_time_sweep_evict [of p "sweep_gone is_alive (sweep_snapshot snap)" c]
  by (auto simp: in_sweep_gone)

theorem sweep_interleaved_witness:
  "let snap = cache_insert 9 100 (cache_insert 8 50 (cache_insert 7 20 cache_new));
       c = cache_insert 8 70 snap;
       c' = [(7, 20), (8, 70)]
   in sweep_evict (sweep_gone (\<lambda>p. p = 7) (sweep_snapshot snap)) c = (1, c')
      \<and> created_time 7 c' = created_time 7 c \<and> created_time 8 c' = Some 70
      \<and> created_time 9 c' = None \<and> 1 + cache_len c' = cache_len c"
proof -
  let ?snap = "cache_insert 9 100 (cache_insert 8 50 (cache_insert 7 20 cache_new))"
  let ?c = "cache_insert 8 70 ?snap"
  have wf: "cache_wf ?snap" "cache_wf ?c"
    by (intro cache.ok_launched cache.ok_none)+
  have ev: "sweep_evict (sweep_gone (\<lambda>p. p = 7) (sweep_snapshot ?snap)) ?c = (1, [(7, 20), (8, 70)])"
    by (simp add: cache_insert_def cache_new_def sweep_gone_def sweep_snapshot_def created_time_def)
  show ?thesis
    using sweep_interleaved [OF wf ev, of 7] sweep_interleaved [OF wf ev, of 8]
      sweep_interleaved [OF wf ev, of 9] ev
    by (simp add: cache.known_launched cache.ok_launched cache.ok_none cache.known_none)
qed

end
