(* ===== verification/Net_Decode.thy ===== *)
theory Net_Decode
  imports Event_Types "HOL-Library.Monad_Syntax"
begin

text \<open>
  Decoding of a Kernel-Network connection record from the raw bytes of its
  properties (\<open>etw/network.rs\<close>).
\<close>

section \<open>Byte orders\<close>

text \<open>\<open>from_le_bytes\<close> and \<open>from_be_bytes\<close> of the standard library, on the value level.\<close>

definition le_value :: "bytes \<Rightarrow> nat" where
  "le_value bs = foldr (\<lambda>b v. unat b + 256 * v) bs 0"

definition be_value :: "bytes \<Rightarrow> nat" where
  "be_value bs = le_value (rev bs)"

section \<open>The decoder\<close>

definition TCP_CONNECT_V4 :: u16 where "TCP_CONNECT_V4 = 12"
definition TCP_ACCEPT_V4 :: u16 where "TCP_ACCEPT_V4 = 15"
definition TCP_CONNECT_V6 :: u16 where "TCP_CONNECT_V6 = 28"
definition TCP_ACCEPT_V6 :: u16 where "TCP_ACCEPT_V6 = 31"

lemmas tcp_event_ids = TCP_CONNECT_V4_def TCP_ACCEPT_V4_def TCP_CONNECT_V6_def TCP_ACCEPT_V6_def

definition CONNECTION_EVENT_IDS :: "u16 list" where
  "CONNECTION_EVENT_IDS = [TCP_CONNECT_V4, TCP_ACCEPT_V4, TCP_CONNECT_V6, TCP_ACCEPT_V6]"

record decoded_connection =
  dc_pid :: u32
  dc_direction :: direction
  dc_src :: socket_addr
  dc_dst :: socket_addr

definition connection_direction :: "u16 \<Rightarrow> direction option" where
  "connection_direction event_id =
     (if event_id = TCP_CONNECT_V4 \<or> event_id = TCP_CONNECT_V6 then Some Outbound
      else if event_id = TCP_ACCEPT_V4 \<or> event_id = TCP_ACCEPT_V6 then Some Inbound
      else None)"

definition decode_pid :: "bytes \<Rightarrow> u32 option" where
  "decode_pid bs = (if length bs = 4 then Some (of_nat (le_value bs)) else None)"

definition port :: "bytes \<Rightarrow> u16 option" where
  "port bs = (if length bs = 2 then Some (of_nat (be_value bs)) else None)"

definition address :: "bytes \<Rightarrow> ip_addr option" where
  "address bs =
     (if length bs = 4 then Some (V4 bs)
      else if length bs = 16 then
        Some (case to_ipv4_mapped bs of Some v4 \<Rightarrow> V4 v4 | None \<Rightarrow> V6 bs)
      else None)"

definition local_and_remote :: "socket_addr \<Rightarrow> socket_addr \<Rightarrow> socket_addr \<times> socket_addr" where
  "local_and_remote s d = (s, d)"

definition decode_connection ::
    "u16 \<Rightarrow> bytes \<Rightarrow> bytes \<Rightarrow> bytes \<Rightarrow> bytes \<Rightarrow> bytes \<Rightarrow> decoded_connection option" where
  "decode_connection event_id pid saddr daddr sport dport =
     do {
       direction \<leftarrow> connection_direction event_id;
       pid \<leftarrow> decode_pid pid;
       sip \<leftarrow> address saddr;
       sp \<leftarrow> port sport;
       dip \<leftarrow> address daddr;
       dp \<leftarrow> port dport;
       let s = \<lparr>sa_ip = sip, sa_port = sp\<rparr>;
           d = \<lparr>sa_ip = dip, sa_port = dp\<rparr>;
           (local, remote) = local_and_remote s d;
           (src, dst) = (case direction of Outbound \<Rightarrow> (local, remote) | Inbound \<Rightarrow> (remote, local))
       in Some \<lparr>dc_pid = pid, dc_direction = direction, dc_src = src, dc_dst = dst\<rparr>
     }"

section \<open>Byte orders round trip\<close>

text \<open>The encoders the payload's writer uses: little-endian PID, big-endian port.\<close>

definition to_le_bytes :: "nat \<Rightarrow> nat \<Rightarrow> bytes" where
  "to_le_bytes n v = map (\<lambda>i. of_nat (v div 256 ^ i)) [0..<n]"

lemma le_value_Cons [simp]: "le_value (b # bs) = unat b + 256 * le_value bs"
  by (simp add: le_value_def)

lemma le_value_Nil [simp]: "le_value [] = 0"
  by (simp add: le_value_def)

lemma le_value_less: "le_value bs < 256 ^ length bs"
proof (induction bs)
  case (Cons b bs)
  have "unat b < 256"
    using unat_bound [of b] by simp
  with Cons show ?case by simp
qed simp

lemma to_le_bytes_Suc: "to_le_bytes (Suc n) v = of_nat v # to_le_bytes n (v div 256)"
proof -
  have "[0..<Suc n] = 0 # map Suc [0..<n]"
    by (simp add: upt_conv_Cons map_Suc_upt del: upt_Suc)
  then show ?thesis
    by (simp add: to_le_bytes_def div_mult2_eq)
qed

lemma length_to_le_bytes [simp]: "length (to_le_bytes n v) = n"
  by (simp add: to_le_bytes_def)

lemma le_value_to_le_bytes: "le_value (to_le_bytes n v) = v mod 256 ^ n"
proof (induction n arbitrary: v)
  case 0
  then show ?case by (simp add: to_le_bytes_def)
next
  case (Suc n)
  then show ?case
    by (simp add: to_le_bytes_Suc unat_of_nat mod_mult2_eq)
qed

lemma decode_pid_le: "decode_pid (to_le_bytes 4 (unat p)) = Some p"
proof -
  have "unat p mod 256 ^ 4 = unat p"
    using unat_bound [of p] by simp
  then show ?thesis
    by (simp only: decode_pid_def length_to_le_bytes le_value_to_le_bytes) simp
qed

lemma port_be: "port (rev (to_le_bytes 2 (unat p))) = Some p"
proof -
  have "unat p mod 256 ^ 2 = unat p"
    using unat_bound [of p] by simp
  then show ?thesis
    by (simp only: port_def be_value_def length_rev rev_rev_ident length_to_le_bytes
        le_value_to_le_bytes) simp
qed

section \<open>Addresses\<close>

definition addr_canonical :: "ip_addr \<Rightarrow> bool" where
  "addr_canonical a = (case a of V4 b \<Rightarrow> length b = 4
                               | V6 b \<Rightarrow> length b = 16 \<and> to_ipv4_mapped b = None)"

lemma to_ipv4_mapped_mapped [simp]:
  "to_ipv4_mapped (replicate 10 0 @ [255, 255] @ v4) = Some v4"
  by (simp add: to_ipv4_mapped_def eval_nat_numeral)

lemma address_canonical: "address bs = Some a \<Longrightarrow> addr_canonical a"
  by (auto simp: address_def addr_canonical_def to_ipv4_mapped_def split: if_splits)

lemma address_octets:
  "addr_canonical a \<Longrightarrow> address (case a of V4 b \<Rightarrow> b | V6 b \<Rightarrow> b) = Some a"
  by (auto simp: address_def addr_canonical_def split: ip_addr.splits)

lemma address_None: "address bs = None \<longleftrightarrow> length bs \<noteq> 4 \<and> length bs \<noteq> 16"
  by (simp add: address_def)

section \<open>Properties of the decoder\<close>

abbreviation octets :: "ip_addr \<Rightarrow> bytes" where
  "octets a \<equiv> (case a of V4 b \<Rightarrow> b | V6 b \<Rightarrow> b)"

text \<open>
  A connection record written by the provider for a local and a
  remote endpoint decodes to that process and those endpoints: the source is
  the endpoint that opened the connection, the local one for the two connect
  events and the remote one for the two accept events.
\<close>

lemma decode_connection_roundtrip:
  assumes "connection_direction ev = Some dir"
    and "addr_canonical (sa_ip loc)" and "addr_canonical (sa_ip rem)"
  shows "decode_connection ev (to_le_bytes 4 (unat pid))
           (octets (sa_ip loc)) (octets (sa_ip rem))
           (rev (to_le_bytes 2 (unat (sa_port loc)))) (rev (to_le_bytes 2 (unat (sa_port rem))))
         = Some \<lparr>dc_pid = pid, dc_direction = dir,
                 dc_src = (if dir = Outbound then loc else rem),
                 dc_dst = (if dir = Outbound then rem else loc)\<rparr>"
  using assms
  by (cases dir; cases loc; cases rem)
    (simp_all add: decode_connection_def decode_pid_le port_be address_octets local_and_remote_def)

text \<open>
  The record is refused exactly when its event id is none of the four or one of
  its fields has an unexpected size.
\<close>

lemma connection_direction_None:
  "connection_direction ev = None \<longleftrightarrow> ev \<notin> set CONNECTION_EVENT_IDS"
  by (auto simp: connection_direction_def CONNECTION_EVENT_IDS_def)

lemma decode_connection_None:
  "decode_connection ev pid saddr daddr sport dport = None \<longleftrightarrow>
     ev \<notin> set CONNECTION_EVENT_IDS \<or> length pid \<noteq> 4 \<or>
     length saddr \<notin> {4, 16} \<or> length sport \<noteq> 2 \<or> length daddr \<notin> {4, 16} \<or> length dport \<noteq> 2"
proof (cases "connection_direction ev")
  case None
  then show ?thesis
    by (simp add: decode_connection_def flip: connection_direction_None)
next
  case (Some dir)
  then have "ev \<in> set CONNECTION_EVENT_IDS"
    using connection_direction_None [of ev] by simp
  with Some show ?thesis
    by (cases dir) (auto simp: decode_connection_def decode_pid_def port_def address_def Let_def
        local_and_remote_def)
qed

lemma decode_connection_fields:
  assumes "decode_connection ev pid saddr daddr sport dport = Some conn"
  shows "decode_pid pid = Some (dc_pid conn)"
    and "addr_canonical (sa_ip (dc_src conn))" "addr_canonical (sa_ip (dc_dst conn))"
  using assms address_canonical
  by (auto simp: decode_connection_def Let_def local_and_remote_def bind_eq_Some_conv
      split: direction.splits)

end
