(* ===== verification/Dispatch.thy ===== *)
theory Dispatch
  imports Event_Ring Created_Cache Net_Decode
begin

text \<open>
  The dispatch callbacks (\<open>etw/dispatch.rs\<close>): what a Kernel-Process and a
  Kernel-Network record do to the cache, the ring and the count of discarded
  records, and the FILETIME conversion. The event id a callback generates
  (\<open>Uuid::now_v7\<close>, of the \<open>uuid\<close> crate) and the instant it reads are arguments.
\<close>

unbundle bit_operations_syntax

section \<open>FILETIME to Unix nanoseconds\<close>

definition FILETIME_TO_UNIX_100NS :: i64 where
  "FILETIME_TO_UNIX_100NS = 116444736000000000"

definition filetime_to_unix_nanos :: "i64 \<Rightarrow> u64 option" where
  "filetime_to_unix_nanos filetime_100ns =
     do {
       unix_100ns \<leftarrow> i64_checked_sub filetime_100ns FILETIME_TO_UNIX_100NS;
       if sint unix_100ns < 0 then None else Some (saturating_mul unix_100ns 100)
     }"

section \<open>Process records\<close>

record raw_process_record =
  rp_activity_id :: activity_id
  rp_pid :: u32
  rp_parent_pid :: u32
  rp_image_file_name :: string
  rp_command_line :: string
  rp_subject_user_sid :: string
  rp_filetime_100ns :: i64
  rp_exit_status :: "i32 option"

definition process_event ::
    "string \<Rightarrow> raw_process_record \<Rightarrow> u64 \<Rightarrow> u64 option \<Rightarrow> captured_event" where
  "process_event uuid raw etw_timestamp_nanos created =
     \<lparr>ce_pid = rp_pid raw, ce_event_id = uuid, ce_activity_id = rp_activity_id raw,
      ce_image_file_name = rp_image_file_name raw, ce_parent_pid = rp_parent_pid raw,
      ce_command_line = rp_command_line raw, ce_subject_user_sid = rp_subject_user_sid raw,
      ce_etw_timestamp_nanos = etw_timestamp_nanos, ce_created_time_nanos = created,
      ce_exit_status = rp_exit_status raw\<rparr>"

definition dispatch_record ::
    "string \<Rightarrow> instant \<Rightarrow> raw_process_record \<Rightarrow> created_time_cache \<Rightarrow> event_ring
     \<Rightarrow> created_time_cache \<times> event_ring" where
  "dispatch_record uuid now raw c r =
     (case filetime_to_unix_nanos (rp_filetime_100ns raw) of
        None \<Rightarrow> (c, r)
      | Some etw_timestamp_nanos \<Rightarrow>
          let (created, c') =
                (case rp_activity_id raw of
                   Launch \<Rightarrow> (Some etw_timestamp_nanos, cache_insert (rp_pid raw) etw_timestamp_nanos c)
                 | Terminate \<Rightarrow> consult_and_purge (rp_pid raw) c)
          in (c', enqueue_or_drop now (Process (process_event uuid raw etw_timestamp_nanos created)) r))"

section \<open>Discarded network records\<close>

record raw_network_record =
  rn_event_id :: u16
  rn_pid :: bytes
  rn_saddr :: bytes
  rn_daddr :: bytes
  rn_sport :: bytes
  rn_dport :: bytes
  rn_filetime_100ns :: i64

record discard_sample =
  ds_event_id :: u16
  ds_field_lengths :: "u8 list"

record network_discards =
  nd_total :: u64
  nd_first :: u64

definition discards_new :: network_discards where
  "discards_new = \<lparr>nd_total = 0, nd_first = 0\<rparr>"

definition PRESENT :: u64 where
  "PRESENT = push_bit 63 1"

definition discards_total :: "network_discards \<Rightarrow> u64" where
  "discards_total d = nd_total d"

definition discards_first :: "network_discards \<Rightarrow> discard_sample option" where
  "discards_first d =
     (let packed = nd_first d
      in if packed AND PRESENT = 0 then None
         else Some \<lparr>ds_event_id = ucast (drop_bit 40 packed),
                    ds_field_lengths = map (\<lambda>i. ucast (drop_bit (8 * i) packed)) [0..<5]\<rparr>)"

fun pack_lengths :: "nat \<Rightarrow> usize list \<Rightarrow> u64 \<Rightarrow> u64" where
  "pack_lengths i [] packed = packed"
| "pack_lengths i (len # lens) packed =
     pack_lengths (Suc i) lens (packed OR push_bit (8 * i) (of_nat (min len 255)))"

definition discards_record :: "u16 \<Rightarrow> usize list \<Rightarrow> network_discards \<Rightarrow> network_discards" where
  "discards_record event_id field_lengths d =
     (let packed = pack_lengths 0 field_lengths (PRESENT OR push_bit 40 (ucast event_id))
      in d\<lparr>nd_total := nd_total d + 1,
           nd_first := (if nd_first d = 0 then packed else nd_first d)\<rparr>)"

section \<open>Network records\<close>

definition raw_lengths :: "raw_network_record \<Rightarrow> usize list" where
  "raw_lengths raw = [length (rn_pid raw), length (rn_saddr raw), length (rn_daddr raw),
                      length (rn_sport raw), length (rn_dport raw)]"

definition dispatch_network_record ::
    "string \<Rightarrow> instant \<Rightarrow> raw_network_record \<Rightarrow> u32 option \<Rightarrow> created_time_cache
     \<Rightarrow> event_ring \<Rightarrow> network_discards \<Rightarrow> event_ring \<times> network_discards" where
  "dispatch_network_record uuid now raw excluded_pid c r d =
     (if connection_direction (rn_event_id raw) = None
      then (r, discards_record (rn_event_id raw) (raw_lengths raw) d)
      else if excluded_pid \<noteq> None \<and> decode_pid (rn_pid raw) = excluded_pid
      then (r, d)
      else case decode_connection (rn_event_id raw) (rn_pid raw) (rn_saddr raw) (rn_daddr raw)
                  (rn_sport raw) (rn_dport raw) of
        None \<Rightarrow> (r, discards_record (rn_event_id raw) (raw_lengths raw) d)
      | Some conn \<Rightarrow>
          (case filetime_to_unix_nanos (rn_filetime_100ns raw) of
             None \<Rightarrow> (r, d)
           | Some etw_timestamp_nanos \<Rightarrow>
               (enqueue_or_drop now
                  (Network \<lparr>ne_event_id = uuid, ne_pid = dc_pid conn,
                            ne_direction = dc_direction conn, ne_src = dc_src conn,
                            ne_dst = dc_dst conn,
                            ne_etw_timestamp_nanos = etw_timestamp_nanos,
                            ne_created_time_nanos = created_time (dc_pid conn) c\<rparr>) r,
                d)))"

section \<open>The conversion is exact and saturates\<close>

lemma sint_word_of_int_64:
  "- (2 ^ 63) \<le> d \<Longrightarrow> d < 2 ^ 63 \<Longrightarrow> sint (word_of_int d :: i64) = d"
  by (simp add: sint_sbintrunc' signed_take_bit_int_eq_self)

text \<open>
  The conversion gives no time exactly for instants before 1970, and
  for every other one the exact number of nanoseconds since 1970, capped at
  the greatest 64-bit value.
\<close>

lemma filetime_to_unix_nanos_exact:
  "filetime_to_unix_nanos f =
     (if sint f < 116444736000000000 then None
      else Some (of_nat (min (nat (100 * (sint f - 116444736000000000))) (2 ^ 64 - 1))))"
proof -
  define d where "d = sint f - 116444736000000000"
  have range: "- (2 ^ 63) \<le> sint f" "sint f < 2 ^ 63"
    using sint_ge [of f] sint_less [of f] by simp_all
  have base: "sint FILETIME_TO_UNIX_100NS = 116444736000000000"
    by (simp add: FILETIME_TO_UNIX_100NS_def)
  show ?thesis
  proof (cases "d < 0")
    case True
    then show ?thesis
      using range sint_word_of_int_64 [of d]
      by (simp add: filetime_to_unix_nanos_def i64_checked_sub_def base Let_def d_def)
  next
    case False
    then have d: "0 \<le> d" "d < 2 ^ 63"
      using range by (auto simp: d_def)
    then have "unat (word_of_int d :: u64) = nat d"
      by (simp add: uint_word_of_int_eq take_bit_int_eq_self flip: nat_uint_eq)
    then have "unat (saturating_mul (word_of_int d :: u64) 100) = min (nat (100 * d)) (2 ^ 64 - 1)"
      using d by (simp add: unat_saturating_mul nat_mult_distrib mult.commute)
    then have "saturating_mul (word_of_int d :: u64) 100 = of_nat (min (nat (100 * d)) (2 ^ 64 - 1))"
      by (rule word_eq_of_natI)
    then show ?thesis
      using d range sint_word_of_int_64 [of d]
      by (simp add: filetime_to_unix_nanos_def i64_checked_sub_def base Let_def d_def)
  qed
qed

section \<open>The packed first discard\<close>

lemma bit_of_nat_min_255: "bit (of_nat (min l 255) :: 'a::len word) m \<Longrightarrow> m < 8"
proof -
  assume "bit (of_nat (min l 255) :: 'a word) m"
  moreover have "take_bit 8 (of_nat (min l 255) :: 'a word) = of_nat (min l 255)"
    by (simp add: take_bit_of_nat take_bit_nat_eq_self)
  ultimately have "bit (take_bit 8 (of_nat (min l 255) :: 'a word)) m"
    by simp
  then show "m < 8"
    by (simp only: bit_take_bit_iff)
qed

lemma bit_pack_lengths:
  "bit (pack_lengths i lens packed) n \<longleftrightarrow>
     bit packed n \<or>
     (\<exists>j < length lens. 8 * (i + j) \<le> n \<and> n < 64 \<and> bit (of_nat (min (lens ! j) 255) :: u64) (n - 8 * (i + j)))"
proof (induction lens arbitrary: i packed)
  case (Cons l lens)
  have "(\<exists>j < Suc (length lens). P j) \<longleftrightarrow> P 0 \<or> (\<exists>j < length lens. P (Suc j))" for P
    using less_Suc_eq_0_disj by auto
  then show ?case
    by (simp add: Cons.IH bit_or_iff bit_push_bit_iff add.left_commute)
qed simp

lemma bit_PRESENT: "bit PRESENT n \<longleftrightarrow> n = 63"
  unfolding PRESENT_def bit_push_bit_iff by (auto simp: bit_1_iff)

definition packed_sample :: "u16 \<Rightarrow> usize list \<Rightarrow> u64" where
  "packed_sample ev lens = pack_lengths 0 lens (PRESENT OR push_bit 40 (ucast ev))"

lemma bit_packed_sample:
  "bit (packed_sample ev lens) n \<longleftrightarrow>
     n = 63 \<or> (40 \<le> n \<and> n < 64 \<and> bit ev (n - 40)) \<or>
     (\<exists>j < length lens. 8 * j \<le> n \<and> n < 64 \<and> bit (of_nat (min (lens ! j) 255) :: u64) (n - 8 * j))"
  by (auto simp: packed_sample_def bit_pack_lengths bit_or_iff bit_PRESENT bit_push_bit_iff
      bit_ucast_iff)

lemma packed_sample_field:
  assumes "length lens = 5" "i < 5"
  shows "ucast (drop_bit (8 * i) (packed_sample ev lens)) = (of_nat (min (lens ! i) 255) :: u8)"
proof (rule bit_word_eqI)
  fix n assume "n < LENGTH(8)"
  then have n: "n < 8" by simp
  have "8 * i + n < 40" using n assms by linarith
  have same: "j = i" if "8 * j \<le> 8 * i + n" "8 * i + n - 8 * j < 8" for j
    using that n by linarith
  have "bit (packed_sample ev lens) (8 * i + n) \<longleftrightarrow> bit (of_nat (min (lens ! i) 255) :: u64) n"
    using \<open>8 * i + n < 40\<close> assms same bit_of_nat_min_255
    by (fastforce simp: bit_packed_sample)
  then show "bit (ucast (drop_bit (8 * i) (packed_sample ev lens)) :: u8) n
      = bit (of_nat (min (lens ! i) 255) :: u8) n"
    using n by (simp add: bit_ucast_iff bit_drop_bit_eq bit_of_nat_iff)
qed

lemma packed_sample_event_id:
  assumes "length lens = 5"
  shows "ucast (drop_bit 40 (packed_sample ev lens)) = ev"
proof (rule bit_word_eqI)
  fix n assume "n < LENGTH(16)"
  then have n: "n < 16" by simp
  have "\<not> bit (of_nat (min (lens ! j) 255) :: u64) (40 + n - 8 * j)" if "j < 5" for j
    using that bit_of_nat_min_255 by fastforce
  with n assms show "bit (ucast (drop_bit 40 (packed_sample ev lens)) :: u16) n = bit ev n"
    by (auto simp: bit_ucast_iff bit_drop_bit_eq bit_packed_sample)
qed

lemma packed_sample_present: "packed_sample ev lens AND PRESENT \<noteq> 0"
proof -
  have "bit (packed_sample ev lens AND PRESENT) 63"
    by (simp add: bit_and_iff bit_packed_sample bit_PRESENT)
  then show ?thesis by auto
qed

lemma packed_sample_nonzero: "packed_sample ev lens \<noteq> 0"
  using packed_sample_present [of ev lens] by auto

definition sample_of :: "u16 \<Rightarrow> usize list \<Rightarrow> discard_sample" where
  "sample_of ev lens = \<lparr>ds_event_id = ev, ds_field_lengths = map (\<lambda>l. of_nat (min l 255)) lens\<rparr>"

lemma discards_first_packed:
  assumes "length lens = 5" "nd_first d = packed_sample ev lens"
  shows "discards_first d = Some (sample_of ev lens)"
proof -
  have "map (\<lambda>i. ucast (drop_bit (8 * i) (packed_sample ev lens))) [0..<5]
        = map (\<lambda>i. of_nat (min (lens ! i) 255) :: u8) [0..<length lens]"
    using assms by (intro map_cong) (auto simp: packed_sample_field)
  also have "\<dots> = map (\<lambda>l. of_nat (min l 255)) lens"
    by (rule nth_equalityI) simp_all
  finally show ?thesis
    using assms packed_sample_present packed_sample_event_id
    by (simp add: discards_first_def sample_of_def)
qed

lemma fold_discards_record_total:
  "nd_total (fold (\<lambda>(ev, lens). discards_record ev lens) recs d) = nd_total d + of_nat (length recs)"
  by (induction recs arbitrary: d) (auto simp: discards_record_def Let_def)

lemma fold_discards_record_first:
  "nd_first d \<noteq> 0 \<Longrightarrow> nd_first (fold (\<lambda>(ev, lens). discards_record ev lens) recs d) = nd_first d"
  by (induction recs arbitrary: d) (auto simp: discards_record_def Let_def)

text \<open>
  After any number of discarded records, at least one, the counter
  has counted each of them (modulo its 64 bits) and the sample read back is
  the first one: its event id, and its five field lengths, each capped at 255.
\<close>

lemma discards_keep_first:
  assumes "length lens = 5"
    and "d = fold (\<lambda>(ev, lens). discards_record ev lens) ((ev, lens) # recs) discards_new"
  shows "discards_total d = of_nat (Suc (length recs))
    \<and> discards_first d
      = Some \<lparr>ds_event_id = ev, ds_field_lengths = map (\<lambda>l. of_nat (min l 255)) lens\<rparr>"
proof -
  let ?d1 = "discards_record ev lens discards_new"
  have first: "nd_first ?d1 = packed_sample ev lens"
    by (simp add: discards_record_def discards_new_def packed_sample_def Let_def)
  then have "nd_first d = packed_sample ev lens"
    using fold_discards_record_first [of ?d1 recs] packed_sample_nonzero assms(2) by simp
  moreover have "nd_total d = of_nat (Suc (length recs))"
    using fold_discards_record_total [of recs ?d1] assms(2)
    by (simp add: discards_record_def discards_new_def Let_def)
  ultimately show ?thesis
    using discards_first_packed [OF assms(1)] by (simp add: discards_total_def sample_of_def)
qed

section \<open>The callbacks running side by side\<close>

text \<open>
  The session's shared state, and the atomic steps that reach it: one process
  record, one network record, or the eviction phase of a sweep.
\<close>

record capture_state =
  cs_cache :: created_time_cache
  cs_ring :: event_ring
  cs_discards :: network_discards

datatype capture_step =
    ProcessRecord string instant raw_process_record
  | NetworkRecord string instant raw_network_record
  | SweepEvict "(u32 \<times> u64) list"

fun capture_do :: "u32 option \<Rightarrow> capture_step \<Rightarrow> capture_state \<Rightarrow> capture_state" where
  "capture_do ex (ProcessRecord uuid now raw) s =
     (let (c, r) = dispatch_record uuid now raw (cs_cache s) (cs_ring s)
      in s\<lparr>cs_cache := c, cs_ring := r\<rparr>)"
| "capture_do ex (NetworkRecord uuid now raw) s =
     (let (r, d) = dispatch_network_record uuid now raw ex (cs_cache s) (cs_ring s) (cs_discards s)
      in s\<lparr>cs_ring := r, cs_discards := d\<rparr>)"
| "capture_do ex (SweepEvict gone) s = s\<lparr>cs_cache := snd (sweep_evict gone (cs_cache s))\<rparr>"

definition capture_init :: "usize \<Rightarrow> capture_state" where
  "capture_init cap = \<lparr>cs_cache = cache_new, cs_ring = ring_new cap, cs_discards = discards_new\<rparr>"

definition capture_run :: "u32 option \<Rightarrow> capture_step list \<Rightarrow> capture_state \<Rightarrow> capture_state" where
  "capture_run ex steps s = fold (capture_do ex) steps s"

text \<open>The steps that leave a process's known creation time alone.\<close>

fun leaves_alone :: "u32 \<Rightarrow> u64 \<Rightarrow> capture_step \<Rightarrow> bool" where
  "leaves_alone p t (ProcessRecord _ _ raw) = (rp_pid raw \<noteq> p)"
| "leaves_alone p t (NetworkRecord _ _ _) = True"
| "leaves_alone p t (SweepEvict gone) = ((p, t) \<notin> set gone)"

lemma dispatch_record_cache:
  "cache_wf c \<Longrightarrow>
   created_time q (fst (dispatch_record uuid now raw c r)) =
     (case filetime_to_unix_nanos (rp_filetime_100ns raw) of
        None \<Rightarrow> created_time q c
      | Some t \<Rightarrow> if q = rp_pid raw
                 then (if rp_activity_id raw = Launch then Some t else None)
                 else created_time q c)"
  by (auto simp: dispatch_record_def split_beta Let_def cache.known_launched cache.known_terminated
      split: option.split activity_id.split)

lemma dispatch_record_cache_wf:
  "cache_wf c \<Longrightarrow> cache_wf (fst (dispatch_record uuid now raw c r))"
  by (auto simp: dispatch_record_def split_beta Let_def cache.ok_launched cache.ok_terminated
      split: option.split activity_id.split)

lemma capture_do_cache_wf: "cache_wf (cs_cache s) \<Longrightarrow> cache_wf (cs_cache (capture_do ex st s))"
  by (cases st) (auto simp: split_beta Let_def dispatch_record_cache_wf sweep_evict_wf)

lemma capture_run_cache_wf: "cache_wf (cs_cache s) \<Longrightarrow> cache_wf (cs_cache (capture_run ex sts s))"
  by (induction sts arbitrary: s) (auto simp: capture_run_def capture_do_cache_wf)

lemma leaves_alone_step:
  "cache_wf (cs_cache s) \<Longrightarrow> created_time p (cs_cache s) = Some t \<Longrightarrow> leaves_alone p t st \<Longrightarrow>
   created_time p (cs_cache (capture_do ex st s)) = Some t"
  by (cases st) (auto simp: split_beta Let_def dispatch_record_cache created_time_sweep_evict
      split: option.split)

lemma leaves_alone_run:
  "cache_wf (cs_cache s) \<Longrightarrow> created_time p (cs_cache s) = Some t \<Longrightarrow> list_all (leaves_alone p t) sts \<Longrightarrow>
   created_time p (cs_cache (capture_run ex sts s)) = Some t"
  by (induction sts arbitrary: s)
    (auto simp: capture_run_def leaves_alone_step capture_do_cache_wf)

lemma known_after_launch:
  assumes "rp_activity_id launch = Launch" and "rp_pid launch = p"
    and "filetime_to_unix_nanos (rp_filetime_100ns launch) = Some t"
    and "list_all (leaves_alone p t) between"
  shows "created_time p
    (cs_cache (capture_run ex (before @ ProcessRecord u n launch # between) (capture_init cap))) = Some t"
proof -
  let ?s1 = "capture_run ex before (capture_init cap)"
  let ?s2 = "capture_do ex (ProcessRecord u n launch) ?s1"
  have "cache_wf (cs_cache (capture_init cap))"
    by (simp add: capture_init_def cache.ok_none)
  then have wf: "cache_wf (cs_cache ?s1)" "cache_wf (cs_cache ?s2)"
    by (simp_all add: capture_run_cache_wf capture_do_cache_wf del: capture_do.simps)
  have "created_time p (cs_cache ?s2) = Some t"
    using assms wf by (simp add: split_beta Let_def dispatch_record_cache)
  then show ?thesis
    using assms leaves_alone_run [OF wf(2)] by (simp add: capture_run_def)
qed

lemma dispatch_terminate_known:
  assumes "rp_activity_id stop = Terminate"
    and "filetime_to_unix_nanos (rp_filetime_100ns stop) = Some t'"
    and "created_time (rp_pid stop) (cs_cache s) = Some t"
  shows "capture_do ex (ProcessRecord u now stop) s =
           s\<lparr>cs_cache := AList.delete (rp_pid stop) (cs_cache s),
             cs_ring := enqueue_or_drop now (Process (process_event u stop t' (Some t))) (cs_ring s)\<rparr>"
  using assms by (simp add: dispatch_record_def consult_and_purge_def created_time_def)

text \<open>
  The Terminate event of a process carries the creation time its
  Launch recorded, whatever other records, network records and sweeps were
  handled in between, as long as none of them is a process record of the same
  PID or an eviction of that very entry; and the entry is gone afterwards.
\<close>

lemma terminate_carries_launch_time:
  assumes "rp_activity_id launch = Launch" and "rp_activity_id stop = Terminate"
    and "rp_pid launch = p" and "rp_pid stop = p"
    and "filetime_to_unix_nanos (rp_filetime_100ns launch) = Some t"
    and "filetime_to_unix_nanos (rp_filetime_100ns stop) = Some t'"
    and "list_all (leaves_alone p t) between"
    and "s = capture_run ex (before @ ProcessRecord u1 n1 launch # between) (capture_init cap)"
  shows "capture_do ex (ProcessRecord u2 n2 stop) s =
           s\<lparr>cs_cache := AList.delete p (cs_cache s),
             cs_ring := enqueue_or_drop n2 (Process (process_event u2 stop t' (Some t))) (cs_ring s)\<rparr>"
  using dispatch_terminate_known [OF assms(2,6)] known_after_launch [OF assms(1,3,5,7)] assms(4,8)
  by metis

definition demo_raw :: "activity_id \<Rightarrow> u32 \<Rightarrow> i64 \<Rightarrow> raw_process_record" where
  "demo_raw a p f = \<lparr>rp_activity_id = a, rp_pid = p, rp_parent_pid = 4, rp_image_file_name = ''cmd.exe'',
     rp_command_line = [], rp_subject_user_sid = ''S-1-5-18'', rp_filetime_100ns = f,
     rp_exit_status = None\<rparr>"

section \<open>Network records\<close>

text \<open>
  A network record is discarded, enqueued or without effect; the agent's own
  records are excluded before their fields are decoded.
\<close>

lemma network_record_enqueued:
  assumes "dispatch_network_record uuid now raw ex c r d = (r', d')" and "r' \<noteq> r"
  obtains e where "r' = enqueue_or_drop now (Network e) r" "d' = d" "ex \<noteq> Some (ne_pid e)"
    "ne_created_time_nanos e = created_time (ne_pid e) c"
    "addr_canonical (sa_ip (ne_src e))" "addr_canonical (sa_ip (ne_dst e))"
  using assms decode_connection_fields
  by (fastforce simp: dispatch_network_record_def split: if_splits option.splits)

lemma network_record_discarded:
  "nd_total (snd (dispatch_network_record uuid now raw ex c r d)) =
     (if rn_event_id raw \<notin> set CONNECTION_EVENT_IDS \<or>
         (\<not> (ex \<noteq> None \<and> decode_pid (rn_pid raw) = ex) \<and>
          decode_connection (rn_event_id raw) (rn_pid raw) (rn_saddr raw) (rn_daddr raw)
            (rn_sport raw) (rn_dport raw) = None)
      then nd_total d + 1 else nd_total d)"
  by (auto simp: dispatch_network_record_def discards_record_def Let_def connection_direction_None
      split: option.split)

section \<open>What reaches the ring\<close>

fun ring_event_ok :: "u32 option \<Rightarrow> ring_event \<Rightarrow> bool" where
  "ring_event_ok ex (Process e) =
     (ce_image_file_name e \<noteq> [] \<and>
      (ce_activity_id e = Launch \<longrightarrow> ce_created_time_nanos e = Some (ce_etw_timestamp_nanos e)))"
| "ring_event_ok ex (Network e) =
     (ex \<noteq> Some (ne_pid e) \<and> addr_canonical (sa_ip (ne_src e)) \<and> addr_canonical (sa_ip (ne_dst e)))"
| "ring_event_ok ex (Logon e) = True"

lemma list_all_enqueue:
  "list_all P (snapshot_events r) \<Longrightarrow> (\<not> image_file_name_empty e \<Longrightarrow> P e) \<Longrightarrow>
   list_all P (snapshot_events (enqueue_or_drop now e r))"
  by (cases "image_file_name_empty e"; cases "snapshot_events r")
    (auto simp: ring.put_refused ring.contents_put)

lemma dispatch_record_ring_ok:
  "list_all (ring_event_ok ex) (snapshot_events r) \<Longrightarrow>
   list_all (ring_event_ok ex) (snapshot_events (snd (dispatch_record uuid now raw c r)))"
  by (auto simp: dispatch_record_def process_event_def split_beta Let_def intro!: list_all_enqueue
      split: option.split activity_id.split)

lemma dispatch_network_record_ring_ok:
  assumes "list_all (ring_event_ok ex) (snapshot_events r)"
  shows "list_all (ring_event_ok ex)
           (snapshot_events (fst (dispatch_network_record uuid now raw ex c r d)))"
proof (cases "fst (dispatch_network_record uuid now raw ex c r d) = r")
  case False
  then show ?thesis
    using assms network_record_enqueued [of uuid now raw ex c r d]
    by (metis list_all_enqueue prod.collapse ring_event_ok.simps(2))
qed (use assms in simp)

lemma capture_do_ring_ok:
  "list_all (ring_event_ok ex) (snapshot_events (cs_ring s)) \<Longrightarrow>
   list_all (ring_event_ok ex) (snapshot_events (cs_ring (capture_do ex st s)))"
  by (cases st)
    (simp_all add: split_beta Let_def dispatch_record_ring_ok dispatch_network_record_ring_ok)

text \<open>
  At every moment of every capture, each event in the ring can be
  reported: a process event has an image name, and a Launch its own timestamp
  as creation time; a network event is not one of the agent's own connections
  and carries canonical addresses, never an IPv4-mapped IPv6 one.
\<close>

lemma captured_events_ok:
  "list_all (ring_event_ok ex) (snapshot_events (cs_ring (capture_run ex steps (capture_init cap))))"
proof -
  have "list_all (ring_event_ok ex) (snapshot_events (cs_ring s)) \<Longrightarrow>
        list_all (ring_event_ok ex) (snapshot_events (cs_ring (capture_run ex steps s)))" for s
    by (induction steps arbitrary: s) (simp_all add: capture_run_def capture_do_ring_ok)
  then show ?thesis
    by (simp add: capture_init_def)
qed

end
