(* ===== verification/Hygiene.thy ===== *)
theory Hygiene
  imports Dispatch
begin

text \<open>
  The hygiene pass every 60 seconds (\<open>etw/hygiene.rs\<close>): the sweep of the
  creation-time cache, the poll of the kernel's lost-event counter, and the
  check of the discarded network records. The operating system's answers (the
  last error of \<open>OpenProcess\<close>, the lost-event counter of the session) are
  parameters.
\<close>

section \<open>Lost events\<close>

definition HYGIENE_INTERVAL :: duration where
  "HYGIENE_INTERVAL = secs 60"

datatype lost_observation =
    Unchanged
  | Increased u32 u32
  | Decreased u32 u32

type_synonym events_lost_monitor = u32

definition events_lost_monitor_new :: events_lost_monitor where
  "events_lost_monitor_new = 0"

definition events_lost_observe ::
    "u32 \<Rightarrow> events_lost_monitor \<Rightarrow> lost_observation \<times> events_lost_monitor" where
  "events_lost_observe current previous =
     ((if previous < current then Increased current (current - previous)
       else if current < previous then Decreased current previous
       else Unchanged), current)"

section \<open>Discarded records\<close>

type_synonym discard_monitor = u64

definition discard_monitor_new :: discard_monitor where
  "discard_monitor_new = 0"

definition discard_observe :: "network_discards \<Rightarrow> discard_monitor \<Rightarrow> u64 \<times> discard_monitor" where
  "discard_observe d previous =
     (let total = discards_total d in (saturating_sub total previous, total))"

section \<open>Liveness and the pass\<close>

text \<open>
  \<open>OpenProcess\<close> either gives a handle or leaves a Win32 code as the thread's
  last error; 87 is \<open>ERROR_INVALID_PARAMETER\<close>.
\<close>

definition process_is_alive :: "(u32 \<Rightarrow> unit + u32) \<Rightarrow> u32 \<Rightarrow> bool" where
  "process_is_alive open_process pid =
     (case open_process pid of Inl _ \<Rightarrow> True | Inr last_error \<Rightarrow> last_error \<noteq> 87)"

record hygiene_state =
  hs_cache :: created_time_cache
  hs_lost :: events_lost_monitor
  hs_discarded :: discard_monitor

definition hygiene_spawn :: "created_time_cache \<Rightarrow> hygiene_state" where
  "hygiene_spawn c =
     \<lparr>hs_cache = c, hs_lost = events_lost_monitor_new, hs_discarded = discard_monitor_new\<rparr>"

definition hygiene_pass ::
    "(u32 \<Rightarrow> unit + u32) \<Rightarrow> u32 + u32 \<Rightarrow> network_discards \<Rightarrow> hygiene_state \<Rightarrow> hygiene_state" where
  "hygiene_pass open_process events_lost discards h =
     (let c = snd (sweep (process_is_alive open_process) (hs_cache h));
          lost = (case events_lost of
                    Inr current \<Rightarrow> snd (events_lost_observe current (hs_lost h))
                  | Inl rc \<Rightarrow> hs_lost h);
          discarded = snd (discard_observe discards (hs_discarded h))
      in h\<lparr>hs_cache := c, hs_lost := lost, hs_discarded := discarded\<rparr>)"

section \<open>What a monitor reports adds up\<close>

fun lost_delta :: "lost_observation \<Rightarrow> int" where
  "lost_delta Unchanged = 0"
| "lost_delta (Increased tot delta) = int (unat delta)"
| "lost_delta (Decreased current previous) = int (unat current) - int (unat previous)"

fun observe_all :: "u32 list \<Rightarrow> events_lost_monitor \<Rightarrow> lost_observation list \<times> events_lost_monitor" where
  "observe_all [] m = ([], m)"
| "observe_all (c # cs) m =
     (let (o1, m1) = events_lost_observe c m; (os, m2) = observe_all cs m1 in (o1 # os, m2))"

lemma lost_delta_observe:
  "lost_delta (fst (events_lost_observe c m)) = int (unat c) - int (unat m)"
  by (cases m c rule: linorder_cases)
    (simp_all add: events_lost_observe_def unat_sub word_less_nat_alt word_le_nat_alt of_nat_diff
      less_imp_le)

lemma observe_all_sum:
  "sum_list (map lost_delta (fst (observe_all cs m))) = int (unat (snd (observe_all cs m))) - int (unat m)
   \<and> snd (observe_all cs m) = last (m # cs)"
proof (induction cs arbitrary: m)
  case (Cons c cs)
  moreover have "snd (events_lost_observe c m) = c"
    by (simp add: events_lost_observe_def)
  ultimately show ?case
    by (simp add: split_beta Let_def lost_delta_observe)
qed simp

text \<open>
  The discard monitor reports every discard exactly once as long as the
  counter does not go back, and keeps the last total.
\<close>

fun discard_reports :: "network_discards list \<Rightarrow> discard_monitor \<Rightarrow> u64 list" where
  "discard_reports [] m = []"
| "discard_reports (d # ds) m =
     (let (delta, m') = discard_observe d m in delta # discard_reports ds m')"

lemma discard_reports_sum:
  "sorted (unat m # map (unat \<circ> discards_total) ds) \<Longrightarrow>
   sum_list (map unat (discard_reports ds m)) + unat m = last (unat m # map (unat \<circ> discards_total) ds)"
proof (induction ds arbitrary: m)
  case (Cons d ds)
  then show ?case
    by (cases ds) (auto simp: discard_observe_def Let_def unat_saturating_sub)
qed simp

lemma hygiene_pass_keeps_alive:
  "cache_wf (hs_cache h) \<Longrightarrow> process_is_alive op p \<Longrightarrow>
   created_time p (hs_cache (hygiene_pass op el d h)) = created_time p (hs_cache h)"
  using sweep_evict_wf
  by (auto simp: hygiene_pass_def sweep_def created_time_sweep_evict in_sweep_gone Let_def)

lemma hygiene_pass_drops_gone:
  "cache_wf (hs_cache h) \<Longrightarrow> \<not> process_is_alive op p \<Longrightarrow>
   created_time p (hs_cache (hygiene_pass op el d h)) = None"
  by (auto simp: hygiene_pass_def sweep_def created_time_sweep_evict in_sweep_gone Let_def)

text \<open>
  A hygiene pass forgets the creation times of exactly the processes
  the operating system reports as not existing, so that after it the cache
  holds only live processes, each with the time it had.
\<close>

lemma hygiene_pass_live_only:
  assumes "cache_wf (hs_cache h)"
  shows "created_time p (hs_cache (hygiene_pass op el d h)) =
           (if op p = Inr 87 then None else created_time p (hs_cache h))"
  using hygiene_pass_keeps_alive [OF assms, of op p el d] hygiene_pass_drops_gone [OF assms, of op p el d]
  by (cases "op p") (auto simp: process_is_alive_def)

end
