(* ===== verification/Rust_Result.thy ===== *)
theory Rust_Result
  imports CG_Prelude
begin

text \<open>
  Fallible computations of the agent: \<open>Result<T, E>\<close> is the sum of the error
  and the value, the \<open>?\<close> operator is \<open>and_then\<close>, and \<open>map_err\<close> and
  \<open>ok_or\<close> are the library's. The theory also models \<open>str::from_utf8\<close>, the
  standard library's validation of a byte string.
\<close>

named_theorems result

section \<open>Results\<close>

type_synonym ('e, 'a) result = "'e + 'a"

fun and_then :: "('e, 'a) result \<Rightarrow> ('a \<Rightarrow> ('e, 'b) result) \<Rightarrow> ('e, 'b) result" where
  "and_then (Inl e) f = Inl e"
| "and_then (Inr x) f = f x"

fun map_err :: "('e \<Rightarrow> 'f) \<Rightarrow> ('e, 'a) result \<Rightarrow> ('f, 'a) result" where
  "map_err g (Inl e) = Inl (g e)"
| "map_err g (Inr x) = Inr x"

fun ok_or :: "'e \<Rightarrow> 'a option \<Rightarrow> ('e, 'a) result" where
  "ok_or e None = Inl e"
| "ok_or e (Some x) = Inr x"

definition guard :: "bool \<Rightarrow> 'e \<Rightarrow> ('e, unit) result" where
  "guard ok e = (if ok then Inr () else Inl e)"

fun is_ok :: "('e, 'a) result \<Rightarrow> bool" where
  "is_ok (Inl _) = False"
| "is_ok (Inr _) = True"

lemma and_then_Inr [result]: "and_then r f = Inr y \<longleftrightarrow> (\<exists>x. r = Inr x \<and> f x = Inr y)"
  by (cases r) auto

lemma and_then_Inl [result]: "and_then r f = Inl e \<longleftrightarrow> r = Inl e \<or> (\<exists>x. r = Inr x \<and> f x = Inl e)"
  by (cases r) auto

lemma and_then_cong [fundef_cong]:
  "r = r' \<Longrightarrow> (\<And>x. r' = Inr x \<Longrightarrow> f x = f' x) \<Longrightarrow> and_then r f = and_then r' f'"
  by (cases r') auto

lemma map_err_Inr [result]: "map_err g r = Inr x \<longleftrightarrow> r = Inr x"
  by (cases r) auto

lemma map_err_Inl [result]: "map_err g r = Inl e \<longleftrightarrow> (\<exists>e'. r = Inl e' \<and> e = g e')"
  by (cases r) auto

lemma ok_or_Inr [result]: "ok_or e v = Inr x \<longleftrightarrow> v = Some x"
  by (cases v) auto

lemma ok_or_Inl [result]: "ok_or e v = Inl e' \<longleftrightarrow> v = None \<and> e' = e"
  by (cases v) auto

lemma guard_Inr [result]: "guard ok e = Inr u \<longleftrightarrow> ok"
  by (simp add: guard_def)

lemma guard_Inl [result]: "guard ok e = Inl e' \<longleftrightarrow> \<not> ok \<and> e' = e"
  by (auto simp: guard_def)

lemma guard_True [simp]: "guard True e = Inr ()"
  by (simp add: guard_def)

lemma guard_False [simp]: "guard False e = Inl e"
  by (simp add: guard_def)

section \<open>UTF-8\<close>

definition continuation :: "u8 \<Rightarrow> bool" where
  "continuation b \<longleftrightarrow> 0x80 \<le> b \<and> b \<le> 0xBF"

text \<open>The well-formed sequences of the Unicode standard: shortest forms, no surrogates, at most U+10FFFF.\<close>

fun utf8_valid :: "bytes \<Rightarrow> bool" where
  "utf8_valid [] = True"
| "utf8_valid (a # bs) =
     (if a < 0x80 then utf8_valid bs
      else case bs of
        [] \<Rightarrow> False
      | b # cs \<Rightarrow>
          if 0xC2 \<le> a \<and> a \<le> 0xDF then continuation b \<and> utf8_valid cs
          else case cs of
            [] \<Rightarrow> False
          | c # ds \<Rightarrow>
              if 0xE0 \<le> a \<and> a \<le> 0xEF
              then continuation b \<and> continuation c \<and> (a = 0xE0 \<longrightarrow> 0xA0 \<le> b) \<and> (a = 0xED \<longrightarrow> b \<le> 0x9F)
                \<and> utf8_valid ds
              else case ds of
                [] \<Rightarrow> False
              | d # es \<Rightarrow>
                  0xF0 \<le> a \<and> a \<le> 0xF4 \<and> continuation b \<and> continuation c \<and> continuation d
                  \<and> (a = 0xF0 \<longrightarrow> 0x90 \<le> b) \<and> (a = 0xF4 \<longrightarrow> b \<le> 0x8F) \<and> utf8_valid es)"

definition byte_char :: "u8 \<Rightarrow> char" where
  "byte_char b = char_of (unat b)"

definition char_byte :: "char \<Rightarrow> u8" where
  "char_byte c = of_nat (cval c)"

definition from_utf8 :: "bytes \<Rightarrow> string option" where
  "from_utf8 bs = (if utf8_valid bs then Some (map byte_char bs) else None)"

definition as_bytes :: "string \<Rightarrow> bytes" where
  "as_bytes s = map char_byte s"

lemma cval_less: "cval c < 256"
proof -
  have "cval (char_of (cval c)) < 256"
    by (simp only: of_char_of)
  then show ?thesis
    by simp
qed

lemma byte_char_inverse [simp]: "char_byte (byte_char b) = b"
proof -
  have "unat b < 256"
    using unat_bound [of b] by simp
  then show ?thesis
    by (simp add: byte_char_def char_byte_def of_char_of)
qed

lemma char_byte_inverse [simp]: "byte_char (char_byte c) = c"
  using cval_less [of c] by (simp add: byte_char_def char_byte_def unat_of_nat)

lemma as_bytes_from_utf8 [result]: "from_utf8 bs = Some s \<longleftrightarrow> utf8_valid bs \<and> bs = as_bytes s"
  by (auto simp: from_utf8_def as_bytes_def comp_def)

lemma as_bytes_inject [simp]: "as_bytes s = as_bytes t \<longleftrightarrow> s = t"
  by (metis as_bytes_def char_byte_inverse injI inj_map_eq_map)

lemma length_as_bytes [simp]: "length (as_bytes s) = length s"
  by (simp add: as_bytes_def)

end
