(* ===== verification/Win_Store.thy ===== *)
theory Win_Store
  imports Rust_Result
begin

text \<open>
  The Windows objects the service keeps in its custody: files and directories
  with their attributes, links, file identity, security descriptor and bytes.
  Windows is the environment of the model. Each call may fail, with the Win32
  error the environment gives, and a failing call may have taken effect. The
  security descriptor an SDDL text denotes, the validity and equality of SIDs,
  the security a new object inherits, how many bytes a failing write leaves
  and the text of an I/O error are the environment's as well.
\<close>

named_theorems store

section \<open>Security descriptors\<close>

record ace =
  ace_type :: u8
  ace_flags :: u8
  ace_mask :: u32
  ace_sid :: bytes

text \<open>
  What the queries on a descriptor answer: the owner (possibly null), the
  DACL (absent or null) entry by entry, and the control word. Each query may
  fail with a Win32 error.
\<close>

record descriptor =
  sd_owner :: "(u32, bytes option) result"
  sd_dacl :: "(u32, (u32, ace) result list option) result"
  sd_control :: "(u32, u16) result"

section \<open>Objects\<close>

record file_info =
  fi_attributes :: u32
  fi_links :: u32
  fi_volume :: u32
  fi_index :: u64
  fi_case_sensitive :: bool

record wobject =
  ob_path :: string
  ob_info :: file_info
  ob_security :: descriptor
  ob_bytes :: bytes

record store =
  st_objects :: "wobject list"
  st_ops :: nat

text \<open>A call succeeds, or fails with an error, its effect having happened or not.\<close>

datatype fate = Done | Win32 u32 bool

text \<open>What becomes of an operation on a thread of its own.\<close>

datatype thread_fate =
    NoThread string
  | Answers duration
  | Panics duration
  | Never

record win_env =
  we_fate :: "nat \<Rightarrow> fate"
  we_thread :: "nat \<Rightarrow> thread_fate"
  we_sddl :: "string \<Rightarrow> (u32, descriptor) result"
  we_valid_sid :: "bytes \<Rightarrow> bool"
  we_system_sid :: "bytes \<Rightarrow> bool"
  we_administrators_sid :: "bytes \<Rightarrow> bool"
  we_equal_sid :: "bytes \<Rightarrow> bytes \<Rightarrow> bool"
  we_new_file :: "nat \<Rightarrow> file_info"
  we_inherited :: descriptor
  we_written :: "nat \<Rightarrow> nat"
  we_io_text :: "u32 \<Rightarrow> string"

section \<open>Computations on the store\<close>

type_synonym ('e, 'a) io = "store \<Rightarrow> ('e, 'a) result \<times> store"

definition io_lift :: "('e, 'a) result \<Rightarrow> ('e, 'a) io" where
  "io_lift r s = (r, s)"

definition io_bind :: "('e, 'a) io \<Rightarrow> ('a \<Rightarrow> ('e, 'b) io) \<Rightarrow> ('e, 'b) io" where
  "io_bind m f s = (case m s of (Inl e, s') \<Rightarrow> (Inl e, s') | (Inr x, s') \<Rightarrow> f x s')"

definition io_map_err :: "('e \<Rightarrow> 'f) \<Rightarrow> ('e, 'a) io \<Rightarrow> ('f, 'a) io" where
  "io_map_err g m s = (case m s of (r, s') \<Rightarrow> (map_err g r, s'))"

text \<open>A loop that runs an operation on each element in turn and stops at the first error.\<close>

fun io_each :: "('x \<Rightarrow> ('e, unit) io) \<Rightarrow> 'x list \<Rightarrow> ('e, unit) io" where
  "io_each f [] = io_lift (Inr ())"
| "io_each f (x # xs) = io_bind (f x) (\<lambda>_. io_each f xs)"

definition find_object :: "string \<Rightarrow> wobject list \<Rightarrow> wobject option" where
  "find_object path obs = find (\<lambda>ob. eq_ignore_ascii_case (ob_path ob) path) obs"

definition object_at :: "string \<Rightarrow> store \<Rightarrow> wobject option" where
  "object_at path s = find_object path (st_objects s)"

definition tick :: "store \<Rightarrow> store" where
  "tick s = s\<lparr>st_ops := st_ops s + 1\<rparr>"

text \<open>
  A call with an effect on the objects: the effect happens when the call
  succeeds, and when the environment says that a failing call took effect.
\<close>

definition win_call :: "win_env \<Rightarrow> (u32 \<Rightarrow> 'e) \<Rightarrow> (wobject list \<Rightarrow> wobject list) \<Rightarrow> ('e, unit) io" where
  "win_call env text effect s =
     (let s' = tick s; changed = s'\<lparr>st_objects := effect (st_objects s')\<rparr>
      in case we_fate env (st_ops s) of
           Done \<Rightarrow> (Inr (), changed)
         | Win32 e took \<Rightarrow> (Inl (text e), if took then changed else s'))"

text \<open>A call that reads.\<close>

definition win_query :: "win_env \<Rightarrow> (u32 \<Rightarrow> 'e) \<Rightarrow> (store \<Rightarrow> 'a) \<Rightarrow> ('e, 'a) io" where
  "win_query env text f s =
     (case we_fate env (st_ops s) of Done \<Rightarrow> (Inr (f s), tick s) | Win32 e _ \<Rightarrow> (Inl (text e), tick s))"

definition win_join :: "string \<Rightarrow> string \<Rightarrow> string" where
  "win_join dir name = dir @ [bslash] @ name"

text \<open>Effects on the objects: at a path, under a directory, and the move of a tree.\<close>

definition under :: "string \<Rightarrow> string \<Rightarrow> bool" where
  "under dir path \<longleftrightarrow> eq_ignore_ascii_case (take (length dir + 1) path) (dir @ [bslash]) \<and> length dir < length path"

definition put_object :: "wobject \<Rightarrow> wobject list \<Rightarrow> wobject list" where
  "put_object ob obs = ob # filter (\<lambda>x. \<not> eq_ignore_ascii_case (ob_path x) (ob_path ob)) obs"

definition remove_object :: "string \<Rightarrow> wobject list \<Rightarrow> wobject list" where
  "remove_object path obs = filter (\<lambda>x. \<not> eq_ignore_ascii_case (ob_path x) path) obs"

definition remove_tree :: "string \<Rightarrow> wobject list \<Rightarrow> wobject list" where
  "remove_tree path obs = filter (\<lambda>x. \<not> eq_ignore_ascii_case (ob_path x) path \<and> \<not> under path (ob_path x)) obs"

definition move_tree :: "string \<Rightarrow> string \<Rightarrow> wobject list \<Rightarrow> wobject list" where
  "move_tree a b obs =
     map (\<lambda>x. if eq_ignore_ascii_case (ob_path x) a \<or> under a (ob_path x)
               then x\<lparr>ob_path := b @ drop (length a) (ob_path x)\<rparr> else x) obs"

definition set_object :: "string \<Rightarrow> (wobject \<Rightarrow> wobject) \<Rightarrow> wobject list \<Rightarrow> wobject list" where
  "set_object path f obs = map (\<lambda>x. if eq_ignore_ascii_case (ob_path x) path then f x else x) obs"

text \<open>The names in a directory.\<close>

definition names_in :: "string \<Rightarrow> wobject list \<Rightarrow> string list" where
  "names_in dir obs =
     map (\<lambda>x. drop (length dir + 1) (ob_path x))
       (filter (\<lambda>x. under dir (ob_path x) \<and> bslash \<notin> set (drop (length dir + 1) (ob_path x))) obs)"

end
