(* ===== verification/Agent_Errors.thy ===== *)
theory Agent_Errors
  imports Event_Types
begin

text \<open>
  The agent's error domain (\<open>errors.rs\<close>), with the exit code and the stderr
  line of each terminal error, and the startup decision on a failed capture
  start (\<open>startup.rs\<close>).
\<close>

section \<open>Error types\<close>

datatype config_error =
    NotFound string
  | ConfigIo string
  | Parse string "(usize \<times> usize) option"
  | MissingKey string
  | Invalid string

datatype transport_error =
    TransportNetwork string
  | BadStatus u16
  | RetryExhausted u32 string
  | TransportTimeout u64

datatype secure_store_error = Seal string | Unseal string

datatype tls_error =
    ServerCertUntrusted string
  | ClientCertRejected string
  | ClientConfig string

datatype enrollment_error =
    MissingToken
  | Refused string
  | Unreachable u32 string
  | Persistence string
  | EnrollmentTls tls_error

datatype signing_error = Canonical string | Sign string

datatype etw_error =
    EtwPrivilegeNotHeld
  | EtwAccessDenied
  | EtwFailed u32 string
  | EtwUnsupported

datatype logon_error = LogonAccessDenied | LogonFailed u32 string

datatype agent_error =
    ConfigErr config_error
  | TransportErr transport_error
  | EnrollmentErr enrollment_error
  | SecureStoreErr secure_store_error
  | TlsErr tls_error
  | SigningErr signing_error
  | EtwErr etw_error
  | LogonErr logon_error

section \<open>Texts\<close>

abbreviation squote :: string where
  "squote \<equiv> [CHR 0x27]"

fun config_error_text :: "config_error \<Rightarrow> string" where
  "config_error_text (NotFound p) = ''config file not found: '' @ p"
| "config_error_text (ConfigIo e) = ''failed to read config file: '' @ e"
| "config_error_text (Parse m pos) = ''failed to parse config TOML: '' @ m"
| "config_error_text (MissingKey k) = ''invalid config: missing key '' @ squote @ k @ squote"
| "config_error_text (Invalid m) = ''invalid config: '' @ m"

fun transport_error_text :: "transport_error \<Rightarrow> string" where
  "transport_error_text (TransportNetwork m) = ''transport error: '' @ m"
| "transport_error_text (BadStatus s) = ''server returned non-2xx: '' @ dec (unat s)"
| "transport_error_text (RetryExhausted n e) =
     ''retry budget exhausted after '' @ dec (unat n) @ '' attempts: '' @ e"
| "transport_error_text (TransportTimeout ms) = ''request timed out after '' @ dec (unat ms) @ '' ms''"

fun secure_store_error_text :: "secure_store_error \<Rightarrow> string" where
  "secure_store_error_text (Seal m) = ''seal failed: '' @ m"
| "secure_store_error_text (Unseal m) =
     ''unseal failed (wrong machine, or corrupted blob): '' @ m"

fun tls_error_text :: "tls_error \<Rightarrow> string" where
  "tls_error_text (ServerCertUntrusted m) = ''server certificate verification failed: '' @ m"
| "tls_error_text (ClientCertRejected m) = ''server rejected client certificate: '' @ m"
| "tls_error_text (ClientConfig m) = ''tls client configuration failed: '' @ m"

fun enrollment_error_text :: "enrollment_error \<Rightarrow> string" where
  "enrollment_error_text MissingToken =
     ''invalid config: missing key '' @ squote @ ''enrollment.token'' @ squote"
| "enrollment_error_text (Refused m) = ''enrollment refused: '' @ m"
| "enrollment_error_text (Unreachable n e) =
     ''server unreachable after '' @ dec (unat n) @ '' attempts: '' @ e"
| "enrollment_error_text (Persistence m) = ''identity persistence/load failed: '' @ m"
| "enrollment_error_text (EnrollmentTls t) = tls_error_text t"

fun signing_error_text :: "signing_error \<Rightarrow> string" where
  "signing_error_text (Canonical m) = ''canonicalization failed: '' @ m"
| "signing_error_text (Sign m) = ''signature operation failed: '' @ m"

fun etw_error_text :: "etw_error \<Rightarrow> string" where
  "etw_error_text EtwPrivilegeNotHeld = ''ETW open refused: insufficient privilege''"
| "etw_error_text EtwAccessDenied = ''ETW open refused: access denied''"
| "etw_error_text (EtwFailed c m) = ''ETW session open failed: '' @ dec (unat c) @ '' '' @ m"
| "etw_error_text EtwUnsupported = ''ETW capture is not available on this platform''"

fun logon_error_text :: "logon_error \<Rightarrow> string" where
  "logon_error_text LogonAccessDenied = ''Security log subscription refused: insufficient privilege''"
| "logon_error_text (LogonFailed c m) = ''Security log subscription failed: '' @ dec (unat c) @ '' '' @ m"

section \<open>Exit codes and stderr lines\<close>

fun tls_exit_code :: "tls_error \<Rightarrow> u8" where
  "tls_exit_code (ServerCertUntrusted _) = 6"
| "tls_exit_code (ClientConfig _) = 6"
| "tls_exit_code (ClientCertRejected _) = 7"

fun tls_stderr_line :: "tls_error \<Rightarrow> string" where
  "tls_stderr_line (ServerCertUntrusted m) =
     ''cg-agent: tls: server certificate verification failed: '' @ m"
| "tls_stderr_line (ClientConfig m) = ''cg-agent: tls: client configuration failed: '' @ m"
| "tls_stderr_line (ClientCertRejected _) = ''cg-agent: tls: server rejected client certificate''"

fun enrollment_exit_code :: "enrollment_error \<Rightarrow> u8" where
  "enrollment_exit_code MissingToken = 2"
| "enrollment_exit_code (Refused _) = 3"
| "enrollment_exit_code (Unreachable _ _) = 4"
| "enrollment_exit_code (Persistence _) = 5"
| "enrollment_exit_code (EnrollmentTls t) = tls_exit_code t"

fun enrollment_stderr_line :: "enrollment_error \<Rightarrow> string" where
  "enrollment_stderr_line MissingToken = ''cg-agent: '' @ enrollment_error_text MissingToken"
| "enrollment_stderr_line (Refused m) = ''cg-agent: enrollment failed: '' @ m"
| "enrollment_stderr_line (Unreachable n _) =
     ''cg-agent: enrollment failed: server unreachable after '' @ dec (unat n) @ '' attempts''"
| "enrollment_stderr_line (Persistence m) = ''cg-agent: identity error: '' @ m"
| "enrollment_stderr_line (EnrollmentTls t) = tls_stderr_line t"

definition signing_exit_code :: "signing_error \<Rightarrow> u8" where
  "signing_exit_code e = 8"

definition STDERR_INSUFFICIENT_PRIVILEGE :: string where
  "STDERR_INSUFFICIENT_PRIVILEGE =
     ''cg-agent: insufficient privilege to open Microsoft-Windows-Kernel-Process ETW session; run as elevated user or LocalSystem''"

fun etw_exit_code :: "etw_error \<Rightarrow> u8" where
  "etw_exit_code EtwPrivilegeNotHeld = 9"
| "etw_exit_code EtwAccessDenied = 9"
| "etw_exit_code (EtwFailed _ _) = 1"
| "etw_exit_code EtwUnsupported = 1"

fun etw_stderr_line :: "etw_error \<Rightarrow> string" where
  "etw_stderr_line EtwPrivilegeNotHeld = STDERR_INSUFFICIENT_PRIVILEGE"
| "etw_stderr_line EtwAccessDenied = STDERR_INSUFFICIENT_PRIVILEGE"
| "etw_stderr_line e = ''cg-agent: '' @ etw_error_text e"

fun etw_error_from :: "open_error \<Rightarrow> etw_error" where
  "etw_error_from PrivilegeNotHeld = EtwPrivilegeNotHeld"
| "etw_error_from AccessDenied = EtwAccessDenied"
| "etw_error_from (OpenFailed c m) = EtwFailed c m"
| "etw_error_from Unsupported = EtwUnsupported"

definition STDERR_LOGON_PRIVILEGE :: string where
  "STDERR_LOGON_PRIVILEGE =
     ''cg-agent: insufficient privilege to read the Security log; run as elevated user''"

definition logon_from_win32 :: "(i32 \<Rightarrow> string) \<Rightarrow> u32 \<Rightarrow> logon_error" where
  "logon_from_win32 os_text c =
     (if c = 5 \<or> c = 1314 then LogonAccessDenied else LogonFailed c (win32_message os_text c))"

fun logon_exit_code :: "logon_error \<Rightarrow> u8" where
  "logon_exit_code LogonAccessDenied = 9"
| "logon_exit_code (LogonFailed _ _) = 1"

fun logon_stderr_line :: "logon_error \<Rightarrow> string" where
  "logon_stderr_line LogonAccessDenied = STDERR_LOGON_PRIVILEGE"
| "logon_stderr_line (LogonFailed c m) = ''cg-agent: '' @ logon_error_text (LogonFailed c m)"

fun agent_exit_code :: "agent_error \<Rightarrow> u8" where
  "agent_exit_code (TlsErr t) = tls_exit_code t"
| "agent_exit_code (SigningErr s) = signing_exit_code s"
| "agent_exit_code (EnrollmentErr e) = enrollment_exit_code e"
| "agent_exit_code (ConfigErr _) = 2"
| "agent_exit_code (EtwErr e) = etw_exit_code e"
| "agent_exit_code (LogonErr e) = logon_exit_code e"
| "agent_exit_code (TransportErr _) = 1"
| "agent_exit_code (SecureStoreErr _) = 1"

fun agent_stderr_line :: "agent_error \<Rightarrow> string" where
  "agent_stderr_line (TlsErr t) = tls_stderr_line t"
| "agent_stderr_line (SigningErr s) = ''cg-agent: signing failed: '' @ signing_error_text s"
| "agent_stderr_line (EtwErr e) = etw_stderr_line e"
| "agent_stderr_line (LogonErr e) = logon_stderr_line e"
| "agent_stderr_line (ConfigErr e) = ''cg-agent: '' @ config_error_text e"
| "agent_stderr_line (TransportErr e) = ''cg-agent: '' @ transport_error_text e"
| "agent_stderr_line (EnrollmentErr e) = ''cg-agent: '' @ enrollment_error_text e"
| "agent_stderr_line (SecureStoreErr e) = ''cg-agent: '' @ secure_store_error_text e"

section \<open>Startup\<close>

record startup_abort =
  sa_exit_code :: i32
  sa_stderr_message :: string

definition handle_etw_open_result :: "open_error + unit \<Rightarrow> startup_abort + unit" where
  "handle_etw_open_result result =
     (case result of
        Inr _ \<Rightarrow> Inr ()
      | Inl Unsupported \<Rightarrow> Inr ()
      | Inl e \<Rightarrow> Inl \<lparr>sa_exit_code = ucast (etw_exit_code (etw_error_from e)),
                       sa_stderr_message = etw_stderr_line (etw_error_from e)\<rparr>)"

section \<open>Properties\<close>

lemma tls_exit_code_range: "tls_exit_code t \<in> {6, 7}"
  by (cases t) simp_all

lemma enrollment_exit_code_range: "enrollment_exit_code e \<in> {2, 3, 4, 5, 6, 7}"
  using tls_exit_code_range by (cases e) auto

text \<open>
  The exit code tells the failures apart. Every terminal error has a
  code from 1 to 9; 9 is exactly a privilege refused, by the capture session
  or the Security log; 8 exactly a local signing failure; 7 exactly a client
  certificate the server rejected; and the stderr line of every terminal
  error starts with the agent's name.
\<close>

lemma agent_exit_codes:
  "agent_exit_code e \<in> {1, 2, 3, 4, 5, 6, 7, 8, 9}
   \<and> (agent_exit_code e = 9 \<longleftrightarrow>
        e \<in> {EtwErr EtwPrivilegeNotHeld, EtwErr EtwAccessDenied, LogonErr LogonAccessDenied})
   \<and> (agent_exit_code e = 8 \<longleftrightarrow> (\<exists>s. e = SigningErr s))
   \<and> (agent_exit_code e = 7 \<longleftrightarrow>
        (\<exists>m. e = TlsErr (ClientCertRejected m) \<or> e = EnrollmentErr (EnrollmentTls (ClientCertRejected m))))
   \<and> prefix ''cg-agent: '' (agent_stderr_line e)"
proof (cases e)
  case (EnrollmentErr x)
  then show ?thesis
  proof (cases x)
    case (EnrollmentTls t)
    with EnrollmentErr show ?thesis by (cases t) auto
  qed auto
next
  case (TlsErr t)
  then show ?thesis by (cases t) auto
next
  case (EtwErr x)
  then show ?thesis by (cases x) (auto simp: STDERR_INSUFFICIENT_PRIVILEGE_def)
next
  case (LogonErr x)
  then show ?thesis by (cases x) (auto simp: STDERR_LOGON_PRIVILEGE_def)
qed (auto simp: signing_exit_code_def)

text \<open>
  The startup decision and the error domain agree: a start is aborted for every
  open failure but a missing backend, with the code and line of the error.
\<close>

lemma handle_etw_open_result_abort:
  "handle_etw_open_result (Inl e) = Inl a \<Longrightarrow>
   e \<noteq> Unsupported \<and> sa_exit_code a = ucast (agent_exit_code (EtwErr (etw_error_from e)))
   \<and> sa_stderr_message a = agent_stderr_line (EtwErr (etw_error_from e))
   \<and> (sa_exit_code a = 9 \<longleftrightarrow> is_privilege e)"
  by (cases e) (auto simp: handle_etw_open_result_def)

end
