(* ===== verification/Custody.thy ===== *)
theory Custody
  imports Win_Store Agent_Errors
begin

text \<open>
  Custody of the service's private files (\<open>custody.rs\<close>): the principals and
  policies, the check of an object's shape and of its security, and the
  operations that read, create, replace, rename and delete an object. Which
  access an open asks for and what it shares is Windows' to judge, so it is
  part of a call's fate; a handle is the object it was opened on.
\<close>

unbundle bit_operations_syntax

section \<open>Principals and policies\<close>

definition ACCESS_ALLOWED_ACE_TYPE :: u8 where "ACCESS_ALLOWED_ACE_TYPE = 0"
definition ACCESS_DENIED_ACE_TYPE :: u8 where "ACCESS_DENIED_ACE_TYPE = 1"
definition INHERIT_ONLY_ACE :: u8 where "INHERIT_ONLY_ACE = 8"
definition SE_DACL_PROTECTED :: u16 where "SE_DACL_PROTECTED = 0x1000"
definition FILE_ATTRIBUTE_DIRECTORY :: u32 where "FILE_ATTRIBUTE_DIRECTORY = 0x10"
definition FILE_ATTRIBUTE_REPARSE_POINT :: u32 where "FILE_ATTRIBUTE_REPARSE_POINT = 0x400"

datatype principal = System | Administrators | Sid bytes

fun principal_matches :: "win_env \<Rightarrow> principal \<Rightarrow> bytes option \<Rightarrow> bool" where
  "principal_matches env p None = False"
| "principal_matches env p (Some sid) =
     (we_valid_sid env sid \<and>
      (case p of
         System \<Rightarrow> we_system_sid env sid
       | Administrators \<Rightarrow> we_administrators_sid env sid
       | Sid bs \<Rightarrow>
           8 \<le> length bs \<and> length bs = 8 + 4 * unat (bs ! 1) \<and> we_valid_sid env bs \<and> we_equal_sid env bs sid))"

definition principal_is :: "win_env \<Rightarrow> principal \<Rightarrow> bytes \<Rightarrow> bool" where
  "principal_is env p sid = principal_matches env p (Some sid)"

record policy =
  po_owners :: "principal list"
  po_allowed :: "principal list"
  po_protected :: bool

definition policy_shared :: policy where
  "policy_shared = \<lparr>po_owners = [System, Administrators], po_allowed = [System, Administrators], po_protected = False\<rparr>"

definition policy_configuration :: policy where
  "policy_configuration = \<lparr>po_owners = [System], po_allowed = [System, Administrators], po_protected = True\<rparr>"

definition policy_system_only :: policy where
  "policy_system_only = \<lparr>po_owners = [System], po_allowed = [System], po_protected = True\<rparr>"

datatype kind = Directory | File

section \<open>Failures\<close>

definition win32 :: "u32 \<Rightarrow> string" where
  "win32 e = ''Win32 error '' @ dec (unat e)"

definition in_use :: "string \<Rightarrow> string" where
  "in_use path = path @ '' is in use by another process''"

definition failure :: "string \<Rightarrow> string \<Rightarrow> u32 \<Rightarrow> string" where
  "failure verb path e =
     (if e = 32 \<or> e = 33 \<or> e = 995 then in_use path
      else if 6800 \<le> e \<and> e \<le> 6899
      then path @ '' is held by another process's file transaction ('' @ win32 e @ '')''
      else verb @ '' '' @ path @ '': '' @ win32 e)"

definition unreadable :: "string \<Rightarrow> u32 \<Rightarrow> string" where
  "unreadable path e = ''read the security of '' @ path @ '': '' @ win32 e"

definition principal_names :: "principal list \<Rightarrow> string \<Rightarrow> string" where
  "principal_names ps joiner =
     join joiner (map (\<lambda>p. case p of System \<Rightarrow> ''SYSTEM'' | Administrators \<Rightarrow> ''Administrators''
                                   | Sid _ \<Rightarrow> ''the policy's account'') ps)"

section \<open>Waiting on another process\<close>

definition OPEN_WAIT :: duration where "OPEN_WAIT = secs 30"
definition CANCEL_INTERVAL :: duration where "CANCEL_INTERVAL = millis 100"
definition CANCEL_TRIES :: nat where "CANCEL_TRIES = 50"

text \<open>How the wait for the thread ends, and how long it took.\<close>

datatype verdict = NotStarted string | Returned | Panicked | InUse

fun cancel_wait :: "nat \<Rightarrow> thread_fate \<Rightarrow> duration \<Rightarrow> verdict \<times> duration" where
  "cancel_wait 0 fate waited = (InUse, waited)"
| "cancel_wait (Suc tries) fate waited =
     (case fate of
        Answers t \<Rightarrow>
          if t \<le> waited + CANCEL_INTERVAL then (Returned, max waited t)
          else cancel_wait tries fate (waited + CANCEL_INTERVAL)
      | Panics t \<Rightarrow>
          if t \<le> waited + CANCEL_INTERVAL then (InUse, max waited t)
          else cancel_wait tries fate (waited + CANCEL_INTERVAL)
      | _ \<Rightarrow> cancel_wait tries fate (waited + CANCEL_INTERVAL))"

definition bounded_wait :: "duration \<Rightarrow> thread_fate \<Rightarrow> verdict \<times> duration" where
  "bounded_wait wait fate =
     (case fate of
        NoThread e \<Rightarrow> (NotStarted e, 0)
      | Answers t \<Rightarrow> if t \<le> wait then (Returned, t) else cancel_wait CANCEL_TRIES fate wait
      | Panics t \<Rightarrow> if t \<le> wait then (Panicked, t) else cancel_wait CANCEL_TRIES fate wait
      | Never \<Rightarrow> cancel_wait CANCEL_TRIES fate wait)"

text \<open>
  An operation on a thread of its own. One that is left behind, but answers
  later, has its effect all the same.
\<close>

definition bounded :: "win_env \<Rightarrow> duration \<Rightarrow> string \<Rightarrow> (string, 'a) io \<Rightarrow> (string, 'a) io" where
  "bounded env wait path operation s =
     (let fate = we_thread env (st_ops s); s' = tick s
      in case fst (bounded_wait wait fate) of
           NotStarted e \<Rightarrow> (Inl (''start a thread for '' @ path @ '': '' @ e), s')
         | Returned \<Rightarrow> operation s'
         | Panicked \<Rightarrow> (Inl (''the operation on '' @ path @ '' panicked''), s')
         | InUse \<Rightarrow> (Inl (in_use path), case fate of Answers _ \<Rightarrow> snd (operation s') | _ \<Rightarrow> s'))"

section \<open>Descriptors\<close>

definition descriptor_owned_by :: "win_env \<Rightarrow> descriptor \<Rightarrow> principal list \<Rightarrow> (string, bool) result" where
  "descriptor_owned_by env d owners =
     and_then (map_err (\<lambda>e. ''read a descriptor's owner: '' @ win32 e) (sd_owner d)) (\<lambda>owner.
       Inr (list_ex (\<lambda>p. principal_matches env p owner) owners))"

text \<open>The allow entries that act on the object itself.\<close>

fun allow_entries_of :: "string \<Rightarrow> (u32, ace) result list \<Rightarrow> (string, ace list) result" where
  "allow_entries_of path [] = Inr []"
| "allow_entries_of path (Inl e # entries) = Inl (''read an ACE of '' @ path @ '': '' @ win32 e)"
| "allow_entries_of path (Inr a # entries) =
     (if ace_flags a AND INHERIT_ONLY_ACE \<noteq> 0 then allow_entries_of path entries
      else if ace_type a = ACCESS_DENIED_ACE_TYPE then allow_entries_of path entries
      else if ace_type a = ACCESS_ALLOWED_ACE_TYPE then map_sum id ((#) a) (allow_entries_of path entries)
      else Inl (path @ '' holds an ACE of type '' @ dec (unat (ace_type a)) @ '', which is not checked''))"

definition allow_entries :: "descriptor \<Rightarrow> string \<Rightarrow> (string, ace list option) result" where
  "allow_entries d path =
     and_then (map_err (unreadable path) (sd_dacl d)) (\<lambda>dacl.
       case dacl of
         None \<Rightarrow> Inr None
       | Some entries \<Rightarrow> map_sum id Some (allow_entries_of path entries))"

fun check_aces :: "win_env \<Rightarrow> string \<Rightarrow> policy \<Rightarrow> (u32, ace) result list \<Rightarrow> (string, unit) result" where
  "check_aces env path po [] = Inr ()"
| "check_aces env path po (Inl e # entries) = Inl (''read an ACE of '' @ path @ '': '' @ win32 e)"
| "check_aces env path po (Inr a # entries) =
     (if ace_type a = ACCESS_DENIED_ACE_TYPE then check_aces env path po entries
      else if ace_type a = ACCESS_ALLOWED_ACE_TYPE
      then (if list_ex (\<lambda>p. principal_matches env p (Some (ace_sid a))) (po_allowed po)
            then check_aces env path po entries
            else Inl (path @ '' allows access to a principal other than '' @ principal_names (po_allowed po) '' and ''))
      else Inl (path @ '' holds an ACE of type '' @ dec (unat (ace_type a)) @ '', which is not checked''))"

definition check_descriptor :: "win_env \<Rightarrow> descriptor \<Rightarrow> string \<Rightarrow> policy \<Rightarrow> (string, unit) result" where
  "check_descriptor env d path po =
     and_then (map_err (unreadable path) (sd_owner d)) (\<lambda>owner.
     and_then (map_err (unreadable path) (sd_dacl d)) (\<lambda>dacl.
     and_then (guard (list_ex (\<lambda>p. principal_matches env p owner) (po_owners po))
                 (path @ '' is not owned by '' @ principal_names (po_owners po) '' or '')) (\<lambda>_.
       case dacl of
         None \<Rightarrow> Inl (path @ '' has no DACL'')
       | Some entries \<Rightarrow>
           and_then (if po_protected po
                     then and_then (map_err (unreadable path) (sd_control d)) (\<lambda>control.
                            guard (control AND SE_DACL_PROTECTED \<noteq> 0) (path @ squote @ ''s DACL is not protected''))
                     else Inr ())
             (\<lambda>_. check_aces env path po entries))))"

section \<open>Opening and checking\<close>

definition open_raw :: "win_env \<Rightarrow> string \<Rightarrow> (u32, wobject option) io" where
  "open_raw env path s =
     (case we_fate env (st_ops s) of
        Done \<Rightarrow> (Inr (object_at path s), tick s)
      | Win32 e _ \<Rightarrow> (if e = 2 \<or> e = 3 then Inr None else Inl e, tick s))"

definition open_existing :: "win_env \<Rightarrow> string \<Rightarrow> duration \<Rightarrow> (string, wobject option) io" where
  "open_existing env path wait = bounded env wait path (io_map_err (failure ''open'' path) (open_raw env path))"

definition open_waiting :: "win_env \<Rightarrow> string \<Rightarrow> duration \<Rightarrow> (string, wobject) io" where
  "open_waiting env path wait =
     bounded env wait path (io_bind (io_map_err (failure ''open'' path) (open_raw env path))
       (\<lambda>handle. io_lift (ok_or (path @ '' does not exist'') handle)))"

definition file_information :: "win_env \<Rightarrow> wobject \<Rightarrow> string \<Rightarrow> (string, file_info) io" where
  "file_information env handle path =
     win_query env (\<lambda>e. ''inspect '' @ path @ '': '' @ win32 e) (\<lambda>_. ob_info handle)"

definition shape_of :: "file_info \<Rightarrow> string \<Rightarrow> kind \<Rightarrow> (string, unit) result" where
  "shape_of info path kind =
     (let is_directory = (fi_attributes info AND FILE_ATTRIBUTE_DIRECTORY \<noteq> 0)
      in if fi_attributes info AND FILE_ATTRIBUTE_REPARSE_POINT \<noteq> 0 then Inl (path @ '' is a reparse point'')
         else if kind = Directory \<and> \<not> is_directory then Inl (path @ '' is not a directory'')
         else if kind = File \<and> is_directory then Inl (path @ '' is not a regular file'')
         else if kind = File \<and> fi_links info \<noteq> 1 then Inl (path @ '' is hard-linked'')
         else Inr ())"

definition check_shape :: "win_env \<Rightarrow> wobject \<Rightarrow> string \<Rightarrow> kind \<Rightarrow> (string, unit) io" where
  "check_shape env handle path kind =
     io_bind (file_information env handle path) (\<lambda>info. io_lift (shape_of info path kind))"

definition security_of :: "win_env \<Rightarrow> wobject \<Rightarrow> string \<Rightarrow> (string, descriptor) io" where
  "security_of env handle path = win_query env (unreadable path) (\<lambda>_. ob_security handle)"

definition check_security :: "win_env \<Rightarrow> wobject \<Rightarrow> string \<Rightarrow> policy \<Rightarrow> (string, unit) io" where
  "check_security env handle path po =
     io_bind (security_of env handle path) (\<lambda>d. io_lift (check_descriptor env d path po))"

definition check_if_exists_within :: "win_env \<Rightarrow> string \<Rightarrow> kind \<Rightarrow> policy \<Rightarrow> duration \<Rightarrow> (string, bool) io" where
  "check_if_exists_within env path kind po wait =
     io_bind (open_existing env path wait) (\<lambda>opened.
       case opened of
         None \<Rightarrow> io_lift (Inr False)
       | Some handle \<Rightarrow>
           io_bind (check_shape env handle path kind) (\<lambda>_.
           io_bind (check_security env handle path po) (\<lambda>_. io_lift (Inr True))))"

definition check_if_exists :: "win_env \<Rightarrow> string \<Rightarrow> kind \<Rightarrow> policy \<Rightarrow> (string, bool) io" where
  "check_if_exists env path kind po = check_if_exists_within env path kind po OPEN_WAIT"

definition custody_check :: "win_env \<Rightarrow> string \<Rightarrow> kind \<Rightarrow> policy \<Rightarrow> (string, unit) io" where
  "custody_check env path kind po =
     io_bind (check_if_exists env path kind po) (\<lambda>there. io_lift (guard there (path @ '' does not exist'')))"

definition has_security :: "win_env \<Rightarrow> string \<Rightarrow> policy \<Rightarrow> duration \<Rightarrow> store \<Rightarrow> bool \<times> store" where
  "has_security env path po wait s =
     (case open_existing env path wait s of
        (Inr (Some handle), s1) \<Rightarrow> (case check_security env handle path po s1 of (r, s2) \<Rightarrow> (is_ok r, s2))
      | (_, s1) \<Rightarrow> (False, s1))"

definition is_plain_directory :: "win_env \<Rightarrow> string \<Rightarrow> duration \<Rightarrow> store \<Rightarrow> bool \<times> store" where
  "is_plain_directory env path wait s =
     (case open_existing env path wait s of
        (Inr (Some handle), s1) \<Rightarrow> (case check_shape env handle path Directory s1 of (r, s2) \<Rightarrow> (is_ok r, s2))
      | (_, s1) \<Rightarrow> (False, s1))"

datatype unread = Unreadable string | UnreadRefused string

fun unread_reason :: "unread \<Rightarrow> string" where
  "unread_reason (Unreadable reason) = reason"
| "unread_reason (UnreadRefused reason) = reason"

definition read_to_end :: "win_env \<Rightarrow> wobject \<Rightarrow> string \<Rightarrow> (string, bytes) io" where
  "read_to_end env handle path =
     win_query env (\<lambda>e. ''read '' @ path @ '': '' @ we_io_text env e) (\<lambda>_. ob_bytes handle)"

definition read_checked_within :: "win_env \<Rightarrow> string \<Rightarrow> policy \<Rightarrow> duration \<Rightarrow> (unread, bytes option) io" where
  "read_checked_within env path po wait =
     io_bind (io_map_err Unreadable (open_existing env path wait)) (\<lambda>opened.
       case opened of
         None \<Rightarrow> io_lift (Inr None)
       | Some handle \<Rightarrow>
           io_bind (io_map_err Unreadable (file_information env handle path)) (\<lambda>info.
           io_bind (io_lift (map_err UnreadRefused (shape_of info path File))) (\<lambda>_.
           io_bind (io_map_err Unreadable (security_of env handle path)) (\<lambda>d.
           io_bind (io_lift (map_err UnreadRefused (check_descriptor env d path po))) (\<lambda>_.
           io_bind (io_map_err Unreadable (read_to_end env handle path)) (\<lambda>bs.
             io_lift (Inr (Some bs))))))))"

definition read_checked :: "win_env \<Rightarrow> string \<Rightarrow> policy \<Rightarrow> (string, bytes option) io" where
  "read_checked env path po = io_map_err unread_reason (read_checked_within env path po OPEN_WAIT)"

record file_id =
  id_volume :: u32
  id_index :: u64

text \<open>The 64-bit index is kept whole in the object's information, not in its two halves.\<close>

definition file_id_of :: "file_info \<Rightarrow> file_id" where
  "file_id_of info = \<lparr>id_volume = fi_volume info, id_index = fi_index info\<rparr>"

definition hex_padded :: "nat \<Rightarrow> nat \<Rightarrow> string" where
  "hex_padded width n = replicate (width - length (hex n)) CHR ''0'' @ hex n"

definition file_id_text :: "file_id \<Rightarrow> string" where
  "file_id_text i = hex_padded 8 (unat (id_volume i)) @ ''-'' @ hex_padded 16 (unat (id_index i))"

definition read_unshared :: "win_env \<Rightarrow> string \<Rightarrow> nat \<Rightarrow> duration \<Rightarrow> (string, bytes \<times> file_id) io" where
  "read_unshared env path limit wait =
     bounded env wait path
       (io_bind (io_map_err (failure ''open'' path) (open_raw env path)) (\<lambda>opened.
        io_bind (io_lift (ok_or (path @ '' does not exist'') opened)) (\<lambda>handle.
        io_bind (check_shape env handle path File) (\<lambda>_.
        io_bind (file_information env handle path) (\<lambda>info.
        io_bind (io_lift (guard (length (ob_bytes handle) \<le> limit)
                   (path @ '' is larger than '' @ dec limit @ '' bytes''))) (\<lambda>_.
        io_bind (read_to_end env handle path) (\<lambda>bs. io_lift (Inr (bs, file_id_of info)))))))))"

section \<open>Creating, replacing, renaming, deleting\<close>

definition from_sddl :: "win_env \<Rightarrow> string \<Rightarrow> (string, descriptor) result" where
  "from_sddl env sddl = map_err (\<lambda>e. ''build a security descriptor: '' @ win32 e) (we_sddl env sddl)"

definition new_directory :: "win_env \<Rightarrow> nat \<Rightarrow> string \<Rightarrow> descriptor \<Rightarrow> wobject" where
  "new_directory env k path d =
     \<lparr>ob_path = path, ob_info = (we_new_file env k)\<lparr>fi_attributes := FILE_ATTRIBUTE_DIRECTORY, fi_links := 1\<rparr>,
      ob_security = d, ob_bytes = []\<rparr>"

definition new_file :: "win_env \<Rightarrow> nat \<Rightarrow> string \<Rightarrow> descriptor \<Rightarrow> bytes \<Rightarrow> wobject" where
  "new_file env k path d bs =
     \<lparr>ob_path = path, ob_info = (we_new_file env k)\<lparr>fi_attributes := 0x80, fi_links := 1\<rparr>,
      ob_security = d, ob_bytes = bs\<rparr>"

text \<open>\<open>CreateDirectoryW\<close> with a descriptor: fails with \<open>ERROR_ALREADY_EXISTS\<close> when the name is taken.\<close>

definition create_directory_call :: "win_env \<Rightarrow> string \<Rightarrow> descriptor \<Rightarrow> (u32, unit) io" where
  "create_directory_call env path d s =
     (if object_at path s \<noteq> None then (Inl 183, tick s)
      else win_call env id (put_object (new_directory env (st_ops s) path d)) s)"

definition ensure_directory :: "win_env \<Rightarrow> string \<Rightarrow> string \<Rightarrow> policy \<Rightarrow> (string, unit) io" where
  "ensure_directory env path sddl po =
     io_bind (io_lift (from_sddl env sddl)) (\<lambda>d s.
       case create_directory_call env path d s of
         (Inr _, s1) \<Rightarrow> (Inr (), s1)
       | (Inl e, s1) \<Rightarrow>
           if e \<noteq> 183 then (Inl (''create '' @ path @ '': '' @ win32 e), s1)
           else custody_check env path Directory po s1)"

definition create_new_directory :: "win_env \<Rightarrow> string \<Rightarrow> string \<Rightarrow> (string, unit) io" where
  "create_new_directory env path sddl =
     io_bind (io_lift (from_sddl env sddl)) (\<lambda>d. io_map_err (failure ''create'' path) (create_directory_call env path d))"

text \<open>
  \<open>CreateFileW\<close> with \<open>CREATE_NEW\<close>, then the write and the flush. A write that
  fails leaves the first bytes, as many as the environment says, or the file
  as it was.
\<close>

definition create_file_call :: "win_env \<Rightarrow> string \<Rightarrow> descriptor \<Rightarrow> (u32, unit) io" where
  "create_file_call env path d s =
     (if object_at path s \<noteq> None then (Inl 80, tick s)
      else win_call env id (put_object (new_file env (st_ops s) path d [])) s)"

definition write_and_sync :: "win_env \<Rightarrow> string \<Rightarrow> bytes \<Rightarrow> (string, unit) io" where
  "write_and_sync env path bs s =
     (let written = (case we_fate env (st_ops s) of Done \<Rightarrow> bs | Win32 _ _ \<Rightarrow> take (we_written env (st_ops s)) bs)
      in win_call env (\<lambda>e. ''write '' @ path @ '': '' @ we_io_text env e)
           (set_object path (\<lambda>ob. ob\<lparr>ob_bytes := written\<rparr>)) s)"

definition create_new_file :: "win_env \<Rightarrow> string \<Rightarrow> string \<Rightarrow> bytes \<Rightarrow> (string, unit) io" where
  "create_new_file env path sddl bs =
     io_bind (io_lift (from_sddl env sddl)) (\<lambda>d.
     io_bind (io_map_err (\<lambda>e. ''create '' @ path @ '': '' @ win32 e) (create_file_call env path d)) (\<lambda>_.
       write_and_sync env path bs))"

definition delete_file_call :: "win_env \<Rightarrow> string \<Rightarrow> (u32, unit) io" where
  "delete_file_call env path s =
     (if object_at path s = None then (Inl 2, tick s) else win_call env id (remove_object path) s)"

text \<open>\<open>MoveFileExW\<close> over an existing file: the target's object goes, the source takes its name.\<close>

definition replace_call :: "win_env \<Rightarrow> string \<Rightarrow> string \<Rightarrow> (u32, unit) io" where
  "replace_call env source target =
     win_call env id (\<lambda>obs. set_object source (\<lambda>ob. ob\<lparr>ob_path := target\<rparr>) (remove_object target obs))"

text \<open>The file's own descriptor, checked; a leftover temporary file deleted; the new file written and moved.\<close>

definition replace_checked :: "win_env \<Rightarrow> string \<Rightarrow> policy \<Rightarrow> (string, descriptor) io" where
  "replace_checked env path po =
     io_bind (open_existing env path OPEN_WAIT) (\<lambda>opened.
     io_bind (io_lift (ok_or (path @ '' does not exist'') opened)) (\<lambda>handle.
     io_bind (check_shape env handle path File) (\<lambda>_.
     io_bind (security_of env handle path) (\<lambda>d.
     io_bind (io_lift (check_descriptor env d path po)) (\<lambda>_. io_lift (Inr d))))))"

definition delete_leftover :: "win_env \<Rightarrow> string \<Rightarrow> (string, unit) io" where
  "delete_leftover env temporary s =
     (case delete_file_call env temporary s of
        (Inl e, s1) \<Rightarrow> (if e \<noteq> 2 then Inl (failure ''delete'' temporary e) else Inr (), s1)
      | (Inr _, s1) \<Rightarrow> (Inr (), s1))"

definition write_and_move :: "win_env \<Rightarrow> string \<Rightarrow> string \<Rightarrow> bytes \<Rightarrow> (string, unit) io" where
  "write_and_move env path temporary bs s =
     (case io_bind (write_and_sync env temporary bs)
             (\<lambda>_. io_map_err (failure ''replace'' path) (replace_call env temporary path)) s of
        (Inr _, s1) \<Rightarrow> (Inr (), s1)
      | (Inl e, s1) \<Rightarrow> (Inl e, snd (delete_file_call env temporary s1)))"

definition replace_keeping_security :: "win_env \<Rightarrow> string \<Rightarrow> string \<Rightarrow> bytes \<Rightarrow> policy \<Rightarrow> (string, unit) io" where
  "replace_keeping_security env path temporary bs po =
     io_bind (replace_checked env path po) (\<lambda>d.
     io_bind (delete_leftover env temporary) (\<lambda>_.
     io_bind (io_map_err (failure ''create'' temporary) (create_file_call env temporary d)) (\<lambda>_.
       write_and_move env path temporary bs)))"

definition set_security :: "win_env \<Rightarrow> wobject \<Rightarrow> string \<Rightarrow> string \<Rightarrow> duration \<Rightarrow> (string, wobject) io" where
  "set_security env handle path sddl wait =
     bounded env wait path
       (io_bind (io_lift (from_sddl env sddl)) (\<lambda>d.
        io_bind (io_lift (map_err (\<lambda>e. ''read a descriptor's owner: '' @ win32 e) (sd_owner d))) (\<lambda>owner.
          let secured = (\<lambda>ob. ob\<lparr>ob_security :=
                (if owner = None then d\<lparr>sd_owner := sd_owner (ob_security ob)\<rparr> else d)
                  \<lparr>sd_control := map_sum id (\<lambda>c. c OR SE_DACL_PROTECTED) (sd_control d)\<rparr>\<rparr>)
          in io_bind (win_call env (failure ''change the security of'' path) (set_object (ob_path handle) secured))
               (\<lambda>_. io_lift (Inr (secured handle))))))"

text \<open>\<open>MoveFileExW\<close> never over an existing name.\<close>

definition rename_text :: "string \<Rightarrow> string \<Rightarrow> u32 \<Rightarrow> string" where
  "rename_text a b e =
     (if e = 5 then a @ '' or something under it is in use by another process, or Windows denies the rename''
      else if 6800 \<le> e \<and> e \<le> 6899
      then a @ '' or '' @ b @ '' is held by another process's file transaction ('' @ win32 e @ '')''
      else failure ''rename'' a e)"

definition rename_call :: "win_env \<Rightarrow> string \<Rightarrow> string \<Rightarrow> (u32, unit) io" where
  "rename_call env a b s =
     (if object_at a s = None then (Inl 2, tick s)
      else if object_at b s \<noteq> None then (Inl 183, tick s)
      else win_call env id (move_tree a b) s)"

definition custody_rename :: "win_env \<Rightarrow> string \<Rightarrow> string \<Rightarrow> duration \<Rightarrow> (string, unit) io" where
  "custody_rename env a b wait = bounded env wait a (io_map_err (rename_text a b) (rename_call env a b))"

text \<open>The extended form of the deletion first, the plain one where the file system lacks it.\<close>

definition delete_through :: "win_env \<Rightarrow> wobject \<Rightarrow> string \<Rightarrow> duration \<Rightarrow> (string, unit) io" where
  "delete_through env handle path wait =
     bounded env wait path (\<lambda>s.
       case win_call env id (remove_object (ob_path handle)) s of
         (Inr _, s1) \<Rightarrow> (Inr (), s1)
       | (Inl e, s1) \<Rightarrow>
           if e \<noteq> 87 \<and> e \<noteq> 1 \<and> e \<noteq> 50 then (Inl (failure ''delete'' path e), s1)
           else win_call env (failure ''delete'' path) (remove_object (ob_path handle)) s1)"

definition custody_entries :: "win_env \<Rightarrow> string \<Rightarrow> duration \<Rightarrow> (string, string list) io" where
  "custody_entries env path wait =
     bounded env wait path
       (win_query env (\<lambda>e. ''list '' @ path @ '': '' @ we_io_text env e) (\<lambda>s. names_in path (st_objects s)))"

definition is_case_sensitive :: "win_env \<Rightarrow> wobject \<Rightarrow> string \<Rightarrow> (string, bool) io" where
  "is_case_sensitive env handle path s =
     (case we_fate env (st_ops s) of
        Done \<Rightarrow> (Inr (fi_case_sensitive (ob_info handle)), tick s)
      | Win32 e _ \<Rightarrow>
          (if e = 87 \<or> e = 1 \<or> e = 50 then Inr False
           else Inl (''read the case sensitivity of '' @ path @ '': '' @ win32 e), tick s))"

section \<open>Operations that change nothing\<close>

definition reads :: "('e, 'a) io \<Rightarrow> bool" where
  "reads m \<longleftrightarrow> (\<forall>s. st_objects (snd (m s)) = st_objects s)"

lemma reads_objects: "reads m \<Longrightarrow> m s = (r, s') \<Longrightarrow> st_objects s' = st_objects s"
  unfolding reads_def by (metis snd_conv)

lemma tick_objects [simp]: "st_objects (tick s) = st_objects s"
  by (simp add: tick_def)

lemma object_at_tick [simp]: "object_at path (tick s) = object_at path s"
  by (simp add: object_at_def)

lemma io_bind_Inr [store]: "io_bind m f s = (Inr y, s') \<longleftrightarrow> (\<exists>x s1. m s = (Inr x, s1) \<and> f x s1 = (Inr y, s'))"
  by (auto simp: io_bind_def split: prod.splits sum.splits)

lemma io_map_err_Inr [store]: "io_map_err g m s = (Inr x, s') \<longleftrightarrow> m s = (Inr x, s')"
  by (auto simp: io_map_err_def map_err_Inr split: prod.splits)

lemma io_lift_Inr [store]: "io_lift r s = (Inr x, s') \<longleftrightarrow> r = Inr x \<and> s' = s"
  by (auto simp: io_lift_def)

lemma reads_lift [intro, simp]: "reads (io_lift r)"
  by (simp add: reads_def io_lift_def)

lemma reads_query [intro, simp]: "reads (win_query env text f)"
  by (simp add: reads_def win_query_def split: fate.splits)

lemma reads_open_raw [intro, simp]: "reads (open_raw env path)"
  by (simp add: reads_def open_raw_def split: fate.splits)

lemma reads_case_sensitive [intro, simp]: "reads (is_case_sensitive env handle path)"
  by (simp add: reads_def is_case_sensitive_def split: fate.splits)

lemma reads_map_err [intro]: "reads m \<Longrightarrow> reads (io_map_err g m)"
  by (auto simp: reads_def io_map_err_def split: prod.splits) (metis snd_conv)

lemma reads_bind [intro]: "reads m \<Longrightarrow> (\<And>x. reads (f x)) \<Longrightarrow> reads (io_bind m f)"
  unfolding reads_def io_bind_def by (auto split: prod.splits sum.splits) (metis snd_conv)+

lemma reads_bounded [intro]: "reads m \<Longrightarrow> reads (bounded env wait path m)"
  by (auto simp: reads_def bounded_def Let_def split: verdict.splits thread_fate.splits)

lemma reads_option [intro]: "reads m \<Longrightarrow> (\<And>x. reads (f x)) \<Longrightarrow> reads (case v of None \<Rightarrow> m | Some x \<Rightarrow> f x)"
  by (cases v) auto

lemma reads_each [intro]: "(\<And>x. reads (f x)) \<Longrightarrow> reads (io_each f xs)"
  by (induction xs) auto

lemma reads_open [intro, simp]: "reads (open_existing env path wait)" "reads (open_waiting env path wait)"
  by (auto simp: open_existing_def open_waiting_def)

lemma reads_checks [intro, simp]:
  "reads (file_information env handle path)" "reads (check_shape env handle path kind)"
  "reads (security_of env handle path)" "reads (check_security env handle path po)"
  "reads (read_to_end env handle path)"
  by (auto simp: file_information_def check_shape_def security_of_def check_security_def read_to_end_def)

lemma reads_custody [intro, simp]:
  "reads (check_if_exists_within env path kind po wait)" "reads (check_if_exists env path kind po)"
  "reads (custody_check env path kind po)" "reads (read_checked_within env path po wait)" "reads (read_checked env path po)"
  "reads (read_unshared env path limit wait)" "reads (custody_entries env path wait)"
  by (auto simp: check_if_exists_within_def check_if_exists_def custody_check_def read_checked_within_def read_checked_def
      read_unshared_def custody_entries_def intro!: reads_bind reads_option)

section \<open>What a passed check means\<close>

text \<open>
  Windows' access check on a DACL, as documented: the entries in order, an
  allow entry for a SID of the token removes its rights from those still
  wanted, a deny entry for one of them refuses, inherit-only entries do not
  count, and rights left over at the end are refused.
\<close>

fun access_check :: "ace list \<Rightarrow> (bytes \<Rightarrow> bool) \<Rightarrow> u32 \<Rightarrow> bool" where
  "access_check [] token wanted \<longleftrightarrow> wanted = 0"
| "access_check (a # entries) token wanted \<longleftrightarrow>
     wanted = 0 \<or>
     (if ace_flags a AND INHERIT_ONLY_ACE \<noteq> 0 \<or> \<not> token (ace_sid a) then access_check entries token wanted
      else if ace_type a = ACCESS_ALLOWED_ACE_TYPE then access_check entries token (wanted AND NOT (ace_mask a))
      else if ace_type a = ACCESS_DENIED_ACE_TYPE \<and> wanted AND ace_mask a \<noteq> 0 then False
      else access_check entries token wanted)"

lemma check_aces_refuses_others:
  assumes "check_aces env path po entries = Inr ()" "wanted \<noteq> 0"
    "\<And>sid. token sid \<Longrightarrow> \<not> list_ex (\<lambda>p. principal_is env p sid) (po_allowed po)"
  shows "\<exists>as. entries = map Inr as \<and> \<not> access_check as token wanted"
  using assms
proof (induction env path po entries rule: check_aces.induct)
  case (3 env path po a entries)
  then obtain as where as: "entries = map Inr as" "\<not> access_check as token wanted"
    by (auto split: if_splits)
  moreover have "token (ace_sid a) \<Longrightarrow> ace_type a \<noteq> ACCESS_ALLOWED_ACE_TYPE"
    using 3 by (auto simp: principal_is_def ACCESS_DENIED_ACE_TYPE_def ACCESS_ALLOWED_ACE_TYPE_def split: if_splits)
  ultimately show ?case
    using 3 by (intro exI [of _ "a # as"]) auto
qed (auto simp: result)

definition conforms :: "win_env \<Rightarrow> wobject \<Rightarrow> kind \<Rightarrow> policy \<Rightarrow> bool" where
  "conforms env ob kind po \<longleftrightarrow> shape_of (ob_info ob) [] kind = Inr () \<and> check_descriptor env (ob_security ob) [] po = Inr ()"

lemma shape_of_path: "shape_of info path kind = Inr () \<longleftrightarrow> shape_of info path' kind = Inr ()"
  by (simp add: shape_of_def Let_def)

lemma check_aces_path: "check_aces env path po entries = Inr () \<longleftrightarrow> check_aces env path' po entries = Inr ()"
  by (induction env path po entries rule: check_aces.induct) auto

lemma check_descriptor_path: "check_descriptor env d path po = Inr () \<longleftrightarrow> check_descriptor env d path' po = Inr ()"
  using check_aces_path [of env path po _ path']
  by (auto simp: check_descriptor_def result split: option.splits if_splits)

lemma conforms_iff: "conforms env ob kind po \<longleftrightarrow> shape_of (ob_info ob) path kind = Inr () \<and> check_descriptor env (ob_security ob) path po = Inr ()"
  unfolding conforms_def using shape_of_path check_descriptor_path by blast

lemma bounded_Inr: "bounded env wait path m s = (Inr x, s') \<Longrightarrow> m (tick s) = (Inr x, s')"
  by (auto simp: bounded_def Let_def split: verdict.splits)

lemma win_query_Inr: "win_query env text f s = (Inr x, s') \<longleftrightarrow> we_fate env (st_ops s) = Done \<and> x = f s \<and> s' = tick s"
  by (auto simp: win_query_def split: fate.splits)

lemma open_existing_Some:
  assumes "open_existing env path wait s = (Inr (Some ob), s')"
  shows "object_at path s = Some ob" "st_objects s' = st_objects s"
proof -
  have "open_raw env path (tick s) = (Inr (Some ob), s')"
    using bounded_Inr [OF assms [unfolded open_existing_def]] by (simp add: store)
  then show "object_at path s = Some ob"
    by (auto simp: open_raw_def split: fate.splits if_splits)
  show "st_objects s' = st_objects s"
    using assms by (rule reads_objects [OF reads_open(1)])
qed

lemma check_if_exists_conforms:
  assumes "check_if_exists_within env path kind po wait s = (Inr True, s')"
  shows "\<exists>ob. object_at path s = Some ob \<and> conforms env ob kind po"
proof -
  obtain ob s1 where "open_existing env path wait s = (Inr (Some ob), s1)"
    and checks: "\<exists>s2 s3. check_shape env ob path kind s1 = (Inr (), s2) \<and> check_security env ob path po s2 = (Inr (), s3)"
    using assms by (auto simp: check_if_exists_within_def store split: option.splits)
  moreover have "conforms env ob kind po"
    using checks by (auto simp: conforms_iff [of _ _ _ _ path] check_shape_def check_security_def file_information_def
        security_of_def store win_query_Inr)
  ultimately show ?thesis
    using open_existing_Some by blast
qed

lemma read_checked_conforms:
  assumes "read_checked_within env path po wait s = (Inr (Some bs), s')"
  shows "\<exists>ob. object_at path s = Some ob \<and> conforms env ob File po \<and> ob_bytes ob = bs"
proof -
  obtain ob s1 where "open_existing env path wait s = (Inr (Some ob), s1)"
    and checks: "shape_of (ob_info ob) path File = Inr ()" "check_descriptor env (ob_security ob) path po = Inr ()" "bs = ob_bytes ob"
    using assms
    by (auto simp: read_checked_within_def file_information_def security_of_def read_to_end_def store win_query_Inr result
        split: option.splits)
  then show ?thesis
    using open_existing_Some conforms_iff by blast
qed

lemma conforms_private:
  assumes "conforms env ob kind po"
  shows "\<exists>owner as. sd_owner (ob_security ob) = Inr owner \<and> sd_dacl (ob_security ob) = Inr (Some (map Inr as))
    \<and> list_ex (\<lambda>p. principal_matches env p owner) (po_owners po)
    \<and> (\<forall>token wanted. wanted \<noteq> 0 \<and> (\<forall>sid. token sid \<longrightarrow> \<not> list_ex (\<lambda>p. principal_is env p sid) (po_allowed po))
         \<longrightarrow> \<not> access_check as token wanted)"
proof -
  obtain owner entries where d: "sd_owner (ob_security ob) = Inr owner" "sd_dacl (ob_security ob) = Inr (Some entries)"
    "list_ex (\<lambda>p. principal_matches env p owner) (po_owners po)" "check_aces env [] po entries = Inr ()"
    using assms by (auto simp: conforms_def check_descriptor_def result split: option.splits if_splits)
  obtain as where as: "entries = map Inr as"
    using check_aces_refuses_others [OF d(4), of 1 "\<lambda>_. False"] by auto
  have "\<not> access_check as token wanted"
    if "wanted \<noteq> 0" "\<forall>sid. token sid \<longrightarrow> \<not> list_ex (\<lambda>p. principal_is env p sid) (po_allowed po)" for token wanted
    using check_aces_refuses_others [OF d(4) that(1), of token] that(2) as by (auto simp: inj_map_eq_map)
  with d as show ?thesis
    by blast
qed

text \<open>
  Claim C29. Bytes that a checked read returns are those of a regular file at
  that path with one link and no reparse point, whose owner is one of the
  policy's and whose DACL gives no right at all to a token none of whose SIDs
  is a principal the policy allows.
\<close>

theorem read_checked_private:
  assumes "read_checked_within env path po wait s = (Inr (Some bs), s')"
  shows "\<exists>ob owner as. object_at path s = Some ob \<and> ob_bytes ob = bs
    \<and> fi_attributes (ob_info ob) AND FILE_ATTRIBUTE_REPARSE_POINT = 0 \<and> fi_attributes (ob_info ob) AND FILE_ATTRIBUTE_DIRECTORY = 0
    \<and> fi_links (ob_info ob) = 1
    \<and> sd_owner (ob_security ob) = Inr owner \<and> list_ex (\<lambda>p. principal_matches env p owner) (po_owners po)
    \<and> sd_dacl (ob_security ob) = Inr (Some (map Inr as))
    \<and> (\<forall>token wanted. wanted \<noteq> 0 \<and> (\<forall>sid. token sid \<longrightarrow> \<not> list_ex (\<lambda>p. principal_is env p sid) (po_allowed po))
         \<longrightarrow> \<not> access_check as token wanted)"
proof -
  obtain ob where ob: "object_at path s = Some ob" "conforms env ob File po" "ob_bytes ob = bs"
    using read_checked_conforms [OF assms] by blast
  moreover have "fi_attributes (ob_info ob) AND FILE_ATTRIBUTE_REPARSE_POINT = 0"
    "fi_attributes (ob_info ob) AND FILE_ATTRIBUTE_DIRECTORY = 0" "fi_links (ob_info ob) = 1"
    using ob(2) by (auto simp: conforms_def shape_of_def Let_def split: if_splits)
  ultimately show ?thesis
    using conforms_private [OF ob(2)] by blast
qed

text \<open>An environment where every call succeeds, whose one known SID is SYSTEM's.\<close>

definition sample_sid :: bytes where
  "sample_sid = [1, 1, 0, 0, 0, 0, 0, 5, 18, 0, 0, 0]"

definition sample_descriptor :: descriptor where
  "sample_descriptor = \<lparr>sd_owner = Inr (Some sample_sid),
     sd_dacl = Inr (Some [Inr \<lparr>ace_type = 0, ace_flags = 0, ace_mask = 0x1f01ff, ace_sid = sample_sid\<rparr>]),
     sd_control = Inr 0x1000\<rparr>"

definition sample_info :: file_info where
  "sample_info = \<lparr>fi_attributes = 0x80, fi_links = 1, fi_volume = 7, fi_index = 9, fi_case_sensitive = False\<rparr>"

definition sample_env :: win_env where
  "sample_env = \<lparr>we_fate = (\<lambda>_. Done), we_thread = (\<lambda>_. Answers 0), we_sddl = (\<lambda>_. Inr sample_descriptor),
     we_valid_sid = (\<lambda>_. True), we_system_sid = (\<lambda>sid. sid = sample_sid), we_administrators_sid = (\<lambda>_. False),
     we_equal_sid = (=), we_new_file = (\<lambda>_. sample_info), we_inherited = sample_descriptor, we_written = id, we_io_text = (\<lambda>_. [])\<rparr>"

definition sample_store :: store where
  "sample_store = \<lparr>st_objects = [\<lparr>ob_path = ''key.dat'', ob_info = sample_info, ob_security = sample_descriptor, ob_bytes = [1, 2]\<rparr>],
     st_ops = 0\<rparr>"

lemmas sample_defs = sample_env_def sample_store_def sample_info_def sample_descriptor_def sample_sid_def

lemmas custody_ops = bounded_def bounded_wait_def open_existing_def open_raw_def io_map_err_def io_bind_def io_lift_def
  win_query_def win_call_def object_at_def find_object_def tick_def eq_ignore_ascii_case_def

lemma sample_read:
  "\<exists>s'. read_checked_within sample_env ''key.dat'' policy_system_only OPEN_WAIT sample_store = (Inr (Some [1, 2]), s')"
  by (simp add: read_checked_within_def custody_ops sample_defs file_information_def shape_of_def security_of_def read_to_end_def
      check_descriptor_def policy_system_only_def FILE_ATTRIBUTE_DIRECTORY_def FILE_ATTRIBUTE_REPARSE_POINT_def
      SE_DACL_PROTECTED_def ACCESS_DENIED_ACE_TYPE_def ACCESS_ALLOWED_ACE_TYPE_def)

theorem read_checked_private_witness:
  "\<exists>ob. object_at ''key.dat'' sample_store = Some ob \<and> ob_bytes ob = [1, 2] \<and> fi_links (ob_info ob) = 1"
proof -
  obtain s' where "read_checked_within sample_env ''key.dat'' policy_system_only OPEN_WAIT sample_store = (Inr (Some [1, 2]), s')"
    using sample_read by blast
  from read_checked_private [OF this] show ?thesis
    by blast
qed

section \<open>The wait is bounded\<close>

lemma cancel_wait_bound: "waited \<le> snd (cancel_wait tries fate waited) \<and> snd (cancel_wait tries fate waited) \<le> waited + tries * CANCEL_INTERVAL"
proof (induction tries arbitrary: waited)
  case (Suc tries)
  from Suc [of "waited + CANCEL_INTERVAL"] show ?case
    by (auto split: thread_fate.splits)
qed simp

lemma cancel_wait_answers: "waited < t \<Longrightarrow> fst (cancel_wait tries (Answers t) waited) = Returned \<longleftrightarrow> t \<le> waited + tries * CANCEL_INTERVAL"
proof (induction tries arbitrary: waited)
  case (Suc tries)
  from Suc.IH [of "waited + CANCEL_INTERVAL"] Suc.prems show ?case
    by auto
qed simp

lemma cancel_wait_other: "\<nexists>t. fate = Answers t \<Longrightarrow> fst (cancel_wait tries fate waited) = InUse"
  by (induction tries arbitrary: waited) (auto split: thread_fate.splits)

text \<open>
  An operation on another thread never holds up its caller for
  longer than its wait and the fifty cancellations, five seconds, whatever the
  other process does, and its result is returned exactly when it came within
  that time.
\<close>

lemma bounded_wait_ends:
  "snd (bounded_wait wait fate) \<le> wait + secs 5
   \<and> (fst (bounded_wait wait fate) = Returned \<longleftrightarrow> (\<exists>t. fate = Answers t \<and> t \<le> wait + secs 5))"
proof -
  have five: "CANCEL_TRIES * CANCEL_INTERVAL = secs 5"
    by (simp add: CANCEL_TRIES_def CANCEL_INTERVAL_def millis_def secs_def)
  have "snd (bounded_wait wait fate) \<le> wait + secs 5"
    using cancel_wait_bound [of wait CANCEL_TRIES fate] by (auto simp: bounded_wait_def five split: thread_fate.splits)
  moreover have "fst (bounded_wait wait fate) = Returned \<longleftrightarrow> (\<exists>t. fate = Answers t \<and> t \<le> wait + secs 5)"
    using cancel_wait_answers [of wait _ CANCEL_TRIES] cancel_wait_other [of fate CANCEL_TRIES wait]
    by (cases fate) (auto simp: bounded_wait_def five)
  ultimately show ?thesis ..
qed

section \<open>The replacement of a file\<close>

abbreviation same_path :: "string \<Rightarrow> string \<Rightarrow> bool" where
  "same_path \<equiv> eq_ignore_ascii_case"

lemma same_path_sym: "same_path p q \<Longrightarrow> same_path q p"
  by (simp add: eq_ignore_ascii_case_def)

lemma same_path_trans: "same_path p q \<Longrightarrow> same_path q r \<Longrightarrow> same_path p r"
  by (simp add: eq_ignore_ascii_case_def)

lemma find_object_same: "same_path p q \<Longrightarrow> find_object p obs = find_object q obs"
  by (simp add: find_object_def eq_ignore_ascii_case_def)

lemma find_object_path: "find_object p obs = Some ob \<Longrightarrow> same_path (ob_path ob) p \<and> ob \<in> set obs"
  by (auto simp: find_object_def find_Some_iff)

lemma find_object_None: "find_object p obs = None \<longleftrightarrow> (\<forall>ob \<in> set obs. \<not> same_path (ob_path ob) p)"
  by (auto simp: find_object_def find_None_iff)

lemma find_put [store]: "find_object p (put_object ob obs) = (if same_path (ob_path ob) p then Some ob else find_object p obs)"
proof -
  have "find_object p (filter (\<lambda>x. \<not> same_path (ob_path x) (ob_path ob)) obs) = find_object p obs" if "\<not> same_path (ob_path ob) p"
    using that by (induction obs) (auto simp: find_object_def eq_ignore_ascii_case_def)
  then show ?thesis
    by (auto simp: put_object_def find_object_def)
qed

lemma find_remove [store]: "find_object p (remove_object q obs) = (if same_path p q then None else find_object p obs)"
  by (induction obs) (auto simp: find_object_def remove_object_def eq_ignore_ascii_case_def)

lemma find_set [store]:
  "(\<And>x. ob_path (f x) = ob_path x) \<Longrightarrow>
   find_object p (set_object q f obs) = (if same_path p q then map_option f (find_object p obs) else find_object p obs)"
  by (induction obs) (auto simp: find_object_def set_object_def eq_ignore_ascii_case_def)

lemma find_renamed [store]:
  assumes "\<not> same_path a b"
  shows "find_object p (set_object a (\<lambda>ob. ob\<lparr>ob_path := b\<rparr>) (remove_object b obs)) =
    (if same_path p b then map_option (\<lambda>ob. ob\<lparr>ob_path := b\<rparr>) (find_object a obs)
     else if same_path p a then None else find_object p obs)"
  using assms by (induction obs) (auto simp: find_object_def set_object_def remove_object_def eq_ignore_ascii_case_def)

lemma win_call_cases:
  assumes "win_call env text effect s = (r, s')"
  shows "st_objects s' = effect (st_objects s) \<or> (st_objects s' = st_objects s \<and> \<not> is_ok r)"
  using assms by (auto simp: win_call_def Let_def split: fate.splits if_splits)

lemma win_call_Inr: "win_call env text effect s = (Inr u, s') \<Longrightarrow> st_objects s' = effect (st_objects s)"
  using win_call_cases by fastforce

text \<open>Between the old file and the new one under the old one's security, beside an arbitrary temporary file.\<close>

definition replaced :: "string \<Rightarrow> string \<Rightarrow> bytes \<Rightarrow> wobject list \<Rightarrow> wobject list \<Rightarrow> bool" where
  "replaced path temporary bs obs obs' \<longleftrightarrow>
     (\<forall>p. \<not> same_path p path \<and> \<not> same_path p temporary \<longrightarrow> find_object p obs' = find_object p obs) \<and>
     (\<exists>ob'. find_object path obs' = Some ob' \<and>
        (find_object path obs = Some ob'
         \<or> ob_bytes ob' = bs \<and> map_option ob_security (find_object path obs) = Some (ob_security ob') \<and> fi_links (ob_info ob') = 1
           \<and> fi_attributes (ob_info ob') = 0x80))"

definition untouched :: "string \<Rightarrow> wobject list \<Rightarrow> wobject list \<Rightarrow> bool" where
  "untouched temporary obs obs' \<longleftrightarrow> (\<forall>p. \<not> same_path p temporary \<longrightarrow> find_object p obs' = find_object p obs)"

lemma untouched_refl [simp]: "untouched t obs obs"
  by (simp add: untouched_def)

lemma untouched_trans: "untouched t obs obs1 \<Longrightarrow> untouched t obs1 obs2 \<Longrightarrow> untouched t obs obs2"
  by (simp add: untouched_def)

lemma delete_untouched: "delete_file_call env temporary s = (r, s') \<Longrightarrow> untouched temporary (st_objects s) (st_objects s')"
  using win_call_cases [of env id "remove_object temporary" s r s']
  by (auto simp: delete_file_call_def untouched_def store split: if_splits)

lemma create_untouched:
  assumes "create_file_call env temporary d s = (r, s')"
  shows "untouched temporary (st_objects s) (st_objects s')
    \<and> (is_ok r \<longrightarrow> (\<exists>ob. find_object temporary (st_objects s') = Some ob \<and> ob_security ob = d \<and> fi_links (ob_info ob) = 1
        \<and> fi_attributes (ob_info ob) = 0x80))"
  using assms win_call_cases [of env id "put_object (new_file env (st_ops s) temporary d [])" s r s']
  by (auto simp: create_file_call_def untouched_def store new_file_def eq_ignore_ascii_case_def split: if_splits)

lemma write_untouched:
  assumes "write_and_sync env temporary bs s = (r, s')" "find_object temporary (st_objects s) = Some ob"
  shows "untouched temporary (st_objects s) (st_objects s')
    \<and> (is_ok r \<longrightarrow> find_object temporary (st_objects s') = Some (ob\<lparr>ob_bytes := bs\<rparr>))"
  using win_call_cases [OF assms(1) [unfolded write_and_sync_def Let_def]] assms
  by (auto simp: untouched_def store write_and_sync_def win_call_def Let_def split: fate.splits if_splits)

lemma moved_replaced:
  assumes "untouched temporary (set_object temporary (\<lambda>ob. ob\<lparr>ob_path := path\<rparr>) (remove_object path obs1)) obs'"
    and "find_object temporary obs1 = Some new" "untouched temporary obs obs1" "find_object path obs = Some ob"
    and "ob_security new = ob_security ob" "fi_links (ob_info new) = 1 \<and> fi_attributes (ob_info new) = 0x80"
    and "ob_bytes new = bs" "\<not> same_path temporary path"
  shows "replaced path temporary bs obs obs' \<and> map_option ob_bytes (find_object path obs') = Some bs"
proof -
  have "\<not> same_path path temporary"
    using assms(8) same_path_sym by blast
  then have "find_object path obs' = Some (new\<lparr>ob_path := path\<rparr>)"
    using assms(1,2,8) by (simp add: untouched_def find_renamed)
  moreover have "find_object p obs' = find_object p obs" if "\<not> same_path p path" "\<not> same_path p temporary" for p
    using that assms(1,3,8) by (simp add: untouched_def find_renamed)
  ultimately show ?thesis
    using assms(4-7) by (auto simp: replaced_def)
qed

lemma replace_tail:
  assumes tail: "write_and_move env path temporary bs s = (r, s')"
    and there: "find_object path (st_objects s) = Some ob" "find_object temporary (st_objects s) = Some new"
      "ob_security new = ob_security ob" "fi_links (ob_info new) = 1" "fi_attributes (ob_info new) = 0x80" "\<not> same_path temporary path"
  shows "replaced path temporary bs (st_objects s) (st_objects s')
    \<and> (is_ok r \<longrightarrow> map_option ob_bytes (find_object path (st_objects s')) = Some bs)"
proof -
  obtain r1 s1 where w: "write_and_sync env temporary bs s = (r1, s1)"
    by fastforce
  have kept: "replaced path temporary bs (st_objects s) obs'" if "untouched temporary (st_objects s) obs'" for obs'
    using that there(1,6) by (auto simp: replaced_def untouched_def eq_ignore_ascii_case_def)
  note w' = write_untouched [OF w there(2)]
  show ?thesis
  proof (cases r1)
    case (Inl e)
    obtain r2 s2 where d: "delete_file_call env temporary s1 = (r2, s2)"
      by fastforce
    with tail w Inl have "r = Inl e" "s' = s2"
      by (simp_all add: write_and_move_def io_bind_def)
    with w' delete_untouched [OF d] show ?thesis
      by (auto intro: kept untouched_trans)
  next
    case (Inr u)
    obtain r2 s2 where m: "replace_call env temporary path s1 = (r2, s2)"
      by fastforce
    have tmp: "find_object temporary (st_objects s1) = Some (new\<lparr>ob_bytes := bs\<rparr>)" "untouched temporary (st_objects s) (st_objects s1)"
      using w' Inr by simp_all
    let ?moved = "set_object temporary (\<lambda>ob. ob\<lparr>ob_path := path\<rparr>) (remove_object path (st_objects s1))"
    have moved: "replaced path temporary bs (st_objects s) obs' \<and> map_option ob_bytes (find_object path obs') = Some bs"
      if "untouched temporary ?moved obs'" for obs'
      by (rule moved_replaced [OF that tmp there(1) _ _ _ there(6)]) (simp_all add: there)
    have calls: "st_objects s2 = set_object temporary (\<lambda>ob. ob\<lparr>ob_path := path\<rparr>) (remove_object path (st_objects s1))
      \<or> st_objects s2 = st_objects s1 \<and> \<not> is_ok r2"
      using win_call_cases [OF m [unfolded replace_call_def]] by blast
    show ?thesis
    proof (cases r2)
      case (Inl e)
      obtain r3 s3 where d: "delete_file_call env temporary s2 = (r3, s3)"
        by fastforce
      with tail w Inr m Inl have "r = Inl (failure ''replace'' path e)" "s' = s3"
        by (simp_all add: write_and_move_def io_bind_def io_map_err_def)
      moreover have "replaced path temporary bs (st_objects s) (st_objects s3)"
        using calls
      proof
        assume "st_objects s2 = ?moved"
        with delete_untouched [OF d] moved show ?thesis by simp
      next
        assume "st_objects s2 = st_objects s1 \<and> \<not> is_ok r2"
        with delete_untouched [OF d] tmp(2) show ?thesis by (auto intro: kept untouched_trans)
      qed
      ultimately show ?thesis by simp
    next
      case (Inr v)
      with tail w \<open>r1 = Inr u\<close> m have "s' = s2"
        by (simp add: write_and_move_def io_bind_def io_map_err_def)
      with calls Inr moved [of "st_objects s2"] show ?thesis
        by simp
    qed
  qed
qed

lemma replace_checked_reads [intro, simp]: "reads (replace_checked env path po)"
  by (auto simp: replace_checked_def intro!: reads_bind)

lemma replace_checked_Inr:
  assumes "replace_checked env path po s = (Inr d, s')" "object_at path s = Some ob"
  shows "d = ob_security ob"
proof -
  obtain handle s1 where "open_existing env path OPEN_WAIT s = (Inr (Some handle), s1)" "d = ob_security handle"
    using assms(1) by (auto simp: replace_checked_def store result security_of_def win_query_Inr)
  with open_existing_Some [of env path OPEN_WAIT s handle s1] assms(2) show ?thesis
    by simp
qed

lemma io_bind_cases:
  assumes "io_bind m f s = (r, s')"
  obtains (failed) e where "r = Inl e" "m s = (Inl e, s')"
    | (on) x s1 where "m s = (Inr x, s1)" "f x s1 = (r, s')"
  using assms by (auto simp: io_bind_def split: prod.splits sum.splits)

lemma delete_leftover_untouched: "delete_leftover env temporary s = (r, s') \<Longrightarrow> untouched temporary (st_objects s) (st_objects s')"
  using delete_untouched [of env temporary s] by (auto simp: delete_leftover_def split: prod.splits sum.splits)

lemma io_map_err_snd: "io_map_err g m s = (r, s') \<Longrightarrow> \<exists>r'. m s = (r', s') \<and> is_ok r' = is_ok r"
  by (cases "fst (m s)") (auto simp: io_map_err_def split: prod.splits)

lemma replace_spec:
  assumes "replace_keeping_security env path temporary bs po s = (r, s')" "object_at path s = Some ob" "\<not> same_path temporary path"
  shows "replaced path temporary bs (st_objects s) (st_objects s')
    \<and> (is_ok r \<longrightarrow> map_option ob_bytes (object_at path s') = Some bs)"
proof -
  have there: "find_object path (st_objects s) = Some ob"
    using assms(2) by (simp add: object_at_def)
  have kept: "replaced path temporary bs (st_objects s) obs'" if "untouched temporary (st_objects s) obs'" for obs'
    using that there assms(3) by (auto simp: replaced_def untouched_def eq_ignore_ascii_case_def)
  show ?thesis
    using assms(1) [unfolded replace_keeping_security_def]
  proof (cases rule: io_bind_cases)
    case (failed e)
    with kept reads_objects [OF replace_checked_reads failed(2)] show ?thesis by simp
  next
    case (on d s1)
    have s1: "st_objects s1 = st_objects s" "d = ob_security ob"
      using reads_objects [OF replace_checked_reads on(1)] replace_checked_Inr [OF on(1) assms(2)] by simp_all
    from on(2) show ?thesis
    proof (cases rule: io_bind_cases)
      case (failed e)
      with kept delete_leftover_untouched [OF failed(2)] s1 show ?thesis by simp
    next
      case (on u s2)
      have s2: "untouched temporary (st_objects s) (st_objects s2)"
        using delete_leftover_untouched [OF on(1)] s1 by simp
      from on(2) show ?thesis
      proof (cases rule: io_bind_cases)
        case (failed e)
        obtain r' where "create_file_call env temporary d s2 = (r', s')"
          using io_map_err_snd [OF failed(2)] by blast
        from create_untouched [OF this] s2 failed(1) show ?thesis
          by (auto intro: kept untouched_trans)
      next
        case (on v s3)
        obtain r' where "create_file_call env temporary d s2 = (r', s3)" "is_ok r'"
          using io_map_err_snd [OF on(1)] by auto
        then obtain new where new: "untouched temporary (st_objects s2) (st_objects s3)" "find_object temporary (st_objects s3) = Some new"
          "ob_security new = d" "fi_links (ob_info new) = 1" "fi_attributes (ob_info new) = 0x80"
          using create_untouched by blast
        have "untouched temporary (st_objects s) (st_objects s3)"
          using s2 new(1) by (rule untouched_trans)
        moreover from this have "find_object path (st_objects s3) = Some ob"
          using there assms(3) by (auto simp: untouched_def eq_ignore_ascii_case_def)
        ultimately show ?thesis
          using replace_tail [OF on(2) _ new(2) _ new(4,5) assms(3)] s1(2) new(3) there
          by (auto simp: replaced_def untouched_def object_at_def)
      qed
    qed
  qed
qed

lemma replace_frame:
  assumes "replace_keeping_security env path temporary bs po s = (r, s')" "\<not> same_path temporary path"
    "\<not> same_path p path" "\<not> same_path p temporary"
  shows "find_object p (st_objects s') = find_object p (st_objects s)"
proof (cases "object_at path s")
  case (Some ob)
  with replace_spec [OF assms(1) Some assms(2)] assms(3,4) show ?thesis
    by (simp add: replaced_def)
next
  case None
  from assms(1) [unfolded replace_keeping_security_def] show ?thesis
  proof (cases rule: io_bind_cases)
    case (failed e)
    with reads_objects [OF replace_checked_reads failed(2)] show ?thesis by simp
  next
    case (on d s1)
    then obtain handle s2 where "open_existing env path OPEN_WAIT s = (Inr (Some handle), s2)"
      by (auto simp: replace_checked_def store result)
    with open_existing_Some(1) [of env path OPEN_WAIT s handle s2] None show ?thesis by simp
  qed
qed

text \<open>
  Claim C30. Replacing a file is atomic for its readers. Whichever call fails,
  the path then holds either the file that was there, unchanged, or a regular
  file with the new bytes under exactly the old file's owner and DACL; when
  the replacement succeeds it holds the new bytes; and no object but the file
  and the temporary one is touched.
\<close>

theorem replace_atomic:
  assumes "replace_keeping_security env path temporary bs po s = (r, s')" "object_at path s = Some ob" "\<not> same_path temporary path"
  shows "replaced path temporary bs (st_objects s) (st_objects s')
    \<and> (is_ok r \<longrightarrow> map_option ob_bytes (object_at path s') = Some bs)"
  using assms by (rule replace_spec)

lemma sample_replace: "is_ok (fst (replace_keeping_security sample_env ''key.dat'' ''key.tmp'' [3] policy_system_only sample_store))"
  by (simp add: replace_keeping_security_def replace_checked_def delete_leftover_def write_and_move_def custody_ops sample_defs
      check_shape_def file_information_def shape_of_def security_of_def check_descriptor_def policy_system_only_def
      delete_file_call_def create_file_call_def write_and_sync_def replace_call_def ascii_lower_def
      FILE_ATTRIBUTE_DIRECTORY_def FILE_ATTRIBUTE_REPARSE_POINT_def
      SE_DACL_PROTECTED_def ACCESS_DENIED_ACE_TYPE_def ACCESS_ALLOWED_ACE_TYPE_def)

theorem replace_atomic_witness:
  "map_option ob_bytes (object_at ''key.dat''
     (snd (replace_keeping_security sample_env ''key.dat'' ''key.tmp'' [3] policy_system_only sample_store))) = Some [3]"
proof -
  have "\<exists>ob. object_at ''key.dat'' sample_store = Some ob" "\<not> same_path ''key.tmp'' ''key.dat''"
    by (simp_all add: sample_store_def object_at_def find_object_def eq_ignore_ascii_case_def ascii_lower_def)
  with replace_atomic [of sample_env "''key.dat''" "''key.tmp''" "[3]" policy_system_only sample_store] sample_replace
  show ?thesis
    by (metis prod.collapse)
qed

end
