(* ===== verification/Agent_Keys.thy ===== *)
theory Agent_Keys
  imports Rust_Result Agent_Errors
begin

text \<open>
  The agent's key material (\<open>crypto.rs\<close>), the store that seals it at rest
  (\<open>secure_storage.rs\<close>) and the in-memory identity (\<open>identity.rs\<close>). Ed25519,
  SHA-256, base64 and the Windows data protection API are libraries: the
  record \<open>key_lib\<close> holds what the agent calls of them.
\<close>

record key_lib =
  kl_public :: "bytes \<Rightarrow> bytes"
  kl_sha256 :: "bytes \<Rightarrow> bytes"
  kl_base64url :: "bytes \<Rightarrow> string"

definition KEY_LEN :: nat where
  "KEY_LEN = 32"

record agent_keypair =
  kp_secret :: bytes
  kp_public :: bytes

definition from_secret_bytes :: "key_lib \<Rightarrow> bytes \<Rightarrow> agent_keypair" where
  "from_secret_bytes lib secret = \<lparr>kp_secret = secret, kp_public = kl_public lib secret\<rparr>"

text \<open>\<open>random\<close> is what the operating system's generator answers for 32 bytes.\<close>

definition keypair_generate :: "key_lib \<Rightarrow> (string, bytes) result \<Rightarrow> (string, agent_keypair) result" where
  "keypair_generate lib random = and_then random (\<lambda>seed. Inr (from_secret_bytes lib seed))"

definition public_key_bytes :: "agent_keypair \<Rightarrow> bytes" where
  "public_key_bytes k = kp_public k"

definition secret_seed :: "agent_keypair \<Rightarrow> bytes" where
  "secret_seed k = kp_secret k"

definition byte_hex :: "u8 \<Rightarrow> string" where
  "byte_hex b = [digit (unat b div 16), digit (unat b mod 16)]"

definition pubkey_fingerprint :: "key_lib \<Rightarrow> bytes \<Rightarrow> string" where
  "pubkey_fingerprint lib public_key = concat (map byte_hex (kl_sha256 lib public_key))"

definition keypair_debug :: "key_lib \<Rightarrow> agent_keypair \<Rightarrow> (string \<times> string) list" where
  "keypair_debug lib k = [(''public_key_fingerprint'', pubkey_fingerprint lib (kp_public k))]"

record secure_store =
  ss_seal :: "bytes \<Rightarrow> (secure_store_error, bytes) result"
  ss_unseal :: "bytes \<Rightarrow> (secure_store_error, bytes) result"
  ss_backend_name :: string
  ss_is_secure :: bool

text \<open>The test-only store: the plain bytes after a marker.\<close>

definition dev_marker :: bytes where
  "dev_marker = as_bytes (''INSECURE-DEV-PLAINTEXT'' @ [CHR 0x0A])"

definition dev_seal :: "bytes \<Rightarrow> (secure_store_error, bytes) result" where
  "dev_seal plain = Inr (dev_marker @ plain)"

definition dev_unseal :: "bytes \<Rightarrow> (secure_store_error, bytes) result" where
  "dev_unseal blob =
     (if prefix dev_marker blob then Inr (drop (length dev_marker) blob)
      else Inl (Unseal ''missing dev-store marker''))"

definition dev_store :: secure_store where
  "dev_store = \<lparr>ss_seal = dev_seal, ss_unseal = dev_unseal, ss_backend_name = ''insecure-dev-plaintext'', ss_is_secure = False\<rparr>"

record agent_id_value =
  id_agent_id :: string
  id_keypair :: agent_keypair
  id_certificate_pem :: string

text \<open>The contract a sealing store promises: what it sealed, it unseals.\<close>

locale sealing_store =
  fixes seal :: "bytes \<Rightarrow> (secure_store_error, bytes) result"
    and unseal :: "bytes \<Rightarrow> (secure_store_error, bytes) result"
  assumes unseal_seal: "seal plain = Inr blob \<Longrightarrow> unseal blob = Inr plain"
begin

lemma seal_inject: "seal p = Inr b \<Longrightarrow> seal q = Inr b \<Longrightarrow> p = q"
  using unseal_seal [of p b] unseal_seal [of q b] by simp

end

lemma dev_unseal_seal: "dev_seal plain = Inr blob \<Longrightarrow> dev_unseal blob = Inr plain"
  by (auto simp: dev_seal_def dev_unseal_def)

interpretation dev: sealing_store dev_seal dev_unseal
  by unfold_locales (rule dev_unseal_seal)

end
