(* ===== verification/Rust_F64.thy ===== *)
theory Rust_F64
  imports Complex_Main CG_Prelude
begin

text \<open>
  The double-precision arithmetic the retry backoff uses: the conversion of a
  64-bit integer to \<open>f64\<close>, multiplication, comparison with a constant, and
  the saturating conversion back. A finite double is its exact rational
  value; every operation rounds its exact result to the nearest double, ties
  to even. The sign of zero plays no part in any of them.
\<close>

section \<open>Doubles\<close>

datatype f64 = F64_NaN | F64_Inf bool | F64_Fin rat

text \<open>Powers of two with an integer exponent, and the exponent of a rational.\<close>

definition pow2 :: "int \<Rightarrow> rat" where
  "pow2 k = (if 0 \<le> k then 2 ^ nat k else 1 / 2 ^ nat (- k))"

fun ilog2 :: "nat \<Rightarrow> nat" where
  "ilog2 n = (if n < 2 then 0 else Suc (ilog2 (n div 2)))"

declare ilog2.simps [simp del]

definition floor_log2 :: "rat \<Rightarrow> int" where
  "floor_log2 x =
     (let (p, q) = quotient_of x; k = int (ilog2 (nat p)) - int (ilog2 (nat q))
      in if pow2 k \<le> x then k else k - 1)"

definition round_half_even :: "rat \<Rightarrow> int" where
  "round_half_even x =
     (let f = \<lfloor>x\<rfloor>; d = x - of_int f
      in if d < 1 / 2 then f
         else if 1 / 2 < d then f + 1
         else if even f then f else f + 1)"

definition ulp_exponent :: "rat \<Rightarrow> int" where
  "ulp_exponent x = max (floor_log2 x - 52) (- 1074)"

definition f64_round_pos :: "rat \<Rightarrow> rat" where
  "f64_round_pos x =
     (let e = ulp_exponent x in of_int (round_half_even (x / pow2 e)) * pow2 e)"

definition f64_round :: "rat \<Rightarrow> f64" where
  "f64_round x =
     (if x = 0 then F64_Fin 0
      else
        let r = f64_round_pos \<bar>x\<bar>
        in if pow2 1024 \<le> r then F64_Inf (x < 0)
           else F64_Fin (if x < 0 then - r else r))"

definition f64_of_u64 :: "u64 \<Rightarrow> f64" where
  "f64_of_u64 n = f64_round (of_nat (unat n))"

fun f64_mul :: "f64 \<Rightarrow> f64 \<Rightarrow> f64" where
  "f64_mul F64_NaN _ = F64_NaN"
| "f64_mul _ F64_NaN = F64_NaN"
| "f64_mul (F64_Inf s) (F64_Inf t) = F64_Inf (s \<noteq> t)"
| "f64_mul (F64_Inf s) (F64_Fin x) = (if x = 0 then F64_NaN else F64_Inf (s \<noteq> (x < 0)))"
| "f64_mul (F64_Fin x) (F64_Inf s) = (if x = 0 then F64_NaN else F64_Inf (s \<noteq> (x < 0)))"
| "f64_mul (F64_Fin x) (F64_Fin y) = f64_round (x * y)"

fun f64_as_u64 :: "f64 \<Rightarrow> u64" where
  "f64_as_u64 F64_NaN = 0"
| "f64_as_u64 (F64_Inf s) = (if s then 0 else - 1)"
| "f64_as_u64 (F64_Fin x) =
     (if x \<le> 0 then 0 else if 2 ^ 64 \<le> \<lfloor>x\<rfloor> then - 1 else of_int \<lfloor>x\<rfloor>)"

fun f64_less_one :: "f64 \<Rightarrow> bool" where
  "f64_less_one F64_NaN = False"
| "f64_less_one (F64_Inf s) = s"
| "f64_less_one (F64_Fin x) = (x < 1)"

section \<open>Rounding keeps small integers and does not go below them\<close>

lemma pow2_pos [simp]: "0 < pow2 k"
  by (simp add: pow2_def)

lemma pow2_add: "pow2 (a + b) = pow2 a * pow2 b"
proof -
  have "pow2 k = 2 powi k" for k
    by (simp add: pow2_def power_int_def power_one_over)
  then show ?thesis
    by (simp add: power_int_add)
qed

lemma pow2_nat: "pow2 (int n) = 2 ^ n"
  by (simp add: pow2_def)

lemma pow2_mono: "a \<le> b \<Longrightarrow> pow2 a \<le> pow2 b"
proof -
  assume "a \<le> b"
  then have "pow2 b = pow2 a * 2 ^ nat (b - a)"
    using pow2_add [of a "b - a"] by (simp add: pow2_def)
  moreover have "(1 :: rat) \<le> 2 ^ nat (b - a)" by simp
  ultimately show ?thesis
    using pow2_pos [of a] by (metis less_imp_le mult_left_mono mult.right_neutral)
qed

lemma round_half_even_ge: "of_int k \<le> x \<Longrightarrow> k \<le> round_half_even x"
proof -
  assume "of_int k \<le> x"
  then have "k \<le> \<lfloor>x\<rfloor>" by (simp add: le_floor_iff)
  then show ?thesis by (auto simp: round_half_even_def Let_def)
qed

lemma round_half_even_of_int [simp]: "round_half_even (of_int k) = k"
  by (simp add: round_half_even_def)

text \<open>
  Multiples of a power of two at most the unit in the last place are bounds
  that rounding does not cross.
\<close>

lemma f64_round_pos_ge:
  assumes "of_int m * pow2 (ulp_exponent x) \<le> x"
  shows "of_int m * pow2 (ulp_exponent x) \<le> f64_round_pos x"
proof -
  have "of_int m \<le> x / pow2 (ulp_exponent x)"
    using assms by (simp add: pos_le_divide_eq)
  then have "m \<le> round_half_even (x / pow2 (ulp_exponent x))"
    by (rule round_half_even_ge)
  then show ?thesis
    by (simp add: f64_round_pos_def Let_def)
qed

lemma ilog2_bounds: "0 < n \<Longrightarrow> 2 ^ ilog2 n \<le> n \<and> n < 2 ^ Suc (ilog2 n)"
proof (induction n rule: ilog2.induct)
  case (1 n)
  show ?case
  proof (cases "n < 2")
    case True
    with 1 show ?thesis by (simp add: ilog2.simps [of n])
  next
    case False
    then have "2 ^ ilog2 (n div 2) \<le> n div 2 \<and> n div 2 < 2 ^ Suc (ilog2 (n div 2))"
      by (intro "1.IH") auto
    with False show ?thesis by (subst (1 2) ilog2.simps) auto
  qed
qed

lemma floor_log2_nat_quotient:
  assumes "x = of_nat p / of_nat q" "0 < p" "0 < q"
  shows "pow2 (int (ilog2 p) - int (ilog2 q) - 1) \<le> x \<and> x < pow2 (int (ilog2 p) - int (ilog2 q) + 1)"
proof -
  have "q * 2 ^ ilog2 p \<le> 2 ^ Suc (ilog2 q) * p"
    using ilog2_bounds [OF assms(2)] ilog2_bounds [OF assms(3)] by (intro mult_mono) auto
  then have lo: "of_nat q * 2 ^ ilog2 p \<le> (2 ^ Suc (ilog2 q) * of_nat p :: rat)"
    by (simp only: flip: of_nat_le_iff [where 'a = rat]) simp
  have "p * 2 ^ ilog2 q < 2 ^ Suc (ilog2 p) * q"
    using ilog2_bounds [OF assms(2)] ilog2_bounds [OF assms(3)]
    by (intro mult_less_le_imp_less) auto
  then have hi: "of_nat p * 2 ^ ilog2 q < (2 ^ Suc (ilog2 p) * of_nat q :: rat)"
    by (simp only: flip: of_nat_less_iff [where 'a = rat]) simp
  have ratio: "pow2 (int a - int b) = 2 ^ a / 2 ^ b" for a b
    using pow2_add [of "int a - int b" "int b"] by (simp add: pow2_nat field_simps)
  have "int (ilog2 p) - int (ilog2 q) - 1 = int (ilog2 p) - int (Suc (ilog2 q))"
    "int (ilog2 p) - int (ilog2 q) + 1 = int (Suc (ilog2 p)) - int (ilog2 q)" by simp_all
  then show ?thesis
    using assms(2,3) lo hi unfolding assms(1)
    by (simp only: ratio) (simp add: field_simps)
qed

lemma floor_log2_le:
  assumes "0 < x"
  shows "pow2 (floor_log2 x) \<le> x"
proof -
  obtain p q where pq: "quotient_of x = (p, q)" by (cases "quotient_of x")
  then have "0 < q" "x = of_int p / of_int q"
    by (simp_all add: quotient_of_denom_pos quotient_of_div)
  with assms have "0 < p" by (simp add: zero_less_divide_iff)
  then have "x = of_nat (nat p) / of_nat (nat q)"
    using \<open>0 < q\<close> \<open>x = of_int p / of_int q\<close> by simp
  then have "pow2 (int (ilog2 (nat p)) - int (ilog2 (nat q)) - 1) \<le> x"
    using floor_log2_nat_quotient [of x "nat p" "nat q"] \<open>0 < p\<close> \<open>0 < q\<close> by simp
  then show ?thesis
    by (simp add: floor_log2_def pq Let_def)
qed

lemma f64_round_pos_ge_nat:
  assumes "of_nat n \<le> x" "0 < x" "n < 2 ^ 53"
  shows "of_nat n \<le> f64_round_pos x"
proof (cases "ulp_exponent x \<le> 0")
  case True
  let ?e = "ulp_exponent x"
  have "of_int (int n * 2 ^ nat (- ?e)) * pow2 ?e = (of_nat n :: rat)"
    using True by (auto simp: pow2_def)
  with f64_round_pos_ge [of "int n * 2 ^ nat (- ?e)" x] assms(1) show ?thesis
    by metis
next
  case False
  let ?e = "ulp_exponent x"
  have e: "?e = floor_log2 x - 52"
    using False by (simp add: ulp_exponent_def max_def split: if_splits)
  have top: "of_int (2 ^ 52) * pow2 ?e = pow2 (52 + ?e)"
    using pow2_add [of 52 ?e] by (simp add: pow2_def)
  then have "of_int (2 ^ 52) * pow2 ?e \<le> x"
    using floor_log2_le [OF assms(2)] by (simp add: e)
  then have "pow2 (52 + ?e) \<le> f64_round_pos x"
    using f64_round_pos_ge [of "2 ^ 52" x] top by simp
  moreover have "pow2 53 \<le> pow2 (52 + ?e)"
    using False by (intro pow2_mono) simp
  moreover have "of_nat n \<le> pow2 53"
  proof -
    have "of_nat n \<le> (of_nat (2 ^ 53) :: rat)"
      using assms(3) by (simp only: of_nat_le_iff less_imp_le)
    then show ?thesis by (simp add: pow2_def)
  qed
  ultimately show ?thesis by linarith
qed

lemma f64_round_pos_nat:
  assumes "0 < n" "n < 2 ^ 53"
  shows "f64_round_pos (of_nat n) = of_nat n"
proof -
  let ?x = "of_nat n :: rat"
  let ?e = "ulp_exponent ?x"
  have "?x < pow2 53"
  proof -
    have "?x < of_nat (2 ^ 53)" using assms(2) by (simp only: of_nat_less_iff)
    then show ?thesis by (simp add: pow2_def)
  qed
  then have "floor_log2 ?x < 53"
    using floor_log2_le [of ?x] assms(1) pow2_mono [of 53 "floor_log2 ?x"] by linarith
  then have "?e \<le> 0" by (simp add: ulp_exponent_def)
  then have "?x / pow2 ?e = of_int (int n * 2 ^ nat (- ?e))"
    by (auto simp: pow2_def)
  then have "f64_round_pos ?x = of_int (int n * 2 ^ nat (- ?e)) * pow2 ?e"
    by (simp only: f64_round_pos_def Let_def round_half_even_of_int)
  also have "\<dots> = ?x"
    using \<open>?x / pow2 ?e = of_int (int n * 2 ^ nat (- ?e))\<close> pow2_pos [of ?e] by (metis divide_eq_eq less_irrefl)
  finally show ?thesis .
qed

lemma pow2_1024_big: "of_nat n < (2 :: rat) ^ 1024" if "n < 2 ^ 64"
proof -
  have "n < 2 ^ 1024"
    using that by (rule less_le_trans) (rule power_increasing, simp_all)
  then have "of_nat n < (of_nat (2 ^ 1024) :: rat)"
    by (simp only: of_nat_less_iff)
  then show ?thesis by simp
qed

lemma f64_round_nat:
  assumes "n < 2 ^ 53"
  shows "f64_round (of_nat n) = F64_Fin (of_nat n)"
proof (cases "n = 0")
  case False
  then have "f64_round_pos (of_nat n) = of_nat n"
    using assms by (intro f64_round_pos_nat) auto
  moreover have "\<not> pow2 1024 \<le> of_nat n"
    using pow2_1024_big [of n] assms by (simp add: pow2_def not_le)
  ultimately show ?thesis
    using False by (simp add: f64_round_def Let_def)
qed (simp add: f64_round_def)

lemma f64_of_u64_exact:
  "unat w < 2 ^ 53 \<Longrightarrow> f64_of_u64 w = F64_Fin (of_nat (unat w))"
  unfolding f64_of_u64_def by (rule f64_round_nat)

text \<open>Scaling by a factor of at least one does not make a small integer smaller.\<close>

lemma f64_as_u64_round_ge:
  assumes "n < 2 ^ 53" "of_nat n \<le> x" "0 < x"
  shows "n \<le> unat (f64_as_u64 (f64_round x))"
proof -
  let ?r = "f64_round_pos x"
  have "of_nat n \<le> ?r"
    using assms by (intro f64_round_pos_ge_nat) auto
  then have fl: "int n \<le> \<lfloor>?r\<rfloor>"
    by (simp add: le_floor_iff)
  have round: "f64_round x = (if pow2 1024 \<le> ?r then F64_Inf False else F64_Fin ?r)"
    using assms(3) by (simp add: f64_round_def Let_def)
  show ?thesis
  proof (cases "pow2 1024 \<le> ?r \<or> ?r \<le> 0 \<or> 2 ^ 64 \<le> \<lfloor>?r\<rfloor>")
    case True
    then have "f64_as_u64 (f64_round x) = - 1 \<or> ?r \<le> 0"
      using pow2_pos [of 1024] unfolding round by auto
    moreover have "n = 0" if "?r \<le> 0"
      using that \<open>of_nat n \<le> ?r\<close> by (metis of_nat_le_0_iff order_trans)
    ultimately show ?thesis
      using assms(1) by (auto simp: unat_max_word)
  next
    case False
    then have "f64_as_u64 (f64_round x) = of_int \<lfloor>?r\<rfloor>"
      unfolding round by auto
    moreover have "uint (of_int \<lfloor>?r\<rfloor> :: u64) = \<lfloor>?r\<rfloor>"
      using False fl by (simp add: uint_word_of_int_eq take_bit_int_eq_self)
    ultimately show ?thesis
      using fl by (simp flip: nat_uint_eq)
  qed
qed

lemma f64_scale_ge:
  assumes "unat w < 2 ^ 53" "1 \<le> x"
  shows "w \<le> f64_as_u64 (f64_mul (f64_of_u64 w) (F64_Fin x))"
proof (cases "unat w = 0")
  case False
  define n where "n = unat w"
  have "0 < n" "n < 2 ^ 53" using False assms(1) by (simp_all add: n_def)
  then have "(of_nat n :: rat) \<le> of_nat n * x" "0 < of_nat n * x"
    using assms(2) by auto
  then have "n \<le> unat (f64_as_u64 (f64_round (of_nat n * x)))"
    using \<open>n < 2 ^ 53\<close> by (intro f64_as_u64_round_ge)
  moreover have "f64_mul (f64_of_u64 w) (F64_Fin x) = f64_round (of_nat n * x)"
    unfolding f64_of_u64_exact [OF assms(1)] n_def by (rule f64_mul.simps)
  ultimately show ?thesis
    by (simp add: n_def word_le_nat_alt)
qed (simp add: unat_eq_0)

end
