(* ===== verification/Agent_Config.thy ===== *)
theory Agent_Config
  imports Agent_Errors Rust_F64
begin

text \<open>
  The configuration and its validation (\<open>config.rs\<close>), in the order the code
  checks it. The TOML parser is the \<open>toml\<close> crate: its reading of a document
  as a value and as the configuration structure are the two parameters of
  \<open>load_from_str\<close>.
\<close>

section \<open>The configuration\<close>

record server_config =
  sc_url :: string
  sc_trust_anchor_path :: "string option"
  sc_heartbeat_url :: "string option"

definition heartbeat_target :: "server_config \<Rightarrow> string" where
  "heartbeat_target s = (case sc_heartbeat_url s of Some u \<Rightarrow> u | None \<Rightarrow> sc_url s)"

record agent_identity =
  ai_id :: string
  ai_hostname :: string

record heartbeat_config =
  hb_interval_seconds :: u64
  hb_request_timeout_seconds :: u64
  hb_max_retries :: u32
  hb_backoff_initial_ms :: u64
  hb_backoff_factor :: f64
  hb_backoff_max_ms :: u64

record enrollment_config =
  ec_token :: "string option"
  ec_cert_path :: string
  ec_key_path :: string
  ec_identity_path :: string
  ec_timeout_seconds :: u64
  ec_max_retries :: u32
  ec_backoff_initial_ms :: u64
  ec_backoff_factor :: f64

record log_config =
  lc_level :: string

record tls_config =
  tc_minimum_version :: string

record envelope_config =
  vc_canonical_form :: string

record agent_config =
  ac_server :: server_config
  ac_agent :: agent_identity
  ac_heartbeat :: heartbeat_config
  ac_log :: log_config
  ac_enrollment :: "enrollment_config option"
  ac_tls :: "tls_config option"
  ac_envelope :: "envelope_config option"

definition heartbeat_default :: heartbeat_config where
  "heartbeat_default =
     \<lparr>hb_interval_seconds = 30, hb_request_timeout_seconds = 10, hb_max_retries = 3,
      hb_backoff_initial_ms = 1000, hb_backoff_factor = F64_Fin 2, hb_backoff_max_ms = 60000\<rparr>"

definition log_default :: log_config where
  "log_default = \<lparr>lc_level = ''info''\<rparr>"

definition tls_default :: tls_config where
  "tls_default = \<lparr>tc_minimum_version = ''1.3''\<rparr>"

definition envelope_default :: envelope_config where
  "envelope_default = \<lparr>vc_canonical_form = ''JCS''\<rparr>"

text \<open>The fields the enrollment configuration's \<open>Debug\<close> writes.\<close>

datatype debug_value =
    DebugOption "string option"
  | DebugStr string
  | DebugU64 u64
  | DebugU32 u32
  | DebugF64 f64

definition enrollment_debug :: "enrollment_config \<Rightarrow> (string \<times> debug_value) list" where
  "enrollment_debug c =
     [(''token'', DebugOption (map_option (\<lambda>_. ''<redacted>'') (ec_token c))),
      (''cert_path'', DebugStr (ec_cert_path c)), (''key_path'', DebugStr (ec_key_path c)),
      (''identity_path'', DebugStr (ec_identity_path c)),
      (''timeout_seconds'', DebugU64 (ec_timeout_seconds c)),
      (''max_retries'', DebugU32 (ec_max_retries c)),
      (''backoff_initial_ms'', DebugU64 (ec_backoff_initial_ms c)),
      (''backoff_factor'', DebugF64 (ec_backoff_factor c))]"

section \<open>Parse errors\<close>

record toml_error =
  te_message :: string
  te_span_start :: "usize option"

text \<open>A byte that continues a UTF-8 character: \<open>10xxxxxx\<close>.\<close>

definition utf8_continuation :: "char \<Rightarrow> bool" where
  "utf8_continuation c \<longleftrightarrow> 128 \<le> cval c \<and> cval c < 192"

definition is_char_boundary :: "string \<Rightarrow> usize \<Rightarrow> bool" where
  "is_char_boundary s i \<longleftrightarrow> i = length s \<or> (i < length s \<and> \<not> utf8_continuation (s ! i))"

definition chars_count :: "string \<Rightarrow> usize" where
  "chars_count s = length (filter (\<lambda>c. \<not> utf8_continuation c) s)"

abbreviation newline :: char where
  "newline \<equiv> CHR 0x0A"

definition parse_error :: "string \<Rightarrow> toml_error \<Rightarrow> config_error" where
  "parse_error content e =
     Parse (te_message e)
       (map_option (\<lambda>start.
          let before = (if is_char_boundary content start then take start content else content);
              line = length (filter (\<lambda>c. c = newline) before) + 1;
              column = chars_count (last (split newline before)) + 1
          in (line, column)) (te_span_start e))"

section \<open>UUIDv7\<close>

definition is_lower_hexdigit :: "char \<Rightarrow> bool" where
  "is_lower_hexdigit c \<longleftrightarrow> is_ascii_hexdigit c \<and> \<not> (65 \<le> cval c \<and> cval c \<le> 90)"

definition is_uuidv7 :: "string \<Rightarrow> bool" where
  "is_uuidv7 s =
     (let parts = split (CHR ''-'') s
      in length parts = 5
         \<and> list_all (\<lambda>(p, n). length p = n \<and> list_all is_lower_hexdigit p)
             (zip parts [8, 4, 4, 4, 12])
         \<and> prefix ''7'' (parts ! 2)
         \<and> hd (parts ! 3) \<in> {CHR ''8'', CHR ''9'', CHR ''a'', CHR ''b''})"

text \<open>
  The pattern the specification gives for an agent id:
  \<open>^[0-9a-f]{8}-[0-9a-f]{4}-7[0-9a-f]{3}-[89ab][0-9a-f]{3}-[0-9a-f]{12}$\<close>.
\<close>

definition hex_digits :: "nat \<Rightarrow> string \<Rightarrow> bool" where
  "hex_digits n s \<longleftrightarrow> length s = n \<and> list_all is_lower_hexdigit s"

definition uuidv7_pattern :: "string \<Rightarrow> bool" where
  "uuidv7_pattern s \<longleftrightarrow>
     (\<exists>a b c v d e. s = a @ ''-'' @ b @ ''-7'' @ c @ ''-'' @ [v] @ d @ ''-'' @ e
        \<and> hex_digits 8 a \<and> hex_digits 4 b \<and> hex_digits 3 c
        \<and> v \<in> {CHR ''8'', CHR ''9'', CHR ''a'', CHR ''b''} \<and> hex_digits 3 d \<and> hex_digits 12 e)"

section \<open>Loading\<close>

text \<open>A number, a boolean, a date or an array is kept as its text.\<close>

datatype toml_value =
    TomlString string
  | TomlTable "(string \<times> toml_value) list"
  | TomlOther string

fun toml_get :: "string \<Rightarrow> toml_value \<Rightarrow> toml_value option" where
  "toml_get k (TomlTable t) = map_of t k"
| "toml_get k _ = None"

definition toml_get2 :: "string \<Rightarrow> string \<Rightarrow> toml_value \<Rightarrow> toml_value option" where
  "toml_get2 k1 k2 v = (case toml_get k1 v of Some t \<Rightarrow> toml_get k2 t | None \<Rightarrow> None)"

text \<open>A required string key: missing, not a string, or its value.\<close>

definition required_str :: "string \<Rightarrow> string \<Rightarrow> toml_value \<Rightarrow> config_error + string" where
  "required_str k1 k2 raw =
     (case toml_get2 k1 k2 raw of
        None \<Rightarrow> Inl (MissingKey (k1 @ ''.'' @ k2))
      | Some (TomlString s) \<Rightarrow> Inr s
      | Some _ \<Rightarrow> Inl (Invalid (k1 @ ''.'' @ k2 @ '' must be a string'')))"

definition check_required :: "toml_value \<Rightarrow> config_error option" where
  "check_required raw =
     (case required_str ''server'' ''url'' raw of
        Inl e \<Rightarrow> Some e
      | Inr server_url \<Rightarrow>
          if \<not> (prefix ''http://'' server_url \<or> prefix ''https://'' server_url)
          then Some (Invalid ''server.url not a valid URL'')
          else case required_str ''agent'' ''id'' raw of
            Inl e \<Rightarrow> Some e
          | Inr agent_id \<Rightarrow>
              if \<not> is_uuidv7 agent_id then Some (Invalid ''agent.id not a UUIDv7'')
              else case required_str ''agent'' ''hostname'' raw of
                Inl e \<Rightarrow> Some e
              | Inr agent_hostname \<Rightarrow>
                  if agent_hostname = [] then Some (Invalid ''agent.hostname must be non-empty'')
                  else None)"

abbreviation https :: "string \<Rightarrow> bool" where
  "https u \<equiv> prefix ''https://'' u"

definition check_config :: "agent_config \<Rightarrow> config_error option" where
  "check_config c =
     (let h = ac_heartbeat c; s = ac_server c
      in if hb_interval_seconds h = 0 \<or> hb_request_timeout_seconds h = 0
            \<or> hb_backoff_initial_ms h = 0 \<or> hb_backoff_max_ms h = 0
         then Some (Invalid ''heartbeat numeric fields must be > 0'')
         else if f64_less_one (hb_backoff_factor h)
         then Some (Invalid ''heartbeat.backoff_factor must be >= 1.0'')
         else if ac_enrollment c \<noteq> None \<and> \<not> https (sc_url s)
         then Some (Invalid ''server.url must use https when [enrollment] is set'')
         else if ac_enrollment c \<noteq> None \<and> sc_trust_anchor_path s = None
         then Some (MissingKey ''server.trust_anchor_path'')
         else if sc_trust_anchor_path s = Some []
         then Some (Invalid ''server.trust_anchor_path must be non-empty'')
         else if sc_trust_anchor_path s \<noteq> None \<and> sc_heartbeat_url s = None \<and> \<not> https (sc_url s)
         then Some (Invalid ''server.url must use https when server.trust_anchor_path is set and server.heartbeat_url is absent'')
         else if sc_trust_anchor_path s \<noteq> None \<and> (case ac_tls c of Some v \<Rightarrow> tc_minimum_version v \<noteq> ''1.3'' | None \<Rightarrow> False)
         then Some (Invalid (''tls.minimum_version must be '' @ [CHR 0x22] @ ''1.3'' @ [CHR 0x22]))
         else if sc_trust_anchor_path s \<noteq> None \<and> (case ac_envelope c of Some v \<Rightarrow> vc_canonical_form v \<noteq> ''JCS'' | None \<Rightarrow> False)
         then Some (Invalid (''envelope.canonical_form must be '' @ [CHR 0x22] @ ''JCS'' @ [CHR 0x22]))
         else if (case sc_heartbeat_url s of Some hb \<Rightarrow> \<not> https hb | None \<Rightarrow> False)
         then Some (Invalid ''server.heartbeat_url must use https'')
         else None)"

definition load_from_str ::
    "(string \<Rightarrow> toml_error + toml_value) \<Rightarrow> (string \<Rightarrow> toml_error + agent_config) \<Rightarrow> string
     \<Rightarrow> config_error + agent_config" where
  "load_from_str toml_value toml_config content =
     (case toml_value content of
        Inl e \<Rightarrow> Inl (parse_error content e)
      | Inr raw \<Rightarrow>
          (case check_required raw of
             Some e \<Rightarrow> Inl e
           | None \<Rightarrow>
               (case toml_config content of
                  Inl e \<Rightarrow> Inl (parse_error content e)
                | Inr config \<Rightarrow>
                    (case check_config config of Some e \<Rightarrow> Inl e | None \<Rightarrow> Inr config))))"

text \<open>The file: whether it exists, and what reading it gives.\<close>

definition load_from_path ::
    "(string \<Rightarrow> toml_error + toml_value) \<Rightarrow> (string \<Rightarrow> toml_error + agent_config) \<Rightarrow> string
     \<Rightarrow> bool \<Rightarrow> string + string \<Rightarrow> config_error + agent_config" where
  "load_from_path toml_value toml_config path path_exists read_to_string =
     (if \<not> path_exists then Inl (NotFound path)
      else case read_to_string of
             Inl e \<Rightarrow> Inl (ConfigIo e)
           | Inr content \<Rightarrow> load_from_str toml_value toml_config content)"

section \<open>The agent id check is the specified pattern\<close>

lemma hyphen_not_hex: "hex_digits n s \<Longrightarrow> x \<in> set s \<Longrightarrow> x \<noteq> CHR ''-''"
  by (auto simp: hex_digits_def list_all_iff is_lower_hexdigit_def is_ascii_hexdigit_def
      is_ascii_digit_def)

lemma split_hyphen: "hex_digits n a \<Longrightarrow> split (CHR ''-'') (a @ CHR ''-'' # t) = a # split (CHR ''-'') t"
  using hyphen_not_hex [of n a] unfolding split_def by (intro split_on_append_sep) auto

lemma split_hyphen_last: "hex_digits n a \<Longrightarrow> split (CHR ''-'') a = [a]"
  using hyphen_not_hex [of n a] unfolding split_def by (intro split_on_free) auto

lemma length_5_conv: "length xs = 5 \<longleftrightarrow> (\<exists>a b c d e. xs = [a, b, c, d, e])"
  by (auto simp: eval_nat_numeral length_Suc_conv)

lemma uuidv7_pattern_parts:
  "uuidv7_pattern s \<longleftrightarrow>
     (\<exists>a b c d e. s = a @ ''-'' @ b @ ''-'' @ c @ ''-'' @ d @ ''-'' @ e
        \<and> hex_digits 8 a \<and> hex_digits 4 b \<and> hex_digits 4 c \<and> hex_digits 4 d \<and> hex_digits 12 e
        \<and> prefix ''7'' c \<and> hd d \<in> {CHR ''8'', CHR ''9'', CHR ''a'', CHR ''b''})"
    (is "?L = ?R")
proof
  assume ?L
  then obtain a b c v d e where s: "s = a @ ''-'' @ b @ ''-7'' @ c @ ''-'' @ [v] @ d @ ''-'' @ e"
      and h: "hex_digits 8 a" "hex_digits 4 b" "hex_digits 3 c" "hex_digits 3 d" "hex_digits 12 e"
      and v: "v \<in> {CHR ''8'', CHR ''9'', CHR ''a'', CHR ''b''}"
    unfolding uuidv7_pattern_def by blast
  have "hex_digits 4 (CHR ''7'' # c)" "hex_digits 4 (v # d)"
    using h v by (auto simp: hex_digits_def is_lower_hexdigit_def is_ascii_hexdigit_def is_ascii_digit_def)
  with s h v show ?R
    by (intro exI [of _ a] exI [of _ b] exI [of _ "CHR ''7'' # c"] exI [of _ "v # d"] exI [of _ e]) simp
next
  assume ?R
  then obtain a b c d e where s: "s = a @ ''-'' @ b @ ''-'' @ c @ ''-'' @ d @ ''-'' @ e"
      and h: "hex_digits 8 a" "hex_digits 4 b" "hex_digits 4 c" "hex_digits 4 d" "hex_digits 12 e"
      and f: "prefix ''7'' c" "hd d \<in> {CHR ''8'', CHR ''9'', CHR ''a'', CHR ''b''}"
    by blast
  obtain c' where c: "c = CHR ''7'' # c'" using f(1) by (cases c) auto
  obtain v d' where d: "d = v # d'" using h(4) by (cases d) (auto simp: hex_digits_def)
  show ?L
    unfolding uuidv7_pattern_def using s h f c d
    by (intro exI [of _ a] exI [of _ b] exI [of _ c'] exI [of _ v] exI [of _ d'] exI [of _ e])
      (auto simp: hex_digits_def)
qed

text \<open>
  The check of an agent id accepts exactly the strings of the
  specification's UUIDv7 pattern.
\<close>

lemma is_uuidv7_pattern: "is_uuidv7 s \<longleftrightarrow> uuidv7_pattern s"
proof
  assume u: "is_uuidv7 s"
  then obtain a b c d e where parts: "split (CHR ''-'') s = [a, b, c, d, e]"
    unfolding is_uuidv7_def Let_def length_5_conv by blast
  have "s = a @ ''-'' @ b @ ''-'' @ c @ ''-'' @ d @ ''-'' @ e"
    using join_split [of "CHR ''-''" s] unfolding parts by simp
  then show "uuidv7_pattern s"
    using u unfolding is_uuidv7_def Let_def parts uuidv7_pattern_parts
    by (intro exI [of _ a] exI [of _ b] exI [of _ c] exI [of _ d] exI [of _ e])
      (simp add: hex_digits_def)
next
  assume "uuidv7_pattern s"
  then obtain a b c d e where s: "s = a @ ''-'' @ b @ ''-'' @ c @ ''-'' @ d @ ''-'' @ e"
      and h: "hex_digits 8 a" "hex_digits 4 b" "hex_digits 4 c" "hex_digits 4 d" "hex_digits 12 e"
      and f: "prefix ''7'' c" "hd d \<in> {CHR ''8'', CHR ''9'', CHR ''a'', CHR ''b''}"
    unfolding uuidv7_pattern_parts by blast
  have "split (CHR ''-'') s = [a, b, c, d, e]"
    unfolding s using h by (simp add: split_hyphen split_hyphen_last)
  with h f show "is_uuidv7 s"
    by (simp add: is_uuidv7_def hex_digits_def)
qed

section \<open>What an accepted configuration guarantees\<close>

definition config_accepted :: "agent_config \<Rightarrow> bool" where
  "config_accepted c \<longleftrightarrow> check_config c = None"

lemma load_from_str_Inr:
  "load_from_str tv tc content = Inr c \<Longrightarrow>
   \<exists>raw. tv content = Inr raw \<and> check_required raw = None \<and> tc content = Inr c \<and> config_accepted c"
  by (auto simp: load_from_str_def config_accepted_def split: sum.splits option.splits)

lemma check_required_None:
  "check_required raw = None \<Longrightarrow>
   \<exists>u i h. toml_get2 ''server'' ''url'' raw = Some (TomlString u)
     \<and> (prefix ''http://'' u \<or> https u)
     \<and> toml_get2 ''agent'' ''id'' raw = Some (TomlString i) \<and> is_uuidv7 i
     \<and> toml_get2 ''agent'' ''hostname'' raw = Some (TomlString h) \<and> h \<noteq> []"
  unfolding check_required_def
  by (auto simp: required_str_def split: sum.splits if_splits option.splits toml_value.splits)

lemma config_accepted_numeric:
  "config_accepted c \<Longrightarrow> hb_interval_seconds (ac_heartbeat c) \<noteq> 0 \<and>
   hb_request_timeout_seconds (ac_heartbeat c) \<noteq> 0 \<and> hb_backoff_initial_ms (ac_heartbeat c) \<noteq> 0 \<and>
   hb_backoff_max_ms (ac_heartbeat c) \<noteq> 0 \<and> \<not> f64_less_one (hb_backoff_factor (ac_heartbeat c))"
  unfolding config_accepted_def check_config_def by (auto simp: Let_def split: if_splits)

lemma config_accepted_tls:
  "config_accepted c \<Longrightarrow>
   (sc_trust_anchor_path (ac_server c) \<noteq> None \<longrightarrow> https (heartbeat_target (ac_server c))) \<and>
   (ac_enrollment c \<noteq> None \<longrightarrow>
      https (sc_url (ac_server c)) \<and> sc_trust_anchor_path (ac_server c) \<noteq> None) \<and>
   sc_trust_anchor_path (ac_server c) \<noteq> Some []"
  unfolding config_accepted_def check_config_def heartbeat_target_def
  by (auto simp: Let_def split: if_splits option.splits)

text \<open>
  What \<open>serde\<close> documents of the two readings of one document: the structure's
  fields are the document's keys.
\<close>

definition serde_agrees :: "toml_value \<Rightarrow> agent_config \<Rightarrow> bool" where
  "serde_agrees raw c \<longleftrightarrow>
     toml_get2 ''server'' ''url'' raw = Some (TomlString (sc_url (ac_server c))) \<and>
     toml_get2 ''agent'' ''id'' raw = Some (TomlString (ai_id (ac_agent c))) \<and>
     toml_get2 ''agent'' ''hostname'' raw = Some (TomlString (ai_hostname (ac_agent c)))"


definition demo_config :: "u32 \<Rightarrow> f64 \<Rightarrow> agent_config" where
  "demo_config retries factor =
     \<lparr>ac_server = \<lparr>sc_url = ''https://ingest:8443'', sc_trust_anchor_path = Some ''ca.pem'',
                   sc_heartbeat_url = None\<rparr>,
      ac_agent = \<lparr>ai_id = ''018f5e7a-1c2b-7d3e-9f4a-0123456789ab'', ai_hostname = ''ws1''\<rparr>,
      ac_heartbeat = heartbeat_default\<lparr>hb_max_retries := retries, hb_backoff_factor := factor\<rparr>,
      ac_log = log_default, ac_enrollment = None, ac_tls = Some tls_default,
      ac_envelope = Some envelope_default\<rparr>"

definition demo_toml :: toml_value where
  "demo_toml = TomlTable
     [(''server'', TomlTable [(''url'', TomlString ''https://ingest:8443'')]),
      (''agent'', TomlTable [(''id'', TomlString ''018f5e7a-1c2b-7d3e-9f4a-0123456789ab''),
                             (''hostname'', TomlString ''ws1'')])]"

lemma demo_config_loads:
  "load_from_str (\<lambda>_. Inr demo_toml) (\<lambda>_. Inr (demo_config n f)) [] = Inr (demo_config n f)"
  if "\<not> f64_less_one f"
proof -
  have "check_required demo_toml = None"
    by code_simp
  moreover have "check_config (demo_config n f) = None"
    using that by (simp add: check_config_def demo_config_def heartbeat_default_def tls_default_def
        envelope_default_def Let_def)
  ultimately show ?thesis
    by (simp add: load_from_str_def)
qed


text \<open>
  The validation accepts two configurations that its specification
  excludes: one with no heartbeat retries at all, and one whose backoff factor
  is not a number, for which the comparison with one is false.
\<close>

lemma validation_gaps:
  "load_from_str (\<lambda>_. Inr demo_toml) (\<lambda>_. Inr (demo_config 0 (F64_Fin 2))) [] = Inr (demo_config 0 (F64_Fin 2))
   \<and> load_from_str (\<lambda>_. Inr demo_toml) (\<lambda>_. Inr (demo_config 3 F64_NaN)) [] = Inr (demo_config 3 F64_NaN)"
  by (simp add: demo_config_loads)

end
