(* ===== verification/Ip_Text.thy ===== *)
theory Ip_Text
  imports Event_Types
begin

text \<open>
  Reading and writing IP addresses as the Rust standard library does
  (\<open>IpAddr::from_str\<close> and \<open>Display\<close>), which the agent uses for the source
  of a logon and for the endpoints it renders.
\<close>

section \<open>Reading\<close>

definition to_digit :: "nat \<Rightarrow> char \<Rightarrow> nat option" where
  "to_digit b c =
     (let v = (if is_ascii_digit c then Some (cval c - 48)
               else if 97 \<le> cval c \<and> cval c \<le> 102 then Some (cval c - 87)
               else if 65 \<le> cval c \<and> cval c \<le> 70 then Some (cval c - 55)
               else None)
      in case v of Some d \<Rightarrow> if d < b then Some d else None | None \<Rightarrow> None)"

definition is_digit_of :: "nat \<Rightarrow> char \<Rightarrow> bool" where
  "is_digit_of b c \<longleftrightarrow> to_digit b c \<noteq> None"

definition read_number :: "nat \<Rightarrow> nat \<Rightarrow> bool \<Rightarrow> nat \<Rightarrow> string \<Rightarrow> (nat \<times> string) option" where
  "read_number b max_digits allow_zero_prefix limit s =
     (let ds = takeWhile (is_digit_of b) s;
          v = foldl (\<lambda>v c. b * v + the (to_digit b c)) 0 ds
      in if ds = [] \<or> max_digits < length ds \<or> limit < v then None
         else if \<not> allow_zero_prefix \<and> hd ds = CHR ''0'' \<and> 1 < length ds then None
         else Some (v, drop (length ds) s))"

definition read_separator ::
    "char \<Rightarrow> nat \<Rightarrow> (string \<Rightarrow> ('a \<times> string) option) \<Rightarrow> string \<Rightarrow> ('a \<times> string) option" where
  "read_separator sep i inner s =
     (if 0 < i then (case s of [] \<Rightarrow> None | c # s' \<Rightarrow> if c = sep then inner s' else None)
      else inner s)"

fun read_octets :: "nat \<Rightarrow> nat \<Rightarrow> string \<Rightarrow> (nat list \<times> string) option" where
  "read_octets 0 i s = Some ([], s)"
| "read_octets (Suc k) i s =
     (case read_separator (CHR ''.'') i (read_number 10 3 False 255) s of
        None \<Rightarrow> None
      | Some (v, s') \<Rightarrow>
          (case read_octets k (Suc i) s' of None \<Rightarrow> None | Some (vs, s'') \<Rightarrow> Some (v # vs, s'')))"

definition read_ipv4_addr :: "string \<Rightarrow> (nat list \<times> string) option" where
  "read_ipv4_addr s = read_octets 4 0 s"

text \<open>
  A chunk of groups of an IPv6 address: the groups read, whether the last two
  came from an embedded IPv4 address, and the rest. The first argument is the
  number of groups left.
\<close>

fun read_groups :: "nat \<Rightarrow> nat \<Rightarrow> string \<Rightarrow> nat list \<times> bool \<times> string" where
  "read_groups 0 i s = ([], False, s)"
| "read_groups (Suc k) i s =
     (case (if 1 \<le> k then read_separator (CHR '':'') i read_ipv4_addr s else None) of
        Some (v4, s') \<Rightarrow> ([256 * v4 ! 0 + v4 ! 1, 256 * v4 ! 2 + v4 ! 3], True, s')
      | None \<Rightarrow>
          (case read_separator (CHR '':'') i (read_number 16 4 True 65535) s of
             None \<Rightarrow> ([], False, s)
           | Some (g, s') \<Rightarrow> (case read_groups k (Suc i) s' of (gs, v4, s'') \<Rightarrow> (g # gs, v4, s''))))"

definition read_ipv6_addr :: "string \<Rightarrow> (nat list \<times> string) option" where
  "read_ipv6_addr s =
     (case read_groups 8 0 s of
        (hs, v4, s') \<Rightarrow>
          if length hs = 8 then Some (hs, s')
          else if v4 then None
          else if prefix ''::'' s' then
            (case read_groups (8 - (length hs + 1)) 0 (drop 2 s') of
               (ts, _, s'') \<Rightarrow> Some (hs @ replicate (8 - length hs - length ts) 0 @ ts, s''))
          else None)"

definition parse_ip :: "string \<Rightarrow> ip_addr option" where
  "parse_ip s =
     (case read_ipv4_addr s of
        Some (vs, rest) \<Rightarrow> if rest = [] then Some (V4 (map of_nat vs)) else None
      | None \<Rightarrow>
          (case read_ipv6_addr s of
             Some (gs, rest) \<Rightarrow>
               if rest = [] then Some (V6 (concat (map (\<lambda>g. [of_nat (g div 256), of_nat g]) gs)))
               else None
           | None \<Rightarrow> None))"

section \<open>Writing\<close>

definition ipv4_to_string :: "bytes \<Rightarrow> string" where
  "ipv4_to_string b = join ''.'' (map (\<lambda>x. dec (unat x)) b)"

fun segments :: "bytes \<Rightarrow> nat list" where
  "segments (h # l # bs) = (256 * unat h + unat l) # segments bs"
| "segments _ = []"

text \<open>The first longest run of zero groups, as its start and length.\<close>

fun zero_run :: "nat \<Rightarrow> nat \<times> nat \<Rightarrow> nat \<times> nat \<Rightarrow> nat list \<Rightarrow> nat \<times> nat" where
  "zero_run i cur best [] = best"
| "zero_run i (st, ln) best (g # gs) =
     (if g = 0 then
        let cur = (if ln = 0 then i else st, Suc ln)
        in zero_run (Suc i) cur (if snd best < snd cur then cur else best) gs
      else zero_run (Suc i) (0, 0) best gs)"

definition ipv6_to_string :: "bytes \<Rightarrow> string" where
  "ipv6_to_string b =
     (case to_ipv4_mapped b of
        Some v4 \<Rightarrow> ''::ffff:'' @ ipv4_to_string v4
      | None \<Rightarrow>
          let gs = segments b; (st, ln) = zero_run 0 (0, 0) (0, 0) gs; txt = join '':'' \<circ> map hex
          in if 1 < ln then txt (take st gs) @ ''::'' @ txt (drop (st + ln) gs) else txt gs)"

definition ip_to_string :: "ip_addr \<Rightarrow> string" where
  "ip_to_string a = (case a of V4 b \<Rightarrow> ipv4_to_string b | V6 b \<Rightarrow> ipv6_to_string b)"

section \<open>A written IPv4 address is read back\<close>

lemma to_digit_decimal: "to_digit 10 c = (if is_ascii_digit c then Some (cval c - 48) else None)"
  by (auto simp: to_digit_def is_ascii_digit_def Let_def)

lemma takeWhile_digits:
  "(\<And>c. c \<in> set ds \<Longrightarrow> is_ascii_digit c) \<Longrightarrow> (rest = [] \<or> \<not> is_ascii_digit (hd rest)) \<Longrightarrow>
   takeWhile (is_digit_of 10) (ds @ rest) = ds"
  by (induction ds) (cases rest; auto simp: is_digit_of_def to_digit_decimal)+

lemma hd_dec_zero: "hd (dec n) = CHR ''0'' \<longleftrightarrow> n = 0"
proof (induction n rule: less_induct)
  case (less n)
  show ?case
  proof (cases "n < 10")
    case True
    then have "cval (hd (dec n)) = 48 + n"
      by (simp add: dec_def radix_small digit_decimal)
    moreover have "cval (CHR ''0'') = 48" by simp
    ultimately show ?thesis
      by (metis add_cancel_left_right char_of_char dec_def digit_def list.sel(1) radix_small
          zero_less_numeral)
  next
    case False
    then have "hd (dec n) = hd (dec (n div 10))"
      by (simp add: dec_def radix_step)
    with False less.IH [of "n div 10"] show ?thesis by auto
  qed
qed

lemma foldl_to_digit:
  "(\<And>c. c \<in> set ds \<Longrightarrow> is_ascii_digit c) \<Longrightarrow>
   foldl (\<lambda>v c. 10 * v + the (to_digit 10 c)) v ds = foldl (\<lambda>v c. 10 * v + (cval c - 48)) v ds"
  by (induction ds arbitrary: v) (simp_all add: to_digit_decimal)

lemma read_number_dec:
  assumes "n < 256" "rest = [] \<or> \<not> is_ascii_digit (hd rest)"
  shows "read_number 10 3 False 255 (dec n @ rest) = Some (n, rest)"
proof -
  have ds: "takeWhile (is_digit_of 10) (dec n @ rest) = dec n"
    by (rule takeWhile_digits) (auto simp: dec_digits assms(2))
  have v: "foldl (\<lambda>v c. 10 * v + the (to_digit 10 c)) 0 (dec n) = n"
    using foldl_to_digit [of "dec n" 0] digits_value_dec [of n]
    by (simp add: dec_digits digits_value_def)
  have "length (dec n) \<le> 3" using assms(1) by (intro length_dec) auto
  moreover have "n = 0 \<Longrightarrow> length (dec n) = 1" by (simp add: dec_def radix_small)
  ultimately show ?thesis
    using assms(1) by (auto simp: read_number_def Let_def ds v hd_dec_zero)
qed

lemma parse_ipv4_to_string:
  assumes "length b = 4"
  shows "parse_ip (ip_to_string (V4 b)) = Some (V4 b)"
proof -
  obtain x y z w where b: "b = [x, y, z, w]"
    using assms by (auto simp: eval_nat_numeral length_Suc_conv)
  have lt: "unat a < 256" for a :: u8
    using unat_bound [of a] by simp
  have mid: "read_number 10 3 False 255 (dec (unat a) @ CHR ''.'' # t) = Some (unat a, CHR ''.'' # t)"
    for a :: u8 and t
    by (rule read_number_dec [OF lt]) (simp add: is_ascii_digit_def)
  have fin: "read_number 10 3 False 255 (dec (unat a)) = Some (unat a, [])" for a :: u8
    using read_number_dec [OF lt, of "[]" a] by simp
  have "4 = Suc (Suc (Suc (Suc 0)))" by simp
  then have "read_ipv4_addr (ipv4_to_string b) = Some (map unat b, [])"
    by (simp only: read_ipv4_addr_def ipv4_to_string_def b)
      (simp add: read_separator_def mid fin)
  then show ?thesis
    by (simp add: parse_ip_def ip_to_string_def b)
qed

end
