(* ===== verification/Logon_Decode.thy ===== *)
theory Logon_Decode
  imports Dispatch Ip_Text
begin

text \<open>
  Logon telemetry (\<open>logon/mod.rs\<close>): the decoding of one Security-log record,
  its dispatch into the ring, and the count of the records the agent cannot
  use. The event id generated by the \<open>uuid\<close> crate is an argument.
\<close>

section \<open>Records\<close>

definition EVENT_LOGON_SUCCESS :: u16 where "EVENT_LOGON_SUCCESS = 4624"
definition EVENT_LOGON_FAILURE :: u16 where "EVENT_LOGON_FAILURE = 4625"

definition WITHHELD :: string where "WITHHELD = ''<withheld>''"
definition NO_VALUE :: string where "NO_VALUE = ''-''"

definition ACCOUNT_EXISTS_CODES :: "u32 list" where
  "ACCOUNT_EXISTS_CODES =
     [0xC000006A, 0xC0000234, 0xC0000072, 0xC000006F, 0xC0000070, 0xC0000193, 0xC0000071,
      0xC0000224, 0xC000015B]"

record raw_logon_record =
  rl_event_id :: u16
  rl_version :: u8
  rl_filetime_100ns :: i64
  rl_target_user_sid :: "string option"
  rl_target_user_name :: "string option"
  rl_target_domain_name :: "string option"
  rl_logon_type :: "u32 option"
  rl_auth_package :: "string option"
  rl_workstation :: "string option"
  rl_ip_address :: "string option"
  rl_elevated_token :: "string option"
  rl_status :: "u32 option"
  rl_sub_status :: "u32 option"

datatype logon_decode = Report logon_event | Excluded | Unusable | BeforeEpoch

section \<open>Values\<close>

definition value_or_dash :: "string option \<Rightarrow> string" where
  "value_or_dash v = (case v of Some s \<Rightarrow> if s \<noteq> [] then s else NO_VALUE | None \<Rightarrow> NO_VALUE)"

definition excluded_EXACT :: "string list" where
  "excluded_EXACT = [''S-1-5-18'', ''S-1-5-19'', ''S-1-5-20'']"

definition excluded_PREFIXES :: "string list" where
  "excluded_PREFIXES = [''S-1-5-80-'', ''S-1-5-82-'', ''S-1-5-83-'', ''S-1-5-84-'', ''S-1-5-90-'',
                        ''S-1-5-96-'']"

definition is_excluded_target :: "string \<Rightarrow> string \<Rightarrow> bool" where
  "is_excluded_target sid name \<longleftrightarrow>
     sid \<in> set excluded_EXACT \<or> list_ex (\<lambda>p. prefix p sid) excluded_PREFIXES \<or> suffix ''$'' name"

definition failure_code :: "u32 option \<Rightarrow> u32 option \<Rightarrow> u32" where
  "failure_code status sub_status =
     (case sub_status of
        Some c \<Rightarrow> if c \<noteq> 0 then c else (case status of Some s \<Rightarrow> s | None \<Rightarrow> 0)
      | None \<Rightarrow> (case status of Some s \<Rightarrow> s | None \<Rightarrow> 0))"

definition name_is_kept :: "u32 \<Rightarrow> bool" where
  "name_is_kept c \<longleftrightarrow> c \<in> set ACCOUNT_EXISTS_CODES"

definition logon_type_id :: "u32 option \<Rightarrow> u8" where
  "logon_type_id logon_type =
     (case logon_type of
        None \<Rightarrow> 99
      | Some t \<Rightarrow> if t = 0 then 1
                 else if 2 \<le> t \<and> t \<le> 5 \<or> 7 \<le> t \<and> t \<le> 13 then ucast t
                 else 99)"

definition auth_protocol_id :: "string \<Rightarrow> u8" where
  "auth_protocol_id package =
     (if package = NO_VALUE then 0
      else if eq_ignore_ascii_case package ''NTLM'' then 1
      else if eq_ignore_ascii_case package ''Kerberos'' then 2
      else 99)"

definition source :: "string option \<Rightarrow> string option \<Rightarrow> logon_source option" where
  "source ip_address workstation =
     do {
       txt \<leftarrow> ip_address;
       ip \<leftarrow> parse_ip (hd (split (CHR ''%'') txt));
       let ip = (case ip of V6 b \<Rightarrow> (case to_ipv4_mapped b of Some v4 \<Rightarrow> V4 v4 | None \<Rightarrow> V6 b)
                          | V4 b \<Rightarrow> V4 b);
           hostname = (case workstation of
                         Some w \<Rightarrow> if w \<noteq> [] \<and> w \<noteq> NO_VALUE then Some w else None
                       | None \<Rightarrow> None)
       in Some \<lparr>ls_ip = ip, ls_hostname = hostname\<rparr>
     }"

definition elevated :: "string option \<Rightarrow> bool option" where
  "elevated token =
     (if token = Some ''%%1842'' then Some True
      else if token = Some ''%%1843'' then Some False
      else None)"

definition hex_code :: "u32 \<Rightarrow> string" where
  "hex_code c = ''0x'' @ hex (unat c)"

definition read_is_exhausted :: "u32 \<Rightarrow> bool" where
  "read_is_exhausted c \<longleftrightarrow> c = 259 \<or> c = 4317"

section \<open>Decoding\<close>

definition unwrap_or_0 :: "u32 option \<Rightarrow> u32" where
  "unwrap_or_0 v = (case v of Some x \<Rightarrow> x | None \<Rightarrow> 0)"

definition build_logon_event ::
    "string \<Rightarrow> logon_status \<Rightarrow> string \<Rightarrow> string \<Rightarrow> u64 \<Rightarrow> raw_logon_record \<Rightarrow> logon_event" where
  "build_logon_event uuid status sid name timestamp_nanos raw =
     (let domain = value_or_dash (rl_target_domain_name raw);
          (user_name, domain, status_code, status_detail, elevated_token) =
            (case status of
               Success \<Rightarrow> (name, domain, None, None, elevated (rl_elevated_token raw))
             | Failure \<Rightarrow>
                 let kept = name_is_kept (failure_code (rl_status raw) (rl_sub_status raw))
                 in (if kept then name else WITHHELD, if kept then domain else WITHHELD,
                     Some (unwrap_or_0 (rl_status raw)), Some (unwrap_or_0 (rl_sub_status raw)), None));
          auth_protocol = value_or_dash (rl_auth_package raw)
      in \<lparr>le_event_id = uuid, le_status = status, le_user_uid = sid, le_user_name = user_name,
          le_user_domain = domain, le_logon_type_id = logon_type_id (rl_logon_type raw),
          le_auth_protocol = auth_protocol, le_auth_protocol_id = auth_protocol_id auth_protocol,
          le_src = source (rl_ip_address raw) (rl_workstation raw),
          le_status_code = status_code, le_status_detail = status_detail,
          le_elevated_token = elevated_token, le_timestamp_nanos = timestamp_nanos\<rparr>)"

definition logon_status_of :: "u16 \<Rightarrow> logon_status option" where
  "logon_status_of event_id =
     (if event_id = EVENT_LOGON_SUCCESS then Some Success
      else if event_id = EVENT_LOGON_FAILURE then Some Failure
      else None)"

definition decode_logon :: "string \<Rightarrow> raw_logon_record \<Rightarrow> logon_decode" where
  "decode_logon uuid raw =
     (case (logon_status_of (rl_event_id raw), rl_target_user_sid raw) of
        (None, _) \<Rightarrow> Unusable
      | (Some status, None) \<Rightarrow> Unusable
      | (Some status, Some sid) \<Rightarrow>
          let name = value_or_dash (rl_target_user_name raw)
          in if sid = [] then Unusable
             else if status = Success \<and> is_excluded_target sid name then Excluded
             else case filetime_to_unix_nanos (rl_filetime_100ns raw) of
               None \<Rightarrow> BeforeEpoch
             | Some timestamp_nanos \<Rightarrow>
                 Report (build_logon_event uuid status sid name timestamp_nanos raw))"

section \<open>Counting and dispatch\<close>

record unusable_sample =
  us_event_id :: "u16 option"
  us_win32_code :: "u32 option"

record logon_counters =
  lc_count :: u64
  lc_first :: "unusable_sample option"

definition logon_counters_new :: logon_counters where
  "logon_counters_new = \<lparr>lc_count = 0, lc_first = None\<rparr>"

definition record_unusable :: "unusable_sample \<Rightarrow> logon_counters \<Rightarrow> logon_counters" where
  "record_unusable sample c =
     \<lparr>lc_count = lc_count c + 1,
      lc_first = (case lc_first c of None \<Rightarrow> Some sample | Some s \<Rightarrow> Some s)\<rparr>"

definition unusable :: "logon_counters \<Rightarrow> u64" where
  "unusable c = lc_count c"

definition first_unusable :: "logon_counters \<Rightarrow> unusable_sample option" where
  "first_unusable c = lc_first c"

record unusable_monitor =
  um_logged_total :: u64
  um_last_log :: "instant option"

definition LOG_INTERVAL :: duration where
  "LOG_INTERVAL = secs 60"

definition unusable_monitor_new :: unusable_monitor where
  "unusable_monitor_new = \<lparr>um_logged_total = 0, um_last_log = None\<rparr>"

definition unusable_observe ::
    "logon_counters \<Rightarrow> instant \<Rightarrow> unusable_monitor \<Rightarrow> u64 \<times> unusable_monitor" where
  "unusable_observe c now m =
     (let tot = unusable c;
          delta = saturating_sub tot (um_logged_total m);
          due = (case um_last_log m of None \<Rightarrow> True | Some l \<Rightarrow> LOG_INTERVAL \<le> now - l)
      in if delta = 0 \<or> \<not> due then (0, m)
         else (delta, m\<lparr>um_logged_total := tot, um_last_log := Some now\<rparr>))"

definition dispatch_logon_record ::
    "string \<Rightarrow> instant \<Rightarrow> raw_logon_record \<Rightarrow> event_ring \<Rightarrow> logon_counters
     \<Rightarrow> event_ring \<times> logon_counters" where
  "dispatch_logon_record uuid now raw r c =
     (case decode_logon uuid raw of
        Report e \<Rightarrow> (enqueue_or_drop now (Logon e) r, c)
      | Excluded \<Rightarrow> (r, c)
      | Unusable \<Rightarrow> (r, record_unusable \<lparr>us_event_id = Some (rl_event_id raw), us_win32_code = None\<rparr> c)
      | BeforeEpoch \<Rightarrow> (r, c))"

section \<open>Names of failed logons\<close>

lemma build_logon_event_simps [simp]:
  "le_user_uid (build_logon_event uuid status sid name t raw) = sid"
  "le_status (build_logon_event uuid status sid name t raw) = status"
  by (simp_all add: build_logon_event_def Let_def split_beta)

lemma decode_logon_Report:
  assumes "decode_logon uuid raw = Report e"
  obtains status t where "rl_target_user_sid raw = Some (le_user_uid e)" "le_user_uid e \<noteq> []"
    "\<not> (status = Success \<and>
        is_excluded_target (le_user_uid e) (value_or_dash (rl_target_user_name raw)))"
    "e = build_logon_event uuid status (le_user_uid e) (value_or_dash (rl_target_user_name raw)) t raw"
  using assms
  by (fastforce simp: decode_logon_def Let_def split: option.splits if_splits)

lemma build_logon_event_withheld:
  "failure_code (rl_status raw) (rl_sub_status raw) \<notin> set ACCOUNT_EXISTS_CODES \<Longrightarrow>
   build_logon_event uuid Failure sid name t (raw\<lparr>rl_target_user_name := n, rl_target_domain_name := d\<rparr>)
   = build_logon_event uuid Failure sid name' t raw"
  by (simp add: build_logon_event_def name_is_kept_def Let_def)

text \<open>
  Claim C37. A failed logon whose code does not name an existing account gives
  nothing away about the name or the domain that was typed: replacing both by
  anything leaves the decoded event the same, so whatever was typed into the
  user-name field, a password included, never leaves the host.
\<close>

theorem withheld_name_noninterference:
  assumes "rl_event_id raw = EVENT_LOGON_FAILURE"
    and "failure_code (rl_status raw) (rl_sub_status raw) \<notin> set ACCOUNT_EXISTS_CODES"
  shows "decode_logon uuid (raw\<lparr>rl_target_user_name := n, rl_target_domain_name := d\<rparr>)
         = decode_logon uuid raw"
proof -
  have "logon_status_of (rl_event_id raw) = Some Failure"
    using assms(1) by (simp add: logon_status_of_def EVENT_LOGON_FAILURE_def EVENT_LOGON_SUCCESS_def)
  then show ?thesis
    by (auto simp: decode_logon_def Let_def intro!: build_logon_event_withheld [OF assms(2)]
        split: option.split)
qed

definition demo_logon :: "u16 \<Rightarrow> u32 \<Rightarrow> raw_logon_record" where
  "demo_logon ev sub =
     \<lparr>rl_event_id = ev, rl_version = 0, rl_filetime_100ns = 116444736000000001,
      rl_target_user_sid = Some ''S-1-0-0'', rl_target_user_name = Some ''hunter2'',
      rl_target_domain_name = Some ''CORP'', rl_logon_type = Some 3, rl_auth_package = Some ''NTLM'',
      rl_workstation = Some ''WS1'', rl_ip_address = None, rl_elevated_token = None,
      rl_status = Some 0xC000006D, rl_sub_status = Some sub\<rparr>"

theorem withheld_name_noninterference_witness:
  "decode_logon ''u'' (demo_logon 4625 0xC0000064)
   = decode_logon ''u'' ((demo_logon 4625 0xC0000064)
       \<lparr>rl_target_user_name := Some ''alice'', rl_target_domain_name := None\<rparr>)"
  using withheld_name_noninterference [of "demo_logon 4625 0xC0000064" "''u''" None "Some ''alice''"]
  by (simp add: demo_logon_def EVENT_LOGON_FAILURE_def failure_code_def ACCOUNT_EXISTS_CODES_def)

section \<open>The shape of a reported logon\<close>

definition logon_event_ok :: "logon_event \<Rightarrow> bool" where
  "logon_event_ok e \<longleftrightarrow>
     le_user_uid e \<noteq> [] \<and> le_user_name e \<noteq> [] \<and> le_user_domain e \<noteq> [] \<and> le_auth_protocol e \<noteq> [] \<and>
     (le_status e = Success \<longrightarrow>
        le_status_code e = None \<and> le_status_detail e = None \<and>
        \<not> is_excluded_target (le_user_uid e) (le_user_name e)) \<and>
     (le_status e = Failure \<longrightarrow>
        le_elevated_token e = None \<and> le_status_code e \<noteq> None \<and> le_status_detail e \<noteq> None \<and>
        ((le_user_name e = WITHHELD \<and> le_user_domain e = WITHHELD) \<or>
         name_is_kept (failure_code (le_status_code e) (le_status_detail e)))) \<and>
     le_logon_type_id e \<in> {1, 2, 3, 4, 5, 7, 8, 9, 10, 11, 12, 13, 99} \<and>
     le_auth_protocol_id e \<in> {0, 1, 2, 99} \<and>
     (case le_src e of None \<Rightarrow> True
                     | Some s \<Rightarrow> (case ls_ip s of V4 b \<Rightarrow> True | V6 b \<Rightarrow> to_ipv4_mapped b = None) \<and>
                                 ls_hostname s \<noteq> Some [] \<and> ls_hostname s \<noteq> Some NO_VALUE)"

lemma value_or_dash_nonempty [simp]: "value_or_dash v \<noteq> []"
  by (simp add: value_or_dash_def NO_VALUE_def split: option.split)

lemma logon_type_id_range: "logon_type_id t \<in> {1, 2, 3, 4, 5, 7, 8, 9, 10, 11, 12, 13, 99}"
proof (cases "\<exists>x. t = Some x \<and> (2 \<le> x \<and> x \<le> 5 \<or> 7 \<le> x \<and> x \<le> 13)")
  case True
  then obtain x where x: "t = Some x" "2 \<le> x \<and> x \<le> 5 \<or> 7 \<le> x \<and> x \<le> 13" by blast
  define n where "n = unat x"
  have xn: "x = of_nat n" by (simp add: n_def)
  have "2 \<le> n \<and> n \<le> 5 \<or> 7 \<le> n \<and> n \<le> 13"
    using x(2) by (auto simp: n_def word_le_nat_alt)
  then have "n \<in> {2, 3, 4, 5, 7, 8, 9, 10, 11, 12, 13}" by auto
  then show ?thesis
    unfolding x xn by (auto simp: logon_type_id_def)
qed (auto simp: logon_type_id_def split: option.split)

lemma auth_protocol_id_range: "auth_protocol_id p \<in> {0, 1, 2, 99}"
  by (simp add: auth_protocol_id_def)

lemma source_ok:
  assumes "source ip ws = Some s"
  shows "(case ls_ip s of V4 b \<Rightarrow> True | V6 b \<Rightarrow> to_ipv4_mapped b = None) \<and>
         ls_hostname s \<noteq> Some [] \<and> ls_hostname s \<noteq> Some NO_VALUE"
proof -
  obtain a where "s = \<lparr>ls_ip = (case a of V6 b \<Rightarrow> (case to_ipv4_mapped b of Some v4 \<Rightarrow> V4 v4 | None \<Rightarrow> V6 b)
                                        | V4 b \<Rightarrow> V4 b),
        ls_hostname = (case ws of Some w \<Rightarrow> if w \<noteq> [] \<and> w \<noteq> NO_VALUE then Some w else None
                                | None \<Rightarrow> None)\<rparr>"
    using assms unfolding source_def bind_eq_Some_conv Let_def by blast
  then show ?thesis
    by (cases a) (auto split: option.split)
qed

lemma failure_code_default:
  "failure_code (Some (unwrap_or_0 s)) (Some (unwrap_or_0 d)) = failure_code s d"
  by (simp add: failure_code_def unwrap_or_0_def split: option.split)

lemma build_logon_event_ok:
  assumes "sid \<noteq> []" "name \<noteq> []" "\<not> (status = Success \<and> is_excluded_target sid name)"
  shows "logon_event_ok (build_logon_event uuid status sid name t raw)"
proof -
  have "case source (rl_ip_address raw) (rl_workstation raw) of None \<Rightarrow> True
        | Some s \<Rightarrow> (case ls_ip s of V4 b \<Rightarrow> True | V6 b \<Rightarrow> to_ipv4_mapped b = None) \<and>
                    ls_hostname s \<noteq> Some [] \<and> ls_hostname s \<noteq> Some NO_VALUE"
    using source_ok by (auto split: option.split)
  then show ?thesis
    using assms logon_type_id_range [of "rl_logon_type raw"]
      auth_protocol_id_range [of "value_or_dash (rl_auth_package raw)"]
    unfolding logon_event_ok_def build_logon_event_def Let_def
    by (cases status) (simp_all add: failure_code_default WITHHELD_def)
qed

text \<open>
  Every logon that is reported has the shape the wire contract
  promises: a SID, a name, a domain and a package; status codes exactly on
  failures and the elevated token only on successes; no success of a system,
  virtual or computer account; the name and domain of a failure withheld
  unless its code names an existing account; type and protocol ids within
  their tables; and a source address that is never an IPv4-mapped IPv6 one.
\<close>

lemma reported_logon_ok:
  assumes "decode_logon uuid raw = Report e"
  shows "logon_event_ok e"
proof -
  obtain status t where dec: "le_user_uid e \<noteq> []"
      "\<not> (status = Success \<and>
          is_excluded_target (le_user_uid e) (value_or_dash (rl_target_user_name raw)))"
      "e = build_logon_event uuid status (le_user_uid e) (value_or_dash (rl_target_user_name raw)) t raw"
    using decode_logon_Report [OF assms] by metis
  have "logon_event_ok (build_logon_event uuid status (le_user_uid e)
          (value_or_dash (rl_target_user_name raw)) t raw)"
    using dec(1,2) by (intro build_logon_event_ok) simp_all
  with dec(3) show ?thesis by simp
qed

section \<open>Unusable records\<close>

lemma unusable_iff:
  "decode_logon uuid raw = Unusable \<longleftrightarrow>
     rl_event_id raw \<notin> {EVENT_LOGON_SUCCESS, EVENT_LOGON_FAILURE} \<or>
     rl_target_user_sid raw = None \<or> rl_target_user_sid raw = Some []"
  by (auto simp: decode_logon_def logon_status_of_def Let_def split: option.splits if_splits)

lemma record_unusable_first:
  "lc_first (record_unusable s c) = (case lc_first c of None \<Rightarrow> Some s | x \<Rightarrow> x)"
  by (simp add: record_unusable_def split: option.split)

text \<open>A monitor reports an increase once, and two reports are an interval apart.\<close>

lemma unusable_observe_reports:
  "unusable_observe c now m = (delta, m') \<Longrightarrow> delta \<noteq> 0 \<Longrightarrow>
   unat (um_logged_total m) + unat delta = unat (unusable c) \<and>
   um_logged_total m' = unusable c \<and> um_last_log m' = Some now \<and>
   (\<forall>l. um_last_log m = Some l \<longrightarrow> LOG_INTERVAL \<le> now - l)"
  by (auto simp: unusable_observe_def Let_def saturating_sub_def unat_sub word_le_nat_alt
      split: if_splits option.splits)

end
