(* ===== verification/Device_Paths.thy ===== *)
theory Device_Paths
  imports CG_Prelude
begin

text \<open>
  Translation of kernel device paths to Win32 paths (\<open>paths.rs\<close>). A prefix test
  on bytes agrees with \<open>str::get\<close>: where the bytes before an index are those of
  a complete string, up to ASCII case, the index is a character boundary.
\<close>

section \<open>The map\<close>

definition device_root :: string where
  "device_root = [bslash] @ ''Device'' @ [bslash]"

definition UNC_PREFIXES :: "string list" where
  "UNC_PREFIXES =
     [[bslash] @ ''Device'' @ [bslash] @ ''Mup'' @ [bslash],
      [bslash] @ ''??'' @ [bslash] @ ''UNC'' @ [bslash]]"

type_synonym device_path_map = "(string \<times> string) list"

definition paths_empty :: device_path_map where
  "paths_empty = []"

definition from_pairs :: "(string \<times> string) list \<Rightarrow> device_path_map" where
  "from_pairs pairs =
     sort_key (\<lambda>(device, _). - int (length device))
       (filter (\<lambda>(device, _). device \<noteq> [])
         (map (\<lambda>(device, drive). (trim_end_matches bslash device, drive)) pairs))"

definition entries :: "device_path_map \<Rightarrow> (string \<times> string) list" where
  "entries m = m"

definition paths_len :: "device_path_map \<Rightarrow> usize" where
  "paths_len m = length m"

definition paths_is_empty :: "device_path_map \<Rightarrow> bool" where
  "paths_is_empty m \<longleftrightarrow> m = []"

definition strip_prefix_ignore_ascii_case :: "string \<Rightarrow> string \<Rightarrow> string option" where
  "strip_prefix_ignore_ascii_case path pre =
     (if length pre \<le> length path \<and> eq_ignore_ascii_case (take (length pre) path) pre
      then Some (drop (length pre) path) else None)"

fun translate_unc :: "string list \<Rightarrow> string \<Rightarrow> string option" where
  "translate_unc [] path = None"
| "translate_unc (unc # uncs) path =
     (case strip_prefix_ignore_ascii_case path unc of
        Some rest \<Rightarrow> Some ([bslash, bslash] @ rest)
      | None \<Rightarrow> translate_unc uncs path)"

fun translate_device :: "device_path_map \<Rightarrow> string \<Rightarrow> string option" where
  "translate_device [] path = None"
| "translate_device ((device, drive) # m) path =
     (case strip_prefix_ignore_ascii_case path device of
        Some rest \<Rightarrow>
          if rest = [] \<or> prefix [bslash] rest then Some (drive @ rest) else translate_device m path
      | None \<Rightarrow> translate_device m path)"

definition translate :: "device_path_map \<Rightarrow> string \<Rightarrow> string" where
  "translate m path =
     (case translate_unc UNC_PREFIXES path of
        Some p \<Rightarrow> p
      | None \<Rightarrow> (case translate_device m path of Some p \<Rightarrow> p | None \<Rightarrow> path))"

text \<open>
  The map of the running system: \<open>QueryDosDeviceW\<close>, a parameter, gives the
  current device of a drive letter, if it has one.
\<close>

definition from_system :: "(string \<Rightarrow> string option) \<Rightarrow> device_path_map" where
  "from_system query_dos_device =
     from_pairs
       (concat (map (\<lambda>letter.
          let drive = [char_of letter, CHR '':'']
          in case query_dos_device drive of
               None \<Rightarrow> []
             | Some target \<Rightarrow> if prefix device_root target then [(target, drive)] else [])
        [65..<91]))"

section \<open>Paths left verbatim\<close>

type_synonym unresolved_path_log = "string list"

definition unresolved_path_log_new :: unresolved_path_log where
  "unresolved_path_log_new = []"

definition note_unresolved ::
    "string \<Rightarrow> string \<Rightarrow> unresolved_path_log \<Rightarrow> string option \<times> unresolved_path_log" where
  "note_unresolved original rendered seen =
     (if original \<noteq> rendered \<or> \<not> prefix device_root original then (None, seen)
      else
        let pre = join [bslash] (take 3 (splitn 4 bslash original))
        in if pre \<in> set seen then (None, seen) else (Some pre, pre # seen))"

section \<open>The longest device prefix wins\<close>

definition device_matches :: "string \<Rightarrow> string \<Rightarrow> string \<Rightarrow> bool" where
  "device_matches device path rest \<longleftrightarrow>
     (\<exists>h. path = h @ rest \<and> eq_ignore_ascii_case h device) \<and> (rest = [] \<or> hd rest = bslash)"

lemma strip_prefix_ignore_ascii_case_Some:
  "strip_prefix_ignore_ascii_case path pre = Some rest \<longleftrightarrow>
     (\<exists>h. path = h @ rest \<and> eq_ignore_ascii_case h pre)"
proof
  assume "strip_prefix_ignore_ascii_case path pre = Some rest"
  then show "\<exists>h. path = h @ rest \<and> eq_ignore_ascii_case h pre"
    by (intro exI [of _ "take (length pre) path"])
      (auto simp: strip_prefix_ignore_ascii_case_def split: if_splits)
next
  assume "\<exists>h. path = h @ rest \<and> eq_ignore_ascii_case h pre"
  then obtain h where "path = h @ rest" "eq_ignore_ascii_case h pre" "length h = length pre"
    using length_ascii_lower_eq by blast
  then show "strip_prefix_ignore_ascii_case path pre = Some rest"
    by (simp add: strip_prefix_ignore_ascii_case_def flip: \<open>length h = length pre\<close>)
qed

lemma device_matches_iff:
  "device_matches device path rest \<longleftrightarrow>
     strip_prefix_ignore_ascii_case path device = Some rest \<and> (rest = [] \<or> prefix [bslash] rest)"
  by (cases rest) (auto simp: device_matches_def strip_prefix_ignore_ascii_case_Some)

lemma translate_device_hit:
  "device_matches d path rest \<Longrightarrow> translate_device ((d, v) # m) path = Some (v @ rest)"
  by (simp add: device_matches_iff)

lemma translate_device_miss:
  "(\<And>r. \<not> device_matches d path r) \<Longrightarrow> translate_device ((d, v) # m) path = translate_device m path"
  by (auto simp: device_matches_iff split: option.split)

lemma translate_device_longest:
  assumes "sorted (map (\<lambda>(device, _). - int (length device)) m)"
    and "\<exists>d v r. (d, v) \<in> set m \<and> device_matches d path r"
  shows "\<exists>device drive rest. (device, drive) \<in> set m \<and> device_matches device path rest \<and>
           translate_device m path = Some (drive @ rest) \<and>
           (\<forall>d v r. (d, v) \<in> set m \<and> device_matches d path r \<longrightarrow> length d \<le> length device)"
  using assms
proof (induction m)
  case (Cons e m)
  obtain device drive where e: "e = (device, drive)" by (cases e)
  show ?case
  proof (cases "\<exists>r. device_matches device path r")
    case True
    then obtain r where r: "device_matches device path r" by blast
    have "length d \<le> length device" if "(d, v) \<in> set (e # m)" for d v
      using Cons.prems(1) e that by auto
    with r e translate_device_hit [OF r, of drive m] show ?thesis
      by (intro exI [of _ device] exI [of _ drive] exI [of _ r]) auto
  next
    case False
    with Cons.prems e have "\<exists>d v r. (d, v) \<in> set m \<and> device_matches d path r"
      by auto
    with Cons e obtain d v r where tail: "(d, v) \<in> set m" "device_matches d path r"
        "translate_device m path = Some (v @ r)"
        "\<forall>d' v' r'. (d', v') \<in> set m \<and> device_matches d' path r' \<longrightarrow> length d' \<le> length d"
      by auto
    moreover have "translate_device (e # m) path = translate_device m path"
      using False e translate_device_miss by blast
    ultimately show ?thesis
      using False e by (intro exI [of _ d] exI [of _ v] exI [of _ r]) auto
  qed
qed simp

lemma translate_device_None:
  "(\<And>d v r. (d, v) \<in> set m \<Longrightarrow> \<not> device_matches d path r) \<Longrightarrow> translate_device m path = None"
proof (induction m)
  case (Cons e m)
  obtain device drive where e: "e = (device, drive)" by (cases e)
  then have "\<not> device_matches device path r" for r
    using Cons.prems [of device drive] by simp
  then have "translate_device (e # m) path = translate_device m path"
    unfolding e by (rule translate_device_miss)
  also have "\<dots> = None"
    using Cons by (meson list.set_intros(2))
  finally show ?case .
qed simp

lemma sorted_from_pairs: "sorted (map (\<lambda>(device, _). - int (length device)) (from_pairs pairs))"
  by (simp add: from_pairs_def)

lemma set_from_pairs:
  "set (from_pairs pairs) =
     {(trim_end_matches bslash d, v) | d v. (d, v) \<in> set pairs \<and> trim_end_matches bslash d \<noteq> []}"
  by (auto simp: from_pairs_def)

text \<open>
  A path under no UNC prefix is rewritten with the drive of the
  longest device prefix that ends at a separator, letters compared without
  case, and the rest of the path is kept as it is; a path that no device
  prefix matches is returned verbatim.
\<close>

lemma translate_longest_prefix:
  assumes "translate_unc UNC_PREFIXES path = None"
  shows "(\<exists>device drive rest. (device, drive) \<in> set (from_pairs pairs)
            \<and> device_matches device path rest
            \<and> translate (from_pairs pairs) path = drive @ rest
            \<and> (\<forall>d v r. (d, v) \<in> set (from_pairs pairs) \<and> device_matches d path r
                 \<longrightarrow> length d \<le> length device))
         \<or> (\<forall>d v r. (d, v) \<in> set (from_pairs pairs) \<longrightarrow> \<not> device_matches d path r)
            \<and> translate (from_pairs pairs) path = path"
proof (cases "\<exists>d v r. (d, v) \<in> set (from_pairs pairs) \<and> device_matches d path r")
  case True
  then obtain device drive rest where "(device, drive) \<in> set (from_pairs pairs)"
      "device_matches device path rest"
      "translate_device (from_pairs pairs) path = Some (drive @ rest)"
      "\<forall>d v r. (d, v) \<in> set (from_pairs pairs) \<and> device_matches d path r \<longrightarrow> length d \<le> length device"
    using translate_device_longest [OF sorted_from_pairs] by blast
  then show ?thesis
    using assms by (intro disjI1 exI [of _ device] exI [of _ drive] exI [of _ rest])
      (simp add: translate_def)
next
  case False
  then have "translate_device (from_pairs pairs) path = None"
    by (intro translate_device_None) blast
  with False assms show ?thesis
    by (intro disjI2 conjI) (blast, simp add: translate_def)
qed

definition demo_pairs :: "(string \<times> string) list" where
  "demo_pairs = [(device_root @ ''HarddiskVolume1'', ''C:''),
                 (device_root @ ''HarddiskVolume1'' @ [bslash] @ ''mnt'', ''D:'')]"

section \<open>UNC paths and logging\<close>

lemma unc_prefixes_exclusive:
  assumes "strip_prefix_ignore_ascii_case path (UNC_PREFIXES ! 1) = Some rest"
  shows "strip_prefix_ignore_ascii_case path (UNC_PREFIXES ! 0) = None"
proof -
  have lens: "length (UNC_PREFIXES ! 0) = 12" "length (UNC_PREFIXES ! 1) = 8"
    and low: "map ascii_lower (UNC_PREFIXES ! 0) ! 1 \<noteq> map ascii_lower (UNC_PREFIXES ! 1) ! 1"
    by code_simp+
  have second: "ascii_lower (path ! 1) = map ascii_lower u ! 1"
    if "strip_prefix_ignore_ascii_case path u = Some r" "1 < length u" for u r
  proof -
    have "map ascii_lower (take (length u) path) ! 1 = map ascii_lower u ! 1" "length u \<le> length path"
      using that by (auto simp: strip_prefix_ignore_ascii_case_def eq_ignore_ascii_case_def split: if_splits)
    with that(2) show ?thesis by simp
  qed
  show ?thesis
    using second [OF assms] second [of "UNC_PREFIXES ! 0"] lens low
    by (cases "strip_prefix_ignore_ascii_case path (UNC_PREFIXES ! 0)") auto
qed

lemma translate_unc_path:
  assumes "strip_prefix_ignore_ascii_case path pre = Some rest" "pre \<in> set UNC_PREFIXES"
  shows "translate m path = [bslash, bslash] @ rest"
proof -
  have "UNC_PREFIXES = [UNC_PREFIXES ! 0, UNC_PREFIXES ! 1]"
    by (simp add: UNC_PREFIXES_def)
  then have "translate_unc UNC_PREFIXES path
      = translate_unc [UNC_PREFIXES ! 0, UNC_PREFIXES ! 1] path" "pre \<in> {UNC_PREFIXES ! 0, UNC_PREFIXES ! 1}"
    using assms(2) by (simp_all add: UNC_PREFIXES_def)
  then have "translate_unc UNC_PREFIXES path = Some ([bslash, bslash] @ rest)"
    using assms(1) unc_prefixes_exclusive [of path rest] by auto
  then show ?thesis
    by (simp add: translate_def)
qed

lemma note_unresolved_once:
  "note_unresolved o1 r1 seen = (Some pre, seen') \<Longrightarrow>
   fst (note_unresolved o2 r2 seen') \<noteq> Some pre"
  by (auto simp: note_unresolved_def Let_def split: if_splits)

lemma note_unresolved_distinct:
  "distinct seen \<Longrightarrow> distinct (snd (note_unresolved orig rend seen))"
  by (simp add: note_unresolved_def Let_def)

end
