(* ===== verification/Cges_Emit.thy ===== *)
theory Cges_Emit
  imports Logon_Decode Device_Paths
begin

text \<open>
  Rendering of captured events to the CGES wire shapes (\<open>cges/emit.rs\<close>,
  \<open>etw/uid.rs\<close>). The JSON writer is \<open>serde\<close>'s; the records here are the values
  it is given, member by member.
\<close>

section \<open>Wire shapes\<close>

record cges_process =
  cp_pid :: u32
  cp_uid :: string
  cp_name :: string
  cp_created_time :: "string option"
  cp_exit_code :: "i32 option"
  cp_parent_pid :: "u32 option"
  cp_command_line :: string
  cp_subject_user_sid :: string
  cp_image_file_name :: string

record cges_process_activity =
  pa_event_id :: string
  pa_class_uid :: u32
  pa_activity_id :: activity_id
  pa_process :: cges_process
  pa_time :: string

record cges_network_endpoint =
  cn_ip :: string
  cn_port :: u16

record cges_connection_info =
  ci_protocol_name :: string
  ci_direction :: direction

record cges_actor_process =
  ap_pid :: u32
  ap_uid :: "string option"

record cges_actor =
  ac_process :: cges_actor_process

record cges_network_activity =
  na_event_id :: string
  na_class_uid :: u32
  na_activity_id :: u32
  na_time :: string
  na_src_endpoint :: cges_network_endpoint
  na_dst_endpoint :: cges_network_endpoint
  na_connection_info :: cges_connection_info
  na_actor :: cges_actor

record cges_logon_user =
  lu_uid :: string
  lu_name :: string
  lu_domain :: string

record cges_logon_source =
  lsrc_ip :: string
  lsrc_hostname :: "string option"

record cges_authentication =
  au_event_id :: string
  au_class_uid :: u32
  au_category_uid :: u32
  au_activity_id :: u32
  au_time :: string
  au_status_id :: u32
  au_user :: cges_logon_user
  au_logon_type_id :: u8
  au_auth_protocol :: string
  au_auth_protocol_id :: u8
  au_src_endpoint :: "cges_logon_source option"
  au_status_code :: "string option"
  au_status_detail :: "string option"
  au_cg_elevated_token :: "bool option"

datatype cges_event =
    CgesProcessEvent cges_process_activity
  | CgesNetworkEvent cges_network_activity
  | CgesAuthenticationEvent cges_authentication

definition CGES_PROCESS_ACTIVITY_CLASS_UID :: u32 where "CGES_PROCESS_ACTIVITY_CLASS_UID = 1007"
definition CGES_NETWORK_ACTIVITY_CLASS_UID :: u32 where "CGES_NETWORK_ACTIVITY_CLASS_UID = 4001"
definition NETWORK_ACTIVITY_OPEN :: u32 where "NETWORK_ACTIVITY_OPEN = 1"
definition CGES_AUTHENTICATION_CLASS_UID :: u32 where "CGES_AUTHENTICATION_CLASS_UID = 3002"
definition CGES_IAM_CATEGORY_UID :: u32 where "CGES_IAM_CATEGORY_UID = 3"
definition AUTHENTICATION_LOGON :: u32 where "AUTHENTICATION_LOGON = 1"

section \<open>Rendering\<close>

definition format_process_uid :: "string \<Rightarrow> u32 \<Rightarrow> u64 \<Rightarrow> string" where
  "format_process_uid agent_id pid created_time_nanos =
     agent_id @ '':'' @ dec (unat pid) @ '':'' @ dec (unat created_time_nanos)"

definition derive_process_name :: "string \<Rightarrow> string" where
  "derive_process_name image_file_name = last (split_on (\<lambda>c. c = bslash \<or> c = CHR ''/'') image_file_name)"

definition build_process_activity ::
    "captured_event \<Rightarrow> u64 option \<Rightarrow> string \<Rightarrow> string \<Rightarrow> cges_process_activity" where
  "build_process_activity e cached_created_time image_file_name agent_id =
     (let parent_pid = (if ce_parent_pid e = 0 then None else Some (ce_parent_pid e));
          process_name = derive_process_name image_file_name;
          uid_nanos = (case cached_created_time of Some n \<Rightarrow> n | None \<Rightarrow> ce_etw_timestamp_nanos e);
          process_uid = format_process_uid agent_id (ce_pid e) uid_nanos
      in \<lparr>pa_event_id = ce_event_id e, pa_class_uid = CGES_PROCESS_ACTIVITY_CLASS_UID,
          pa_activity_id = ce_activity_id e,
          pa_process = \<lparr>cp_pid = ce_pid e, cp_uid = process_uid, cp_name = process_name,
             cp_created_time = map_option (\<lambda>n. dec (unat n)) cached_created_time,
             cp_exit_code = ce_exit_status e, cp_parent_pid = parent_pid,
             cp_command_line = ce_command_line e, cp_subject_user_sid = ce_subject_user_sid e,
             cp_image_file_name = image_file_name\<rparr>,
          pa_time = dec (unat (ce_etw_timestamp_nanos e))\<rparr>)"

definition render_process_activity ::
    "captured_event \<Rightarrow> string \<Rightarrow> device_path_map \<Rightarrow> cges_process_activity" where
  "render_process_activity e agent_id paths =
     build_process_activity e (ce_created_time_nanos e) (translate paths (ce_image_file_name e)) agent_id"

definition emit_process_activity :: "captured_event \<Rightarrow> string \<Rightarrow> cges_process_activity" where
  "emit_process_activity e agent_id = render_process_activity e agent_id paths_empty"

definition emit_process_activity_with_cache ::
    "captured_event \<Rightarrow> u64 option \<Rightarrow> string \<Rightarrow> cges_process_activity" where
  "emit_process_activity_with_cache e cached_created_time agent_id =
     build_process_activity e cached_created_time
       (translate paths_empty (ce_image_file_name e)) agent_id"

definition render_network_activity :: "network_event \<Rightarrow> string \<Rightarrow> cges_network_activity" where
  "render_network_activity e agent_id =
     \<lparr>na_event_id = ne_event_id e, na_class_uid = CGES_NETWORK_ACTIVITY_CLASS_UID,
      na_activity_id = NETWORK_ACTIVITY_OPEN,
      na_time = dec (unat (ne_etw_timestamp_nanos e)),
      na_src_endpoint = \<lparr>cn_ip = ip_to_string (sa_ip (ne_src e)), cn_port = sa_port (ne_src e)\<rparr>,
      na_dst_endpoint = \<lparr>cn_ip = ip_to_string (sa_ip (ne_dst e)), cn_port = sa_port (ne_dst e)\<rparr>,
      na_connection_info = \<lparr>ci_protocol_name = ''tcp'', ci_direction = ne_direction e\<rparr>,
      na_actor = \<lparr>ac_process = \<lparr>ap_pid = ne_pid e,
        ap_uid = map_option (\<lambda>n. format_process_uid agent_id (ne_pid e) n) (ne_created_time_nanos e)\<rparr>\<rparr>\<rparr>"

definition render_authentication :: "logon_event \<Rightarrow> cges_authentication" where
  "render_authentication e =
     (let failure = (le_status e = Failure)
      in \<lparr>au_event_id = le_event_id e, au_class_uid = CGES_AUTHENTICATION_CLASS_UID,
          au_category_uid = CGES_IAM_CATEGORY_UID, au_activity_id = AUTHENTICATION_LOGON,
          au_time = dec (unat (le_timestamp_nanos e)),
          au_status_id = (if failure then 2 else 1),
          au_user = \<lparr>lu_uid = le_user_uid e, lu_name = le_user_name e, lu_domain = le_user_domain e\<rparr>,
          au_logon_type_id = le_logon_type_id e, au_auth_protocol = le_auth_protocol e,
          au_auth_protocol_id = le_auth_protocol_id e,
          au_src_endpoint = map_option
            (\<lambda>src. \<lparr>lsrc_ip = ip_to_string (ls_ip src), lsrc_hostname = ls_hostname src\<rparr>) (le_src e),
          au_status_code = (if failure then Some (hex_code (unwrap_or_0 (le_status_code e))) else None),
          au_status_detail = (if failure then Some (hex_code (unwrap_or_0 (le_status_detail e))) else None),
          au_cg_elevated_token = (if failure then None else le_elevated_token e)\<rparr>)"

section \<open>The process uid\<close>

lemma colon_not_digit: "CHR '':'' \<notin> set (dec n)"
  using dec_digits [of "CHR '':''" n] by (auto simp: is_ascii_digit_def)

lemma append_sep_inject:
  "c \<notin> set xs \<Longrightarrow> c \<notin> set ys \<Longrightarrow> xs @ c # us = ys @ c # vs \<longleftrightarrow> xs = ys \<and> us = vs"
proof (induction xs arbitrary: ys)
  case Nil
  then show ?case by (cases ys) auto
next
  case (Cons x xs)
  then show ?case by (cases ys) auto
qed

text \<open>
  The process uid identifies a process: two uids of agents whose ids
  have the same length are equal only for the same agent, the same PID and
  the same creation time.
\<close>

lemma format_process_uid_inject:
  assumes "length a = length a'"
    and "format_process_uid a p n = format_process_uid a' p' n'"
  shows "a = a' \<and> p = p' \<and> n = n'"
proof -
  have "a = a'" and
    "dec (unat p) @ CHR '':'' # dec (unat n) = dec (unat p') @ CHR '':'' # dec (unat n')"
    using assms by (simp_all add: format_process_uid_def)
  then show ?thesis
    by (simp add: append_sep_inject [OF colon_not_digit colon_not_digit])
qed

lemma format_process_uid_length:
  "length (format_process_uid a p n) \<le> length a + 32"
proof -
  have "length (dec (unat p)) \<le> 10" using unat_bound [of p] by (intro length_dec) auto
  moreover have "length (dec (unat n)) \<le> 20" using unat_bound [of n] by (intro length_dec) auto
  ultimately show ?thesis by (simp add: format_process_uid_def)
qed

text \<open>
  With the 36-character agent id, a process uid has at most 68
  characters, and 68 is reached: by the greatest PID with a creation time of
  twenty digits.
\<close>

lemma format_process_uid_bound:
  assumes "length a = 36"
  shows "length (format_process_uid a p n) \<le> 68 \<and> length (format_process_uid a (- 1) (- 1)) = 68"
proof -
  have "length (dec 4294967295) = 10" "length (dec 18446744073709551615) = 20"
    by (simp_all add: dec_def radix.simps)
  moreover have "unat (- 1 :: u32) = 4294967295" "unat (- 1 :: u64) = 18446744073709551615"
    by (simp_all add: unat_max_word)
  ultimately show ?thesis
    using format_process_uid_length [of a p n] assms by (simp add: format_process_uid_def)
qed

section \<open>The process name\<close>

lemma last_split_on_suffix: "suffix (last (split_on p s)) s"
  by (induction s rule: rev_induct) (simp_all add: split_on_snoc)

lemma last_split_on_Nil: "last (split_on p s) = [] \<longleftrightarrow> s = [] \<or> p (last s)"
  by (induction s rule: rev_induct) (simp_all add: split_on_snoc)

text \<open>
  The process name is the part of the image path after its last
  separator: a suffix of the path, with no separator in it, and empty exactly
  when the path is empty or ends with a separator.
\<close>

lemma derive_process_name_spec:
  "suffix (derive_process_name s) s
   \<and> bslash \<notin> set (derive_process_name s) \<and> CHR ''/'' \<notin> set (derive_process_name s)
   \<and> (derive_process_name s = [] \<longleftrightarrow> s = [] \<or> last s = bslash \<or> last s = CHR ''/'')"
proof -
  let ?p = "\<lambda>c. c = bslash \<or> c = CHR ''/''"
  have "last (split_on ?p s) \<in> set (split_on ?p s)" by simp
  then have "\<not> ?p x" if "x \<in> set (last (split_on ?p s))" for x
    using split_on_pieces that by blast
  then show ?thesis
    unfolding derive_process_name_def
    using last_split_on_suffix [of ?p s] last_split_on_Nil [of ?p s] by blast
qed

text \<open>
  The ring's filter does not exclude every event that renders to an
  empty process name: an image path that ends with a separator is enqueued,
  and its rendered name is empty.
\<close>

lemma empty_name_reaches_wire:
  assumes "ce_image_file_name e = [bslash] @ ''Device'' @ [bslash]" and "0 < er_capacity r"
  shows "Process e \<in> set (snapshot_events (enqueue_or_drop now (Process e) r))
         \<and> cp_name (pa_process (render_process_activity e agent_id paths_empty)) = []"
proof -
  have "translate paths_empty (ce_image_file_name e) = [bslash] @ ''Device'' @ [bslash]"
    unfolding assms(1) by code_simp
  moreover have "derive_process_name ([bslash] @ ''Device'' @ [bslash]) = []"
    by code_simp
  ultimately show ?thesis
    using assms(1)
    by (simp add: ring.contents_put render_process_activity_def build_process_activity_def Let_def)
qed

section \<open>Rendered times and codes\<close>

lemma rendered_time_exact:
  "digits_value (pa_time (render_process_activity e a m)) = unat (ce_etw_timestamp_nanos e)"
  "digits_value (na_time (render_network_activity n a)) = unat (ne_etw_timestamp_nanos n)"
  "digits_value (au_time (render_authentication l)) = unat (le_timestamp_nanos l)"
  by (simp_all add: render_process_activity_def build_process_activity_def render_network_activity_def
      render_authentication_def Let_def digits_value_dec)

end
