(* ===== verification/Envelope.thy ===== *)
theory Envelope
  imports Agent_Errors Cges_Emit "HOL-Library.Monad_Syntax"
begin

text \<open>
  The heartbeat envelope (\<open>envelope.rs\<close>), the signed outer envelope
  (\<open>signing.rs\<close>, \<open>canonical.rs\<close>) and the JSON values their derived
  \<open>Serialize\<close> and \<open>Deserialize\<close> implementations write and read, event shapes of
  \<open>cges/emit.rs\<close> included. The canonical writer, base64, the random source and
  the signature scheme are other crates' code: they are arguments.
\<close>

section \<open>Envelopes\<close>

record agent_block =
  ab_agent_id :: string
  ab_agent_version :: string
  ab_agent_platform :: string
  ab_agent_hostname :: string

datatype heartbeat_status = Online | GoingOffline

definition ENVELOPE_VERSION :: string where
  "ENVELOPE_VERSION = ''0.1.0''"

record heartbeat_envelope =
  he_envelope_version :: string
  he_agent :: agent_block
  he_sequence_number :: u64
  he_sent_at :: string
  he_status :: heartbeat_status
  he_uptime_seconds :: u64
  he_events :: "cges_event list"

definition build_envelope ::
    "agent_block \<Rightarrow> u64 \<Rightarrow> instant \<Rightarrow> instant \<Rightarrow> string \<Rightarrow> heartbeat_status \<Rightarrow> heartbeat_envelope" where
  "build_envelope agent sequence_number start_time now sent_at status =
     \<lparr>he_envelope_version = ENVELOPE_VERSION, he_agent = agent,
      he_sequence_number = sequence_number, he_sent_at = sent_at, he_status = status,
      he_uptime_seconds = of_nat ((now - start_time) div secs 1), he_events = []\<rparr>"

definition OUTER_ENVELOPE_VERSION :: string where
  "OUTER_ENVELOPE_VERSION = ''0.1.0''"

definition NONCE_LEN :: usize where
  "NONCE_LEN = 16"

record outer_envelope =
  oe_outer_envelope_version :: string
  oe_agent_id :: string
  oe_sequence_number :: u64
  oe_nonce :: string
  oe_sent_at :: string
  oe_body :: heartbeat_envelope
  oe_signature :: string

section \<open>JSON values written\<close>

datatype json =
    JNull
  | JBool bool
  | JNum int
  | JStr string
  | JArr "json list"
  | JObj "(string \<times> json) list"

definition nullable :: "('a \<Rightarrow> json) \<Rightarrow> 'a option \<Rightarrow> json" where
  "nullable f v = (case v of None \<Rightarrow> JNull | Some x \<Rightarrow> f x)"

definition member_if :: "string \<Rightarrow> ('a \<Rightarrow> json) \<Rightarrow> 'a option \<Rightarrow> (string \<times> json) list" where
  "member_if k f v = (case v of None \<Rightarrow> [] | Some x \<Rightarrow> [(k, f x)])"

abbreviation JWord :: "'w::len word \<Rightarrow> json" where
  "JWord w \<equiv> JNum (uint w)"

definition process_json :: "cges_process \<Rightarrow> json" where
  "process_json p = JObj
     ([(''pid'', JWord (cp_pid p)), (''uid'', JStr (cp_uid p)), (''name'', JStr (cp_name p)),
       (''created_time'', nullable JStr (cp_created_time p))]
      @ member_if ''exit_code'' (\<lambda>c. JNum (sint c)) (cp_exit_code p)
      @ [(''parent_pid'', nullable JWord (cp_parent_pid p)),
         (''command_line'', JStr (cp_command_line p)),
         (''subject_user_sid'', JStr (cp_subject_user_sid p)),
         (''image_file_name'', JStr (cp_image_file_name p))])"

definition process_activity_json :: "cges_process_activity \<Rightarrow> json" where
  "process_activity_json e = JObj
     [(''event_id'', JStr (pa_event_id e)), (''class_uid'', JWord (pa_class_uid e)),
      (''activity_id'', JWord (activity_id_as_u64 (pa_activity_id e))),
      (''process'', process_json (pa_process e)), (''time'', JStr (pa_time e))]"

definition endpoint_json :: "cges_network_endpoint \<Rightarrow> json" where
  "endpoint_json e = JObj [(''ip'', JStr (cn_ip e)), (''port'', JWord (cn_port e))]"

definition direction_json :: "direction \<Rightarrow> json" where
  "direction_json d = (case d of Outbound \<Rightarrow> JStr ''outbound'' | Inbound \<Rightarrow> JStr ''inbound'')"

definition connection_info_json :: "cges_connection_info \<Rightarrow> json" where
  "connection_info_json c = JObj
     [(''protocol_name'', JStr (ci_protocol_name c)), (''direction'', direction_json (ci_direction c))]"

definition actor_process_json :: "cges_actor_process \<Rightarrow> json" where
  "actor_process_json p = JObj ((''pid'', JWord (ap_pid p)) # member_if ''uid'' JStr (ap_uid p))"

definition network_activity_json :: "cges_network_activity \<Rightarrow> json" where
  "network_activity_json e = JObj
     [(''event_id'', JStr (na_event_id e)), (''class_uid'', JWord (na_class_uid e)),
      (''activity_id'', JWord (na_activity_id e)), (''time'', JStr (na_time e)),
      (''src_endpoint'', endpoint_json (na_src_endpoint e)),
      (''dst_endpoint'', endpoint_json (na_dst_endpoint e)),
      (''connection_info'', connection_info_json (na_connection_info e)),
      (''actor'', JObj [(''process'', actor_process_json (ac_process (na_actor e)))])]"

definition logon_user_json :: "cges_logon_user \<Rightarrow> json" where
  "logon_user_json u = JObj
     [(''uid'', JStr (lu_uid u)), (''name'', JStr (lu_name u)), (''domain'', JStr (lu_domain u))]"

definition logon_source_json :: "cges_logon_source \<Rightarrow> json" where
  "logon_source_json s = JObj ((''ip'', JStr (lsrc_ip s)) # member_if ''hostname'' JStr (lsrc_hostname s))"

definition authentication_json :: "cges_authentication \<Rightarrow> json" where
  "authentication_json e = JObj
     ([(''event_id'', JStr (au_event_id e)), (''class_uid'', JWord (au_class_uid e)),
       (''category_uid'', JWord (au_category_uid e)), (''activity_id'', JWord (au_activity_id e)),
       (''time'', JStr (au_time e)), (''status_id'', JWord (au_status_id e)),
       (''user'', logon_user_json (au_user e)), (''logon_type_id'', JWord (au_logon_type_id e)),
       (''auth_protocol'', JStr (au_auth_protocol e)),
       (''auth_protocol_id'', JWord (au_auth_protocol_id e))]
      @ member_if ''src_endpoint'' logon_source_json (au_src_endpoint e)
      @ member_if ''status_code'' JStr (au_status_code e)
      @ member_if ''status_detail'' JStr (au_status_detail e)
      @ member_if ''cg_elevated_token'' JBool (au_cg_elevated_token e))"

definition event_json :: "cges_event \<Rightarrow> json" where
  "event_json e =
     (case e of
        CgesProcessEvent p \<Rightarrow> process_activity_json p
      | CgesNetworkEvent n \<Rightarrow> network_activity_json n
      | CgesAuthenticationEvent a \<Rightarrow> authentication_json a)"

definition agent_block_json :: "agent_block \<Rightarrow> json" where
  "agent_block_json a = JObj
     [(''agent_id'', JStr (ab_agent_id a)), (''agent_version'', JStr (ab_agent_version a)),
      (''agent_platform'', JStr (ab_agent_platform a)), (''agent_hostname'', JStr (ab_agent_hostname a))]"

definition status_json :: "heartbeat_status \<Rightarrow> json" where
  "status_json s = (case s of Online \<Rightarrow> JStr ''online'' | GoingOffline \<Rightarrow> JStr ''going_offline'')"

definition heartbeat_json :: "heartbeat_envelope \<Rightarrow> json" where
  "heartbeat_json e = JObj
     ([(''envelope_version'', JStr (he_envelope_version e)), (''agent'', agent_block_json (he_agent e)),
       (''sequence_number'', JWord (he_sequence_number e)), (''sent_at'', JStr (he_sent_at e)),
       (''status'', status_json (he_status e)), (''uptime_seconds'', JWord (he_uptime_seconds e))]
      @ (if he_events e = [] then [] else [(''events'', JArr (map event_json (he_events e)))]))"

definition outer_json :: "outer_envelope \<Rightarrow> json" where
  "outer_json e = JObj
     [(''outer_envelope_version'', JStr (oe_outer_envelope_version e)),
      (''agent_id'', JStr (oe_agent_id e)), (''sequence_number'', JWord (oe_sequence_number e)),
      (''nonce'', JStr (oe_nonce e)), (''sent_at'', JStr (oe_sent_at e)),
      (''body'', heartbeat_json (oe_body e)), (''signature'', JStr (oe_signature e))]"

section \<open>Sealing\<close>

fun remove_member :: "string \<Rightarrow> json \<Rightarrow> json" where
  "remove_member k (JObj ms) = JObj (filter (\<lambda>(k', _). k' \<noteq> k) ms)"
| "remove_member k v = v"

definition canonical_bytes :: "(json \<Rightarrow> string + bytes) \<Rightarrow> json \<Rightarrow> signing_error + bytes" where
  "canonical_bytes jcs v = (case jcs v of Inl e \<Rightarrow> Inl (Canonical e) | Inr b \<Rightarrow> Inr b)"

definition seal_envelope ::
    "(bytes \<Rightarrow> string) \<Rightarrow> (json \<Rightarrow> string + bytes) \<Rightarrow> (bytes \<Rightarrow> bytes) \<Rightarrow> string + bytes
     \<Rightarrow> heartbeat_envelope \<Rightarrow> string \<Rightarrow> string \<Rightarrow> signing_error + outer_envelope" where
  "seal_envelope b64url jcs sign getrandom body agent_id sent_at =
     (case getrandom of
        Inl e \<Rightarrow> Inl (Sign (''nonce generation failed: '' @ e))
      | Inr nonce_bytes \<Rightarrow>
          let envelope = \<lparr>oe_outer_envelope_version = OUTER_ENVELOPE_VERSION,
                oe_agent_id = agent_id, oe_sequence_number = he_sequence_number body,
                oe_nonce = b64url nonce_bytes, oe_sent_at = sent_at, oe_body = body,
                oe_signature = []\<rparr>;
              v = remove_member ''signature'' (outer_json envelope)
          in case canonical_bytes jcs v of
               Inl e \<Rightarrow> Inl e
             | Inr canonical \<Rightarrow> Inr (envelope\<lparr>oe_signature := b64url (sign canonical)\<rparr>))"

section \<open>JSON values read\<close>

fun member :: "string \<Rightarrow> json \<Rightarrow> json option" where
  "member k (JObj ms) = map_of ms k"
| "member k _ = None"

fun of_str :: "json \<Rightarrow> string option" where
  "of_str (JStr s) = Some s"
| "of_str _ = None"

fun of_bool_json :: "json \<Rightarrow> bool option" where
  "of_bool_json (JBool b) = Some b"
| "of_bool_json _ = None"

fun of_word :: "json \<Rightarrow> 'w::len word option" where
  "of_word (JNum n) = (if 0 \<le> n \<and> n < 2 ^ LENGTH('w) then Some (word_of_int n) else None)"
| "of_word _ = None"

fun of_i32 :: "json \<Rightarrow> i32 option" where
  "of_i32 (JNum n) = (if - (2 ^ 31) \<le> n \<and> n < 2 ^ 31 then Some (word_of_int n) else None)"
| "of_i32 _ = None"

definition field :: "string \<Rightarrow> (json \<Rightarrow> 'a option) \<Rightarrow> json \<Rightarrow> 'a option" where
  "field k f v = Option.bind (member k v) f"

definition field_opt :: "string \<Rightarrow> (json \<Rightarrow> 'a option) \<Rightarrow> json \<Rightarrow> 'a option option" where
  "field_opt k f v =
     (case member k v of
        None \<Rightarrow> Some None
      | Some w \<Rightarrow> if w = JNull then Some None else map_option Some (f w))"

definition read_process :: "json \<Rightarrow> cges_process option" where
  "read_process v = do {
     pid \<leftarrow> field ''pid'' of_word v;
     uid \<leftarrow> field ''uid'' of_str v;
     name \<leftarrow> field ''name'' of_str v;
     created \<leftarrow> field_opt ''created_time'' of_str v;
     exit_code \<leftarrow> field_opt ''exit_code'' of_i32 v;
     parent \<leftarrow> field_opt ''parent_pid'' of_word v;
     cmd \<leftarrow> field ''command_line'' of_str v;
     sid \<leftarrow> field ''subject_user_sid'' of_str v;
     img \<leftarrow> field ''image_file_name'' of_str v;
     Some \<lparr>cp_pid = pid, cp_uid = uid, cp_name = name, cp_created_time = created,
       cp_exit_code = exit_code, cp_parent_pid = parent, cp_command_line = cmd,
       cp_subject_user_sid = sid, cp_image_file_name = img\<rparr>
   }"

definition read_activity_id :: "json \<Rightarrow> activity_id option" where
  "read_activity_id v = do {
     n \<leftarrow> of_word v;
     (case activity_id_try_from n of Inl _ \<Rightarrow> None | Inr a \<Rightarrow> Some a)
   }"

definition read_process_activity :: "json \<Rightarrow> cges_process_activity option" where
  "read_process_activity v = do {
     event_id \<leftarrow> field ''event_id'' of_str v;
     class_uid \<leftarrow> field ''class_uid'' of_word v;
     activity_id \<leftarrow> field ''activity_id'' read_activity_id v;
     process \<leftarrow> field ''process'' read_process v;
     time \<leftarrow> field ''time'' of_str v;
     Some \<lparr>pa_event_id = event_id, pa_class_uid = class_uid, pa_activity_id = activity_id,
       pa_process = process, pa_time = time\<rparr>
   }"

definition read_endpoint :: "json \<Rightarrow> cges_network_endpoint option" where
  "read_endpoint v = do {
     ip \<leftarrow> field ''ip'' of_str v;
     port \<leftarrow> field ''port'' of_word v;
     Some \<lparr>cn_ip = ip, cn_port = port\<rparr>
   }"

definition read_direction :: "json \<Rightarrow> direction option" where
  "read_direction v =
     (if v = JStr ''outbound'' then Some Outbound
      else if v = JStr ''inbound'' then Some Inbound else None)"

definition read_connection_info :: "json \<Rightarrow> cges_connection_info option" where
  "read_connection_info v = do {
     protocol \<leftarrow> field ''protocol_name'' of_str v;
     d \<leftarrow> field ''direction'' read_direction v;
     Some \<lparr>ci_protocol_name = protocol, ci_direction = d\<rparr>
   }"

definition read_actor_process :: "json \<Rightarrow> cges_actor_process option" where
  "read_actor_process v = do {
     pid \<leftarrow> field ''pid'' of_word v;
     uid \<leftarrow> field_opt ''uid'' of_str v;
     Some \<lparr>ap_pid = pid, ap_uid = uid\<rparr>
   }"

definition read_actor :: "json \<Rightarrow> cges_actor option" where
  "read_actor v = do {
     process \<leftarrow> field ''process'' read_actor_process v;
     Some \<lparr>ac_process = process\<rparr>
   }"

definition read_network_activity :: "json \<Rightarrow> cges_network_activity option" where
  "read_network_activity v = do {
     event_id \<leftarrow> field ''event_id'' of_str v;
     class_uid \<leftarrow> field ''class_uid'' of_word v;
     activity_id \<leftarrow> field ''activity_id'' of_word v;
     time \<leftarrow> field ''time'' of_str v;
     src \<leftarrow> field ''src_endpoint'' read_endpoint v;
     dst \<leftarrow> field ''dst_endpoint'' read_endpoint v;
     info \<leftarrow> field ''connection_info'' read_connection_info v;
     actor \<leftarrow> field ''actor'' read_actor v;
     Some \<lparr>na_event_id = event_id, na_class_uid = class_uid, na_activity_id = activity_id,
       na_time = time, na_src_endpoint = src, na_dst_endpoint = dst,
       na_connection_info = info, na_actor = actor\<rparr>
   }"

definition read_logon_user :: "json \<Rightarrow> cges_logon_user option" where
  "read_logon_user v = do {
     uid \<leftarrow> field ''uid'' of_str v;
     name \<leftarrow> field ''name'' of_str v;
     domain \<leftarrow> field ''domain'' of_str v;
     Some \<lparr>lu_uid = uid, lu_name = name, lu_domain = domain\<rparr>
   }"

definition read_logon_source :: "json \<Rightarrow> cges_logon_source option" where
  "read_logon_source v = do {
     ip \<leftarrow> field ''ip'' of_str v;
     hostname \<leftarrow> field_opt ''hostname'' of_str v;
     Some \<lparr>lsrc_ip = ip, lsrc_hostname = hostname\<rparr>
   }"

definition read_authentication :: "json \<Rightarrow> cges_authentication option" where
  "read_authentication v = do {
     event_id \<leftarrow> field ''event_id'' of_str v;
     class_uid \<leftarrow> field ''class_uid'' of_word v;
     category_uid \<leftarrow> field ''category_uid'' of_word v;
     activity_id \<leftarrow> field ''activity_id'' of_word v;
     time \<leftarrow> field ''time'' of_str v;
     status_id \<leftarrow> field ''status_id'' of_word v;
     user \<leftarrow> field ''user'' read_logon_user v;
     logon_type \<leftarrow> field ''logon_type_id'' of_word v;
     protocol \<leftarrow> field ''auth_protocol'' of_str v;
     protocol_id \<leftarrow> field ''auth_protocol_id'' of_word v;
     src \<leftarrow> field_opt ''src_endpoint'' read_logon_source v;
     status_code \<leftarrow> field_opt ''status_code'' of_str v;
     status_detail \<leftarrow> field_opt ''status_detail'' of_str v;
     elevated \<leftarrow> field_opt ''cg_elevated_token'' of_bool_json v;
     Some \<lparr>au_event_id = event_id, au_class_uid = class_uid, au_category_uid = category_uid,
       au_activity_id = activity_id, au_time = time, au_status_id = status_id, au_user = user,
       au_logon_type_id = logon_type, au_auth_protocol = protocol, au_auth_protocol_id = protocol_id,
       au_src_endpoint = src, au_status_code = status_code, au_status_detail = status_detail,
       au_cg_elevated_token = elevated\<rparr>
   }"

text \<open>An untagged enum is read as the first variant whose shape fits.\<close>

definition read_event :: "json \<Rightarrow> cges_event option" where
  "read_event v =
     (case read_process_activity v of
        Some p \<Rightarrow> Some (CgesProcessEvent p)
      | None \<Rightarrow>
          (case read_network_activity v of
             Some n \<Rightarrow> Some (CgesNetworkEvent n)
           | None \<Rightarrow> map_option CgesAuthenticationEvent (read_authentication v)))"

fun read_list :: "(json \<Rightarrow> 'a option) \<Rightarrow> json \<Rightarrow> 'a list option" where
  "read_list f (JArr vs) = those (map f vs)"
| "read_list f _ = None"

definition read_agent_block :: "json \<Rightarrow> agent_block option" where
  "read_agent_block v = do {
     agent_id \<leftarrow> field ''agent_id'' of_str v;
     ver \<leftarrow> field ''agent_version'' of_str v;
     platform \<leftarrow> field ''agent_platform'' of_str v;
     hostname \<leftarrow> field ''agent_hostname'' of_str v;
     Some \<lparr>ab_agent_id = agent_id, ab_agent_version = ver, ab_agent_platform = platform,
       ab_agent_hostname = hostname\<rparr>
   }"

definition read_status :: "json \<Rightarrow> heartbeat_status option" where
  "read_status v =
     (if v = JStr ''online'' then Some Online
      else if v = JStr ''going_offline'' then Some GoingOffline else None)"

definition read_heartbeat :: "json \<Rightarrow> heartbeat_envelope option" where
  "read_heartbeat v = do {
     ver \<leftarrow> field ''envelope_version'' of_str v;
     agent \<leftarrow> field ''agent'' read_agent_block v;
     sequence_number \<leftarrow> field ''sequence_number'' of_word v;
     sent_at \<leftarrow> field ''sent_at'' of_str v;
     status \<leftarrow> field ''status'' read_status v;
     uptime \<leftarrow> field ''uptime_seconds'' of_word v;
     events \<leftarrow> (case member ''events'' v of None \<Rightarrow> Some [] | Some w \<Rightarrow> read_list read_event w);
     Some \<lparr>he_envelope_version = ver, he_agent = agent, he_sequence_number = sequence_number,
       he_sent_at = sent_at, he_status = status, he_uptime_seconds = uptime, he_events = events\<rparr>
   }"

definition read_outer :: "json \<Rightarrow> outer_envelope option" where
  "read_outer v = do {
     ver \<leftarrow> field ''outer_envelope_version'' of_str v;
     agent_id \<leftarrow> field ''agent_id'' of_str v;
     sequence_number \<leftarrow> field ''sequence_number'' of_word v;
     nonce \<leftarrow> field ''nonce'' of_str v;
     sent_at \<leftarrow> field ''sent_at'' of_str v;
     body \<leftarrow> field ''body'' read_heartbeat v;
     signature \<leftarrow> field ''signature'' of_str v;
     Some \<lparr>oe_outer_envelope_version = ver, oe_agent_id = agent_id,
       oe_sequence_number = sequence_number, oe_nonce = nonce, oe_sent_at = sent_at,
       oe_body = body, oe_signature = signature\<rparr>
   }"

section \<open>What is written is read back\<close>

named_theorems json_read \<open>readers applied to what the writers produce\<close>

lemma of_word_JWord [json_read]: "of_word (JWord w) = Some w"
  by (simp add: uint_range_size [unfolded word_size, THEN conjunct2] word_of_int_uint)

lemma of_i32_JNum [json_read]: "of_i32 (JNum (sint c)) = Some c" for c :: i32
  using sint_range_size [of c] by (simp add: word_size)

lemma field_JObj [json_read]:
  "field k f (JObj ((k', w) # ms)) = (if k = k' then f w else field k f (JObj ms))"
  "field k f (JObj []) = None"
  by (simp_all add: field_def)

lemma field_member_if [json_read]:
  "k \<noteq> k' \<Longrightarrow> field k f (JObj (member_if k' g v @ ms)) = field k f (JObj ms)"
  "k \<noteq> k' \<Longrightarrow> field k f (JObj (member_if k' g v)) = None"
  by (cases v; simp add: field_def member_if_def)+

lemma field_opt_JObj [json_read]:
  "field_opt k f (JObj ((k', w) # ms)) =
     (if k = k' then (if w = JNull then Some None else map_option Some (f w)) else field_opt k f (JObj ms))"
  "field_opt k f (JObj []) = Some None"
  by (simp_all add: field_opt_def)

lemma field_opt_member_if_other [json_read]:
  "k \<noteq> k' \<Longrightarrow> field_opt k f (JObj (member_if k' g v @ ms)) = field_opt k f (JObj ms)"
  "k \<noteq> k' \<Longrightarrow> field_opt k f (JObj (member_if k' g v)) = Some None"
  by (cases v; simp add: field_opt_def member_if_def)+

lemma field_opt_member_if:
  assumes "\<And>x. f (g x) = Some x" "\<And>x. g x \<noteq> JNull" "k \<notin> fst ` set ms"
  shows "field_opt k f (JObj (member_if k g v @ ms)) = Some v"
    and "field_opt k f (JObj (member_if k g v)) = Some v"
proof -
  have "map_of ms k = None"
    using assms(3) by (simp add: map_of_eq_None_iff)
  then show "field_opt k f (JObj (member_if k g v @ ms)) = Some v"
    and "field_opt k f (JObj (member_if k g v)) = Some v"
    by (cases v; simp add: field_opt_def member_if_def assms(1,2))+
qed

lemma nullable_read [json_read]:
  "(if nullable JStr v = JNull then Some None else map_option Some (of_str (nullable JStr v))) = Some v"
  "(if nullable JWord w = JNull then Some None else map_option Some (of_word (nullable JWord w))) = Some w"
  by (cases v; cases w; simp add: nullable_def of_word_JWord del: of_word.simps)+

lemma fst_member_if: "fst ` set (member_if k g v) \<subseteq> {k}"
  by (cases v) (simp_all add: member_if_def)

lemma not_in_member_if [simp]: "k \<noteq> k' \<Longrightarrow> k \<notin> fst ` set (member_if k' g v)"
  using fst_member_if by fastforce

lemma read_process_json [json_read]: "read_process (process_json p) = Some p"
  unfolding read_process_def process_json_def
  by (simp add: json_read field_opt_member_if del: of_word.simps of_i32.simps)

lemma read_activity_id_json [json_read]: "read_activity_id (JWord (activity_id_as_u64 a)) = Some a"
  by (simp add: read_activity_id_def json_read del: of_word.simps)

lemma read_process_activity_json [json_read]: "read_process_activity (process_activity_json e) = Some e"
  by (simp add: read_process_activity_def process_activity_json_def json_read del: of_word.simps)

lemma read_endpoint_json [json_read]: "read_endpoint (endpoint_json e) = Some e"
  by (simp add: read_endpoint_def endpoint_json_def json_read del: of_word.simps)

lemma read_direction_json [json_read]: "read_direction (direction_json d) = Some d"
  by (cases d) (simp_all add: read_direction_def direction_json_def)

lemma read_connection_info_json [json_read]: "read_connection_info (connection_info_json c) = Some c"
  by (simp add: read_connection_info_def connection_info_json_def json_read)

lemma read_actor_process_json [json_read]: "read_actor_process (actor_process_json p) = Some p"
  by (simp add: read_actor_process_def actor_process_json_def json_read field_opt_member_if(2) [where ms = "[]"]
      del: of_word.simps)

lemma read_network_activity_json [json_read]: "read_network_activity (network_activity_json e) = Some e"
  by (simp add: read_network_activity_def network_activity_json_def read_actor_def json_read del: of_word.simps)

lemma read_logon_user_json [json_read]: "read_logon_user (logon_user_json u) = Some u"
  by (simp add: read_logon_user_def logon_user_json_def json_read)

lemma read_logon_source_json [json_read]: "read_logon_source (logon_source_json s) = Some s"
  by (simp add: read_logon_source_def logon_source_json_def json_read field_opt_member_if(2) [where ms = "[]"])

lemma logon_source_json_not_null [json_read]: "logon_source_json s \<noteq> JNull"
  by (simp add: logon_source_json_def)

lemma read_authentication_json [json_read]: "read_authentication (authentication_json e) = Some e"
  unfolding read_authentication_def authentication_json_def
  by (simp add: json_read image_Un field_opt_member_if field_opt_member_if(2) [where ms = "[]"]
      del: of_word.simps)

lemma read_other_shape [json_read]:
  "read_process_activity (network_activity_json n) = None"
  "read_process_activity (authentication_json a) = None"
  "read_network_activity (authentication_json a) = None"
proof -
  have "field ''process'' read_process (network_activity_json n) = None"
    by (simp add: network_activity_json_def json_read)
  then show "read_process_activity (network_activity_json n) = None"
    by (simp add: read_process_activity_def Option.bind_eq_None_conv)
  have "field ''process'' read_process (authentication_json a) = None"
    by (simp add: authentication_json_def json_read)
  then show "read_process_activity (authentication_json a) = None"
    by (simp add: read_process_activity_def Option.bind_eq_None_conv)
  have "field ''actor'' read_actor (authentication_json a) = None"
    by (simp add: authentication_json_def json_read)
  then show "read_network_activity (authentication_json a) = None"
    by (simp add: read_network_activity_def Option.bind_eq_None_conv)
qed

lemma read_event_json [json_read]: "read_event (event_json e) = Some e"
  by (cases e) (simp_all add: read_event_def event_json_def json_read)

lemma those_map_Some: "(\<And>x. f (g x) = Some x) \<Longrightarrow> those (map (f \<circ> g) xs) = Some xs"
  by (induction xs) simp_all

lemma read_agent_block_json [json_read]: "read_agent_block (agent_block_json a) = Some a"
  by (simp add: read_agent_block_def agent_block_json_def json_read)

lemma read_status_json [json_read]: "read_status (status_json s) = Some s"
  by (cases s) (simp_all add: read_status_def status_json_def)

lemma read_heartbeat_json [json_read]: "read_heartbeat (heartbeat_json e) = Some e"
  unfolding read_heartbeat_def heartbeat_json_def
  by (simp add: json_read those_map_Some del: of_word.simps)

lemma member_events: "member ''events'' (heartbeat_json b) = None \<longleftrightarrow> he_events b = []"
  by (simp add: heartbeat_json_def)

text \<open>
  Claim C38. Reading the JSON of an outer envelope gives the envelope back:
  every event is read as its own class although the variants carry no tag,
  absent optional members are read as missing, and an envelope without events
  is written without the \<open>events\<close> member.
\<close>

theorem outer_envelope_roundtrip:
  "read_outer (outer_json e) = Some e
   \<and> (member ''events'' (heartbeat_json b) = None \<longleftrightarrow> he_events b = [])"
  by (simp add: member_events read_outer_def outer_json_def json_read del: of_word.simps)

section \<open>Sealed envelopes verify\<close>

lemma seal_envelope_fields:
  "seal_envelope b64url jcs sign rnd body agent_id sent_at = Inr e \<Longrightarrow>
   oe_body e = body \<and> oe_sequence_number e = he_sequence_number body \<and> oe_agent_id e = agent_id
   \<and> oe_sent_at e = sent_at"
  by (auto simp: seal_envelope_def Let_def split: sum.splits)

text \<open>
  A sealed envelope carries the body unchanged and its sequence
  number, and a verifier that reads the envelope's JSON, takes the signature
  member out and canonicalises the rest accepts the signature, for a signature
  scheme whose signatures verify and an encoding that decodes.
\<close>

lemma sealed_envelope_verifies:
  assumes "seal_envelope b64url jcs sign getrandom body agent_id sent_at = Inr e"
    and "\<And>m. verify m (sign m)" and "\<And>b. decode (b64url b) = Some b"
  shows "oe_body e = body \<and> oe_sequence_number e = he_sequence_number body
    \<and> oe_agent_id e = agent_id \<and> oe_sent_at e = sent_at
    \<and> (\<exists>c s. canonical_bytes jcs (remove_member ''signature'' (outer_json e)) = Inr c
          \<and> Option.bind (field ''signature'' of_str (outer_json e)) decode = Some s \<and> verify c s)"
  using assms
  by (auto simp: seal_envelope_def outer_json_def Let_def json_read split: sum.splits)

definition demo_body :: heartbeat_envelope where
  "demo_body = build_envelope \<lparr>ab_agent_id = ''a'', ab_agent_version = ''1.0.0'',
     ab_agent_platform = ''windows'', ab_agent_hostname = ''ws1''\<rparr> 7 0 (secs 90) ''t'' Online"

definition demo_b64 :: "bytes \<Rightarrow> string" where
  "demo_b64 = map (\<lambda>b. char_of (unat b))"

definition demo_unb64 :: "string \<Rightarrow> bytes option" where
  "demo_unb64 s = Some (map (\<lambda>c. of_nat (cval c)) s)"

lemma demo_unb64_b64: "demo_unb64 (demo_b64 b) = Some b"
proof (induction b)
  case (Cons w b)
  have "unat w mod 256 = unat w"
    using unat_bound [of w] by simp
  with Cons show ?case
    by (simp add: demo_unb64_def demo_b64_def)
qed (simp add: demo_unb64_def demo_b64_def)

end
