(* ===== verification/Heartbeat.thy ===== *)
theory Heartbeat
  imports Agent_Config Envelope
begin

text \<open>
  The plain HTTP transport with its retry policy (\<open>transport.rs\<close>) and the
  plain heartbeat loop (\<open>run\<close> of \<open>lib.rs\<close>). The HTTP client is another crate's
  code: its answers, one per attempt, are an argument.
\<close>

section \<open>The plain transport\<close>

datatype http_result = HttpStatus u16 | HttpError string

definition is_success :: "u16 \<Rightarrow> bool" where
  "is_success s \<longleftrightarrow> 200 \<le> s \<and> s < 300"

definition heartbeat_url :: "string \<Rightarrow> string" where
  "heartbeat_url server_url = trim_end_matches (CHR ''/'') server_url @ ''/v1/agents/heartbeat''"

definition next_backoff :: "u64 \<Rightarrow> heartbeat_config \<Rightarrow> u64" where
  "next_backoff current_ms h =
     min (f64_as_u64 (f64_mul (f64_of_u64 current_ms) (hb_backoff_factor h))) (hb_backoff_max_ms h)"

text \<open>
  The attempts of \<open>HeartbeatClient::send\<close>: the answers of the server, one per
  attempt, and the result with the waits between attempts.
\<close>

function send_loop ::
    "(nat \<Rightarrow> http_result) \<Rightarrow> heartbeat_config \<Rightarrow> u32 \<Rightarrow> u64 \<Rightarrow> string
     \<Rightarrow> (transport_error + unit) \<times> u64 list" where
  "send_loop post h attempt backoff_ms last_error =
     (if \<not> attempt < hb_max_retries h
      then (Inl (RetryExhausted attempt last_error), [])
      else
        let err = (case post (unat attempt) of
                     HttpStatus s \<Rightarrow> ''status '' @ dec (unat s)
                   | HttpError e \<Rightarrow> e)
        in if (case post (unat attempt) of HttpStatus s \<Rightarrow> is_success s | HttpError _ \<Rightarrow> False)
           then (Inr (), [])
           else if hb_max_retries h \<le> attempt + 1
           then (Inl (RetryExhausted (attempt + 1) err), [])
           else case send_loop post h (attempt + 1) (next_backoff backoff_ms h) err of
                  (r, waits) \<Rightarrow> (r, backoff_ms # waits))"
  by pat_completeness auto

termination
proof (relation "measure (\<lambda>(_, h, attempt, _, _). unat (hb_max_retries h) - unat attempt)",
    simp_all add: word_less_nat_alt word_le_nat_alt)
  fix attempt :: u32 and h :: heartbeat_config
  assume "unat attempt < unat (hb_max_retries h)"
  then have "unat (attempt + 1) = Suc (unat attempt)"
    using unat_bound [of "hb_max_retries h"] by (subst unat_word_ariths) simp
  with \<open>unat attempt < unat (hb_max_retries h)\<close>
  show "unat (hb_max_retries h) - unat (attempt + 1) < unat (hb_max_retries h) - unat attempt"
    by linarith
qed

declare send_loop.simps [simp del]

definition send :: "(nat \<Rightarrow> http_result) \<Rightarrow> heartbeat_config \<Rightarrow> (transport_error + unit) \<times> u64 list" where
  "send post h = send_loop post h 0 (hb_backoff_initial_ms h) ''no attempts made''"

definition send_single_attempt :: "http_result \<Rightarrow> transport_error + unit" where
  "send_single_attempt res =
     (case res of
        HttpStatus s \<Rightarrow> if is_success s then Inr () else Inl (BadStatus s)
      | HttpError e \<Rightarrow> Inl (TransportNetwork e))"

section \<open>The plain heartbeat loop\<close>

definition DURATION_MAX :: duration where
  "DURATION_MAX = (2 ^ 64 - 1) * 1000000000 + 999999999"

definition tick_at :: "instant \<Rightarrow> duration \<Rightarrow> u32 \<Rightarrow> instant" where
  "tick_at start interval k = start + min (interval * unat k) DURATION_MAX"

text \<open>
  The loop of \<open>run\<close>, as the envelopes it hands to the client: the instant the
  shutdown signal resolves, how long each send takes, the wall clock and, where
  both branches of the select are ready, its choice are given by the
  environment. The first argument bounds the iterations.
\<close>

record run_env =
  re_agent :: agent_block
  re_start :: instant
  re_interval :: duration
  re_shutdown :: instant
  re_prefers_stop :: "u64 \<Rightarrow> bool"
  re_send_time :: "u64 \<Rightarrow> duration"
  re_wall :: "instant \<Rightarrow> string"

fun run_loop :: "nat \<Rightarrow> run_env \<Rightarrow> u64 \<Rightarrow> instant \<Rightarrow> heartbeat_envelope list" where
  "run_loop 0 env sequence now = []"
| "run_loop (Suc n) env sequence now =
     (let sequence = sequence + 1;
          target = tick_at (re_start env) (re_interval env) (ucast (sequence - 1));
          fires = max now target;
          stops = max now (re_shutdown env)
      in if stops < fires \<or> stops = fires \<and> re_prefers_stop env sequence
         then [build_envelope (re_agent env) sequence (re_start env) stops (re_wall env stops) GoingOffline]
         else build_envelope (re_agent env) sequence (re_start env) fires (re_wall env fires) Online
              # run_loop n env sequence (fires + re_send_time env sequence))"

definition run :: "nat \<Rightarrow> run_env \<Rightarrow> heartbeat_envelope list" where
  "run n env = run_loop n env 0 (re_start env)"

section \<open>The retry policy\<close>

lemma next_backoff_le_max: "next_backoff c h \<le> hb_backoff_max_ms h"
  by (simp add: next_backoff_def)

lemma next_backoff_ge:
  assumes "hb_backoff_factor h = F64_Fin f" "1 \<le> f" "unat c < 2 ^ 53" "c \<le> hb_backoff_max_ms h"
  shows "c \<le> next_backoff c h"
  using f64_scale_ge [OF assms(3,2)] assms by (simp add: next_backoff_def)

lemma next_backoff_NaN: "hb_backoff_factor h = F64_NaN \<Longrightarrow> next_backoff c h = 0"
  by (cases "f64_of_u64 c") (simp_all add: next_backoff_def)

lemma attempt_step:
  fixes a m :: u32
  assumes "a < m"
  shows "unat (a + 1) = Suc (unat a)"
  using assms unat_bound [of m] by (subst unat_word_ariths) (simp add: word_less_nat_alt)

definition ok_answer :: "http_result \<Rightarrow> bool" where
  "ok_answer r = (case r of HttpStatus s \<Rightarrow> is_success s | HttpError _ \<Rightarrow> False)"

definition answer_text :: "http_result \<Rightarrow> string" where
  "answer_text r = (case r of HttpStatus s \<Rightarrow> ''status '' @ dec (unat s) | HttpError e \<Rightarrow> e)"

definition backoffs :: "heartbeat_config \<Rightarrow> u64 \<Rightarrow> nat \<Rightarrow> u64 list" where
  "backoffs h b n = map (\<lambda>k. ((\<lambda>c. next_backoff c h) ^^ k) b) [0..<n]"

lemma backoffs_Suc: "backoffs h b (Suc n) = b # backoffs h (next_backoff b h) n"
  using funpow_swap1 [of "\<lambda>c. next_backoff c h"]
  by (intro nth_equalityI) (auto simp: backoffs_def nth_Cons' simp del: upt_Suc dest!: gr0_implies_Suc)

lemma find_upt_step:
  "m < n \<Longrightarrow> find P [m..<n] = (if P m then Some m else find P [Suc m..<n])"
  by (simp add: upt_conv_Cons)

lemma send_loop_attempt:
  "a < hb_max_retries h \<Longrightarrow>
   send_loop post h a b le =
     (let r = post (unat a); rest = send_loop post h (a + 1) (next_backoff b h) (answer_text r)
      in if ok_answer r then (Inr (), [])
         else if hb_max_retries h \<le> a + 1 then (Inl (RetryExhausted (a + 1) (answer_text r)), [])
         else (fst rest, b # snd rest))"
  unfolding send_loop.simps [of post h a] ok_answer_def answer_text_def Let_def
  by (simp add: split_beta)

lemma send_loop_eq:
  "a < hb_max_retries h \<Longrightarrow>
   send_loop post h a b le =
     (case find (\<lambda>i. ok_answer (post i)) [unat a..<unat (hb_max_retries h)] of
        Some i \<Rightarrow> (Inr (), backoffs h b (i - unat a))
      | None \<Rightarrow> (Inl (RetryExhausted (hb_max_retries h) (answer_text (post (unat (hb_max_retries h) - 1)))),
                 backoffs h b (unat (hb_max_retries h) - 1 - unat a)))"
proof (induction "unat (hb_max_retries h) - Suc (unat a)" arbitrary: a b le)
  case 0
  then have "unat (hb_max_retries h) = Suc (unat a)"
    by (simp add: word_less_nat_alt)
  moreover from this have "a + 1 = hb_max_retries h"
    using attempt_step [OF 0(2)] by (metis unat_inject)
  ultimately show ?case
    using 0(2) by (simp add: send_loop_attempt backoffs_def Let_def)
next
  case (Suc d)
  note step = attempt_step [OF Suc(3)]
  let ?n = "unat (hb_max_retries h)"
  have gap: "unat (a + 1) < ?n" "unat a < ?n"
    using Suc(2) step by simp_all
  then have more: "a + 1 < hb_max_retries h"
    by (simp add: word_less_nat_alt)
  then have not_last: "\<not> hb_max_retries h \<le> a + 1"
    by simp
  have rest: "i - unat a = Suc (i - unat (a + 1))" if "find P [Suc (unat a)..<?n] = Some i" for P i
    using that step by (auto simp: find_Some_iff)
  have tail: "?n - 1 - unat a = Suc (?n - 1 - unat (a + 1))"
    using gap step by simp
  have IH: "send_loop post h (a + 1) (next_backoff b h) e =
     (case find (\<lambda>i. ok_answer (post i)) [unat (a + 1)..<?n] of
        Some i \<Rightarrow> (Inr (), backoffs h (next_backoff b h) (i - unat (a + 1)))
      | None \<Rightarrow> (Inl (RetryExhausted (hb_max_retries h) (answer_text (post (?n - 1)))),
                 backoffs h (next_backoff b h) (?n - 1 - unat (a + 1))))" for e
    using Suc(1) [of "a + 1", OF _ more] Suc(2) step by simp
  show ?case
    unfolding send_loop_attempt [OF Suc(3)] IH tail find_upt_step [OF gap(2)]
    using not_last step rest [of "\<lambda>i. ok_answer (post i)"]
    by (auto simp: Let_def backoffs_Suc backoffs_def [of _ _ 0] split: option.splits)
qed

lemma send_eq:
  "send post h =
     (let n = unat (hb_max_retries h)
      in case find (\<lambda>i. ok_answer (post i)) [0..<n] of
           Some i \<Rightarrow> (Inr (), backoffs h (hb_backoff_initial_ms h) i)
         | None \<Rightarrow> (Inl (RetryExhausted (hb_max_retries h)
                       (if n = 0 then ''no attempts made'' else answer_text (post (n - 1)))),
                    backoffs h (hb_backoff_initial_ms h) (n - 1)))"
proof (cases "hb_max_retries h = 0")
  case True
  then show ?thesis
    by (simp add: send_def send_loop.simps [of _ _ 0] backoffs_def)
next
  case False
  then have "(0 :: u32) < hb_max_retries h"
    by (simp add: word_neq_0_conv)
  with send_loop_eq [OF this, of post "hb_backoff_initial_ms h" "''no attempts made''"] show ?thesis
    by (auto simp: send_def Let_def unat_eq_zero split: option.splits)
qed

text \<open>
  Sending a heartbeat succeeds exactly at the first 2xx answer among
  the first \<open>max_retries\<close> attempts and makes no attempt after it; otherwise it
  reports \<open>max_retries\<close> attempts and the last error. The waits are the backoff
  sequence from the initial value, one fewer than the attempts made.
\<close>

lemma send_policy:
  "send post h =
     (let n = unat (hb_max_retries h)
      in case find (\<lambda>i. ok_answer (post i)) [0..<n] of
           Some i \<Rightarrow> (Inr (), backoffs h (hb_backoff_initial_ms h) i)
         | None \<Rightarrow> (Inl (RetryExhausted (hb_max_retries h)
                       (if n = 0 then ''no attempts made'' else answer_text (post (n - 1)))),
                    backoffs h (hb_backoff_initial_ms h) (n - 1)))"
  by (rule send_eq)

lemma send_waits:
  obtains n where "snd (send post h) = backoffs h (hb_backoff_initial_ms h) n"
  unfolding send_eq
  by (cases "find (\<lambda>i. ok_answer (post i)) [0..<unat (hb_max_retries h)]") (simp_all add: Let_def)

lemma find_none: "find (\<lambda>i. False) xs = None"
  by (simp add: find_None_iff)

lemma send_unanswered:
  "\<forall>i. \<not> ok_answer (post i) \<Longrightarrow>
   snd (send post h) = backoffs h (hb_backoff_initial_ms h) (unat (hb_max_retries h) - 1)"
  unfolding send_eq Let_def by (simp add: find_none)

lemma backoffs_0 [simp]: "backoffs h b 0 = []"
  by (simp add: backoffs_def)

lemma backoffs_2_3:
  "backoffs h b 2 = [b, next_backoff b h]"
  "backoffs h b 3 = [b, next_backoff b h, next_backoff (next_backoff b h) h]"
  by (simp_all add: backoffs_def upt_rec)

lemma nth_backoffs_Suc:
  "Suc k < n \<Longrightarrow> backoffs h b n ! Suc k = next_backoff (backoffs h b n ! k) h"
  by (simp add: backoffs_def)

lemma backoffs_le_max: "0 < k \<Longrightarrow> k < n \<Longrightarrow> backoffs h b n ! k \<le> hb_backoff_max_ms h"
  by (cases k) (simp_all add: nth_backoffs_Suc next_backoff_le_max)

text \<open>
  With a finite backoff factor of at least one and an initial backoff
  below the maximum, and both below \<open>2^53\<close>, where the conversion to a float is
  exact, the waits never shrink and never exceed the maximum.
\<close>

lemma backoff_monotone:
  assumes "hb_backoff_factor h = F64_Fin f" "1 \<le> f"
    and "hb_backoff_initial_ms h \<le> hb_backoff_max_ms h" "unat (hb_backoff_max_ms h) < 2 ^ 53"
  shows "sorted (snd (send post h)) \<and> (\<forall>w \<in> set (snd (send post h)). w \<le> hb_backoff_max_ms h)"
proof -
  obtain n where waits: "snd (send post h) = backoffs h (hb_backoff_initial_ms h) n"
    by (rule send_waits)
  let ?ws = "backoffs h (hb_backoff_initial_ms h) n"
  have len: "length ?ws = n"
    by (simp add: backoffs_def)
  have le: "?ws ! k \<le> hb_backoff_max_ms h" if "k < n" for k
    using that assms(3) backoffs_le_max [of k n] by (cases k) (simp_all add: backoffs_def)
  have "?ws ! k \<le> ?ws ! Suc k" if "Suc k < n" for k
    unfolding nth_backoffs_Suc [OF that]
    using le [of k] that assms by (intro next_backoff_ge) (auto simp: word_le_nat_alt)
  then have "sorted ?ws"
    by (simp add: sorted_iff_nth_Suc len)
  then show ?thesis
    using le unfolding waits by (auto simp: in_set_conv_nth len)
qed

text \<open>
  The maximum does not bound the first wait: a validated
  configuration whose initial backoff is above the maximum waits the initial
  value after the first failure. A factor that is not a number, which the
  validation accepts, makes every wait after the first zero.
\<close>

lemma first_wait_uncapped:
  "(\<exists>c post. check_config c = None \<and> snd (send post (ac_heartbeat c)) = [1000, 1]
      \<and> hb_backoff_max_ms (ac_heartbeat c) = 1)
   \<and> (\<exists>c post. check_config c = None \<and> snd (send post (ac_heartbeat c)) = [1000, 0, 0])"
proof (intro conjI exI)
  let ?h = "heartbeat_default\<lparr>hb_backoff_max_ms := 1\<rparr>"
  let ?c = "(demo_config 3 (F64_Fin 2))\<lparr>ac_heartbeat := ?h\<rparr>"
  show "check_config ?c = None" "hb_backoff_max_ms (ac_heartbeat ?c) = 1"
    by (simp_all add: check_config_def demo_config_def heartbeat_default_def tls_default_def envelope_default_def Let_def)
  have "1000 \<le> f64_as_u64 (f64_mul (f64_of_u64 1000) (F64_Fin 2))"
    by (rule f64_scale_ge) simp_all
  then have "next_backoff 1000 ?h = 1"
    by (simp add: next_backoff_def heartbeat_default_def min_def word_le_nat_alt)
  then show "snd (send (\<lambda>_. HttpError []) (ac_heartbeat ?c)) = [1000, 1]"
    by (simp add: send_unanswered ok_answer_def backoffs_2_3 heartbeat_default_def)
  show "check_config (demo_config 4 F64_NaN) = None"
    by (simp add: check_config_def demo_config_def heartbeat_default_def tls_default_def envelope_default_def Let_def)
  show "snd (send (\<lambda>_. HttpError []) (ac_heartbeat (demo_config 4 F64_NaN))) = [1000, 0, 0]"
    by (simp add: send_unanswered ok_answer_def demo_config_def heartbeat_default_def backoffs_2_3
        next_backoff_NaN)
qed

section \<open>The plain loop's schedule\<close>

definition tick_envelope :: "run_env \<Rightarrow> nat \<Rightarrow> heartbeat_envelope" where
  "tick_envelope env k =
     (let t = re_start env + k * re_interval env
      in build_envelope (re_agent env) (of_nat (k + 1)) (re_start env) t (re_wall env t) Online)"

definition final_envelope :: "run_env \<Rightarrow> nat \<Rightarrow> instant \<Rightarrow> heartbeat_envelope" where
  "final_envelope env k t =
     build_envelope (re_agent env) (of_nat (k + 1)) (re_start env) t (re_wall env t) GoingOffline"

definition timely :: "run_env \<Rightarrow> bool" where
  "timely env \<longleftrightarrow> 0 < re_interval env \<and> re_interval env * 2 ^ 32 \<le> DURATION_MAX
     \<and> (\<forall>s. re_send_time env s < re_interval env)"

lemma tick_at_exact:
  assumes "i * 2 ^ 32 \<le> DURATION_MAX" "k < 2 ^ 32"
  shows "tick_at s i (ucast (of_nat k + 1 - 1 :: u64)) = s + k * i"
proof -
  have "unat (ucast (of_nat k :: u64) :: u32) = k"
    using assms(2) by (simp add: unsigned_ucast_eq unsigned_of_nat take_bit_nat_eq_self)
  moreover have "i * k \<le> DURATION_MAX"
    using assms mult_le_mono2 [of k "2 ^ 32" i] by linarith
  ultimately show ?thesis
    by (simp add: tick_at_def ac_simps)
qed

lemma run_loop_step:
  assumes "timely env" "k < 2 ^ 32" "now \<le> re_start env + k * re_interval env"
  shows "run_loop (Suc n) env (of_nat k) now =
    (let fires = re_start env + k * re_interval env; stops = max now (re_shutdown env)
     in if stops < fires \<or> stops = fires \<and> re_prefers_stop env (of_nat (k + 1))
        then [final_envelope env k stops]
        else tick_envelope env k
             # run_loop n env (of_nat (k + 1)) (fires + re_send_time env (of_nat (k + 1))))"
  using assms tick_at_exact [of "re_interval env" k "re_start env"]
  by (simp add: timely_def Let_def max_absorb2 final_envelope_def tick_envelope_def add.commute [of _ 1])

lemma run_loop_schedule:
  assumes "timely env" "k + n < 2 ^ 32"
    and "now \<le> re_start env + k * re_interval env" "re_start env \<le> now"
    and "0 < k \<Longrightarrow> now < re_start env + k * re_interval env"
    and "0 < k \<Longrightarrow> (k - 1) * re_interval env \<le> re_shutdown env - re_start env"
    and "(re_shutdown env - re_start env) div re_interval env + 2 \<le> k + n"
  shows "\<exists>m stop. run_loop n env (of_nat k) now = map (tick_envelope env) [k..<m] @ [final_envelope env m stop]
    \<and> k \<le> m \<and> now \<le> stop \<and> re_shutdown env \<le> stop
    \<and> re_shutdown env - re_start env \<le> m * re_interval env
    \<and> (k < m \<longrightarrow> (m - 1) * re_interval env \<le> re_shutdown env - re_start env)
    \<and> stop \<le> max now (re_start env + m * re_interval env)"
  using assms
proof (induction n arbitrary: k now)
  case 0
  let ?q = "re_shutdown env - re_start env"
  have "0 < k"
    using 0(7) by simp
  with 0 have "k - 1 \<le> ?q div re_interval env"
    by (simp add: timely_def less_eq_div_iff_mult_less_eq)
  with 0(7) show ?case
    by simp
next
  case (Suc n)
  let ?i = "re_interval env" and ?q = "re_shutdown env - re_start env"
  let ?fires = "re_start env + k * ?i" and ?stops = "max now (re_shutdown env)"
  let ?next = "?fires + re_send_time env (of_nat (k + 1))"
  note step = run_loop_step [OF Suc(2) _ Suc(4), of n]
  show ?case
  proof (cases "?stops < ?fires \<or> ?stops = ?fires \<and> re_prefers_stop env (of_nat (k + 1))")
    case True
    then have "run_loop (Suc n) env (of_nat k) now = map (tick_envelope env) [k..<k] @ [final_envelope env k ?stops]"
      using step Suc(3) by (simp add: Let_def)
    with True show ?thesis
      by (intro exI [of _ k] exI [of _ ?stops]) auto
  next
    case False
    then have reached: "k * ?i \<le> ?q"
      using Suc(4-6) by (cases "k = 0") (auto simp: max_def split: if_splits)
    have early: "?next < re_start env + (k + 1) * ?i"
      using Suc(2) by (simp add: timely_def)
    obtain m stop where rest: "run_loop n env (of_nat (k + 1)) ?next
        = map (tick_envelope env) [k + 1..<m] @ [final_envelope env m stop]"
      and m: "k + 1 \<le> m" "?next \<le> stop" "re_shutdown env \<le> stop" "?q \<le> m * ?i"
        "k + 1 < m \<longrightarrow> (m - 1) * ?i \<le> ?q" "stop \<le> max ?next (re_start env + m * ?i)"
      using Suc(1) [of "k + 1" ?next] Suc(2,3,8) early reached by auto
    have "run_loop (Suc n) env (of_nat k) now = map (tick_envelope env) [k..<m] @ [final_envelope env m stop]"
      using False step rest m(1) Suc(3) by (simp add: Let_def upt_conv_Cons)
    moreover have "(m - 1) * ?i \<le> ?q"
      using m(1,5) reached by (cases "m = k + 1") auto
    moreover have "(k + 1) * ?i \<le> m * ?i"
      using m(1) by (rule mult_le_mono1)
    ultimately show ?thesis
      using m early Suc(4) by (intro exI [of _ m] exI [of _ stop]) auto
  qed
qed

text \<open>
  When every send takes less than the interval, the plain loop sends
  heartbeat \<open>k + 1\<close> exactly \<open>k\<close> intervals after the start, with consecutive
  sequence numbers, until the shutdown signal resolves; then it sends one
  going-offline heartbeat with the next sequence number and returns. The
  number of iterations given is enough.
\<close>

lemma run_schedule:
  assumes "timely env"
    and "(re_shutdown env - re_start env) div re_interval env + 2 \<le> n" "n < 2 ^ 32"
  shows "\<exists>m stop. run n env = map (tick_envelope env) [0..<m] @ [final_envelope env m stop]
    \<and> re_shutdown env - re_start env \<le> m * re_interval env
    \<and> (m - 1) * re_interval env \<le> re_shutdown env - re_start env
    \<and> re_shutdown env \<le> stop \<and> stop \<le> re_start env + m * re_interval env"
  using run_loop_schedule [of env 0 n "re_start env"] assms
  by (fastforce simp: run_def)

definition answered_env :: run_env where
  "answered_env =
     \<lparr>re_agent = \<lparr>ab_agent_id = ''a'', ab_agent_version = ''1.0.0'', ab_agent_platform = ''windows'',
        ab_agent_hostname = ''ws1''\<rparr>,
      re_start = secs 5, re_interval = secs 30, re_shutdown = secs 70,
      re_prefers_stop = (\<lambda>_. True), re_send_time = (\<lambda>_. secs 1), re_wall = (\<lambda>_. ''t'')\<rparr>"

definition unanswered_env :: run_env where
  "unanswered_env =
     \<lparr>re_agent = \<lparr>ab_agent_id = ''a'', ab_agent_version = ''1.0.0'', ab_agent_platform = ''windows'',
        ab_agent_hostname = ''ws1''\<rparr>,
      re_start = 0, re_interval = secs (unat (hb_interval_seconds heartbeat_default)),
      re_shutdown = secs 60, re_prefers_stop = (\<lambda>_. False),
      re_send_time = (\<lambda>_. secs (3 * unat (hb_request_timeout_seconds heartbeat_default))
         + millis (sum_list (map unat (snd (send (\<lambda>_. HttpError ''timed out'') heartbeat_default))))),
      re_wall = (\<lambda>_. ''t'')\<rparr>"

lemma next_backoff_default: "next_backoff 1000 heartbeat_default = 2000"
  using f64_of_u64_exact [of 1000] f64_round_nat [of 2000]
  by (simp add: next_backoff_def heartbeat_default_def)

lemma unanswered_send_time: "re_send_time unanswered_env s = secs 33"
proof -
  have "snd (send (\<lambda>_. HttpError e) heartbeat_default) = [1000, 2000]" for e
    using next_backoff_default
    by (simp add: send_unanswered ok_answer_def heartbeat_default_def backoffs_2_3)
  then show ?thesis
    by (simp add: unanswered_env_def heartbeat_default_def secs_def millis_def)
qed

lemma unanswered_fields:
  "re_start unanswered_env = 0" "re_interval unanswered_env = secs 30"
  "re_shutdown unanswered_env = secs 60" "re_prefers_stop unanswered_env s = False"
  by (simp_all add: unanswered_env_def heartbeat_default_def)

text \<open>
  A send that outlasts the interval delays the next heartbeat: with
  the default configuration and a server that never answers, the three
  attempts and their two waits take 33 seconds, and the second heartbeat
  leaves 33 seconds after the start instead of 30.
\<close>

lemma late_heartbeat:
  "map he_uptime_seconds (run 3 unanswered_env) = [0, 33, 66]
   \<and> hb_interval_seconds heartbeat_default = 30"
  by (simp add: run_def numeral_3_eq_3 unanswered_send_time unanswered_fields tick_at_def
      build_envelope_def secs_def DURATION_MAX_def Let_def heartbeat_default_def)

end
