(* ===== verification/Delivery.thy ===== *)
theory Delivery
  imports Heartbeat Event_Ring
begin

text \<open>
  The secure path's delivery loop (\<open>delivery.rs\<close>). The loop runs between its
  await points: a step is what the code does from one await to the next, given
  the clock, the answer to the attempt in progress, or the shutdown signal;
  captured events arrive in the ring between steps. The sender, the random
  source and the clocks are the environment's part of a step.
\<close>

section \<open>The loop's data\<close>

definition MAX_BATCH_EVENTS :: usize where
  "MAX_BATCH_EVENTS = 1024"

definition MAX_BATCH_LATENCY :: duration where
  "MAX_BATCH_LATENCY = millis 5000"

definition POLL_INTERVAL :: duration where
  "POLL_INTERVAL = millis 100"

record batch =
  bt_sequence :: u64
  bt_events :: "cges_event list"

record pending =
  pd_batch :: batch
  pd_transient_failures :: u32
  pd_rejections :: u32
  pd_backoff_ms :: u64

record finished =
  fi_undelivered :: usize
  fi_expired :: bool

datatype attempt = Delivered | Transient string | Rejected u16

datatype send_result =
    SendStatus u16
  | SendTransient string
  | ServerCertFatal string
  | ClientCertFatal string

record delivery =
  dl_agent_block :: agent_block
  dl_agent_id :: string
  dl_heartbeat :: heartbeat_config
  dl_start_time :: instant
  dl_ring :: "event_ring option"
  dl_paths :: device_path_map
  dl_unresolved :: unresolved_path_log
  dl_overflow :: overflow_warning
  dl_sequence :: u64

definition delivery_new ::
    "agent_block \<Rightarrow> string \<Rightarrow> heartbeat_config \<Rightarrow> instant \<Rightarrow> event_ring option \<Rightarrow> device_path_map \<Rightarrow> delivery" where
  "delivery_new agent_block agent_id heartbeat start_time ring paths =
     \<lparr>dl_agent_block = agent_block, dl_agent_id = agent_id, dl_heartbeat = heartbeat,
      dl_start_time = start_time, dl_ring = ring, dl_paths = paths,
      dl_unresolved = unresolved_path_log_new, dl_overflow = overflow_warning_new, dl_sequence = 0\<rparr>"

section \<open>Batches\<close>

definition batch_due :: "instant \<Rightarrow> delivery \<Rightarrow> bool" where
  "batch_due now d =
     (case dl_ring d of
        None \<Rightarrow> False
      | Some r \<Rightarrow>
          if MAX_BATCH_EVENTS \<le> ring_len r then True
          else case oldest_enqueued_at r of
                 None \<Rightarrow> False
               | Some t \<Rightarrow> MAX_BATCH_LATENCY \<le> now - t)"

definition render_event ::
    "string \<Rightarrow> device_path_map \<Rightarrow> ring_event \<Rightarrow> unresolved_path_log \<Rightarrow> cges_event \<times> unresolved_path_log" where
  "render_event agent_id paths ev seen =
     (case ev of
        Process e \<Rightarrow>
          let rendered = render_process_activity e agent_id paths;
              (_, seen') = note_unresolved (ce_image_file_name e)
                            (cp_image_file_name (pa_process rendered)) seen
          in (CgesProcessEvent rendered, seen')
      | Network e \<Rightarrow> (CgesNetworkEvent (render_network_activity e agent_id), seen)
      | Logon e \<Rightarrow> (CgesAuthenticationEvent (render_authentication e), seen))"

fun render_events ::
    "string \<Rightarrow> device_path_map \<Rightarrow> ring_event list \<Rightarrow> unresolved_path_log \<Rightarrow> cges_event list \<times> unresolved_path_log" where
  "render_events agent_id paths [] seen = ([], seen)"
| "render_events agent_id paths (ev # evs) seen =
     (let (c, seen') = render_event agent_id paths ev seen;
          (cs, seen'') = render_events agent_id paths evs seen'
      in (c # cs, seen''))"

definition form_batch :: "delivery \<Rightarrow> batch \<times> delivery" where
  "form_batch d =
     (let (captured, ring) =
            (case dl_ring d of
               None \<Rightarrow> ([], None)
             | Some r \<Rightarrow> let (evs, r') = drain_up_to MAX_BATCH_EVENTS r in (evs, Some r'));
          (events, seen) = render_events (dl_agent_id d) (dl_paths d) captured (dl_unresolved d);
          d' = d\<lparr>dl_ring := ring, dl_unresolved := seen, dl_sequence := dl_sequence d + 1\<rparr>
      in (\<lparr>bt_sequence = dl_sequence d', bt_events = events\<rparr>, d'))"

definition drop_rejected :: "batch \<Rightarrow> delivery \<Rightarrow> delivery" where
  "drop_rejected b d =
     d\<lparr>dl_ring := map_option (add_dropped (of_nat (length (bt_events b)))) (dl_ring d)\<rparr>"

definition undelivered :: "pending option \<Rightarrow> delivery \<Rightarrow> usize" where
  "undelivered in_flight d =
     (case dl_ring d of None \<Rightarrow> 0 | Some r \<Rightarrow> ring_len r)
     + (case in_flight of None \<Rightarrow> 0 | Some p \<Rightarrow> length (bt_events (pd_batch p)))"

section \<open>One attempt\<close>

record crypto =
  cy_b64url :: "bytes \<Rightarrow> string"
  cy_jcs :: "json \<Rightarrow> string + bytes"
  cy_sign :: "bytes \<Rightarrow> bytes"

text \<open>
  What the environment supplies to one attempt: the clock, the wall clock in
  text, the random bytes, and the sender's result, none on a timeout.
\<close>

record answer =
  an_now :: instant
  an_sent_at :: string
  an_random :: "string + bytes"
  an_result :: "send_result option"

definition attempt_envelope ::
    "crypto \<Rightarrow> answer \<Rightarrow> batch \<Rightarrow> heartbeat_status \<Rightarrow> delivery \<Rightarrow> signing_error + outer_envelope" where
  "attempt_envelope cy a b status d =
     (let inner = (build_envelope (dl_agent_block d) (bt_sequence b) (dl_start_time d) (an_now a)
                     (an_sent_at a) status)\<lparr>he_events := bt_events b\<rparr>
      in seal_envelope (cy_b64url cy) (cy_jcs cy) (cy_sign cy) (an_random a) inner (dl_agent_id d)
           (he_sent_at inner))"

definition attempt_within ::
    "crypto \<Rightarrow> answer \<Rightarrow> batch \<Rightarrow> heartbeat_status \<Rightarrow> delivery \<Rightarrow> agent_error + attempt" where
  "attempt_within cy a b status d =
     (case attempt_envelope cy a b status d of
        Inl e \<Rightarrow> Inl (SigningErr e)
      | Inr outer \<Rightarrow>
          let result = (case an_result a of
                          Some r \<Rightarrow> r
                        | None \<Rightarrow> SendTransient ''request timed out'')
          in case result of
               SendStatus s \<Rightarrow>
                 if 200 \<le> s \<and> s < 300 then Inr Delivered
                 else if 500 \<le> s \<and> s < 600 then Inr (Transient (''server status '' @ dec (unat s)))
                 else Inr (Rejected s)
             | SendTransient m \<Rightarrow> Inr (Transient m)
             | ServerCertFatal m \<Rightarrow> Inl (TlsErr (ServerCertUntrusted m))
             | ClientCertFatal m \<Rightarrow> Inl (TlsErr (ClientCertRejected m)))"

section \<open>The loop\<close>

datatype pc = Top | Idle | Sending | BackingOff u64 | Stopped | Failed agent_error

record loop =
  lp_delivery :: delivery
  lp_next_tick :: u32
  lp_heartbeat_due :: bool
  lp_batch_post_since_tick :: bool
  lp_in_flight :: "pending option"
  lp_pc :: pc

definition loop_start :: "delivery \<Rightarrow> loop" where
  "loop_start d =
     \<lparr>lp_delivery = d, lp_next_tick = 0, lp_heartbeat_due = False, lp_batch_post_since_tick = False,
      lp_in_flight = None, lp_pc = Top\<rparr>"

definition loop_interval :: "loop \<Rightarrow> duration" where
  "loop_interval l = secs (unat (hb_interval_seconds (dl_heartbeat (lp_delivery l))))"

definition next_tick_at :: "loop \<Rightarrow> instant" where
  "next_tick_at l = tick_at (dl_start_time (lp_delivery l)) (loop_interval l) (lp_next_tick l)"

text \<open>The catch-up loop over missed ticks; it has no value where it would not end.\<close>

partial_function (option) advance_tick :: "instant \<Rightarrow> duration \<Rightarrow> instant \<Rightarrow> u32 \<Rightarrow> u32 option" where
  "advance_tick start interval now k =
     (if tick_at start interval k \<le> now
      then advance_tick start interval now (saturating_add k 1)
      else Some k)"

definition clock_ticks :: "instant \<Rightarrow> loop \<Rightarrow> loop option" where
  "clock_ticks now l =
     (if next_tick_at l \<le> now
      then map_option
        (\<lambda>k. l\<lparr>lp_heartbeat_due := lp_heartbeat_due l \<or> \<not> lp_batch_post_since_tick l,
               lp_batch_post_since_tick := False, lp_next_tick := k\<rparr>)
        (advance_tick (dl_start_time (lp_delivery l)) (loop_interval l) now (lp_next_tick l))
      else Some l)"

definition check_overflow :: "instant \<Rightarrow> loop \<Rightarrow> loop" where
  "check_overflow now l =
     (let d = lp_delivery l
      in case dl_ring d of
           None \<Rightarrow> l
         | Some r \<Rightarrow> l\<lparr>lp_delivery := d\<lparr>dl_overflow := snd (overflow_warning_check r now (dl_overflow d))\<rparr>\<rparr>)"

definition form_if_due :: "instant \<Rightarrow> loop \<Rightarrow> loop" where
  "form_if_due now l =
     (if lp_in_flight l = None \<and> (lp_heartbeat_due l \<or> batch_due now (lp_delivery l))
      then let (b, d) = form_batch (lp_delivery l)
           in l\<lparr>lp_delivery := d,
                lp_batch_post_since_tick := lp_batch_post_since_tick l \<or> \<not> lp_heartbeat_due l,
                lp_heartbeat_due := False,
                lp_in_flight := Some \<lparr>pd_batch = b, pd_transient_failures = 0, pd_rejections = 0,
                   pd_backoff_ms = hb_backoff_initial_ms (dl_heartbeat d)\<rparr>\<rparr>
      else l)"

definition loop_top :: "instant \<Rightarrow> loop \<Rightarrow> loop option" where
  "loop_top now l =
     map_option
       (\<lambda>l1. let l2 = form_if_due now (check_overflow now l1)
             in l2\<lparr>lp_pc := (if lp_in_flight l2 = None then Idle else Sending)\<rparr>)
       (clock_ticks now l)"

definition idle_wake_at :: "instant \<Rightarrow> loop \<Rightarrow> instant" where
  "idle_wake_at now l = min (next_tick_at l) (now + POLL_INTERVAL)"

datatype verdict = Retry | CloseDelivered | CloseGivenUp | CloseDropped u16

definition judge :: "heartbeat_config \<Rightarrow> attempt \<Rightarrow> pending \<Rightarrow> pending \<times> verdict" where
  "judge h a p =
     (case a of
        Delivered \<Rightarrow> (p, CloseDelivered)
      | Transient e \<Rightarrow>
          let p' = p\<lparr>pd_transient_failures := pd_transient_failures p + 1\<rparr>
          in (p', if bt_events (pd_batch p') = [] \<and> hb_max_retries h \<le> pd_transient_failures p'
                  then CloseGivenUp else Retry)
      | Rejected s \<Rightarrow>
          let p' = p\<lparr>pd_rejections := pd_rejections p + 1\<rparr>
          in (p', if hb_max_retries h \<le> pd_rejections p' then CloseDropped s else Retry))"

definition settle :: "attempt \<Rightarrow> pending \<Rightarrow> loop \<Rightarrow> loop" where
  "settle a p l =
     (let h = dl_heartbeat (lp_delivery l)
      in case judge h a p of
           (p', Retry) \<Rightarrow>
             l\<lparr>lp_in_flight := Some (p'\<lparr>pd_backoff_ms := next_backoff (pd_backoff_ms p') h\<rparr>),
               lp_pc := BackingOff (pd_backoff_ms p')\<rparr>
         | (p', CloseDropped s) \<Rightarrow>
             l\<lparr>lp_delivery := drop_rejected (pd_batch p') (lp_delivery l), lp_in_flight := None, lp_pc := Top\<rparr>
         | (p', _) \<Rightarrow> l\<lparr>lp_in_flight := None, lp_pc := Top\<rparr>)"

definition attempt_step :: "crypto \<Rightarrow> answer \<Rightarrow> pending \<Rightarrow> loop \<Rightarrow> loop" where
  "attempt_step cy a p l =
     (case attempt_within cy a (pd_batch p) Online (lp_delivery l) of
        Inl e \<Rightarrow> l\<lparr>lp_pc := Failed e\<rparr>
      | Inr r \<Rightarrow> settle r p l)"

definition capture_event :: "instant \<Rightarrow> ring_event \<Rightarrow> loop \<Rightarrow> loop" where
  "capture_event now e l =
     l\<lparr>lp_delivery := (lp_delivery l)\<lparr>dl_ring := map_option (enqueue_or_drop now e) (dl_ring (lp_delivery l))\<rparr>\<rparr>"

text \<open>
  The loop between its awaits, with captured events arriving at any moment.
  The label is what the environment contributed.
\<close>

datatype event = Clock instant | Woken | Answered answer | Rested | Shutdown | Captured instant ring_event

inductive step :: "crypto \<Rightarrow> loop \<Rightarrow> event \<Rightarrow> loop \<Rightarrow> bool" for cy where
  top: "lp_pc l = Top \<Longrightarrow> loop_top now l = Some l' \<Longrightarrow> step cy l (Clock now) l'"
| woken: "lp_pc l = Idle \<Longrightarrow> step cy l Woken (l\<lparr>lp_pc := Top\<rparr>)"
| idle_stop: "lp_pc l = Idle \<Longrightarrow> step cy l Shutdown (l\<lparr>lp_pc := Stopped\<rparr>)"
| answered: "lp_pc l = Sending \<Longrightarrow> lp_in_flight l = Some p \<Longrightarrow>
    step cy l (Answered a) (attempt_step cy a p l)"
| sending_stop: "lp_pc l = Sending \<Longrightarrow> step cy l Shutdown (l\<lparr>lp_pc := Stopped\<rparr>)"
| rested: "lp_pc l = BackingOff ms \<Longrightarrow> step cy l Rested (l\<lparr>lp_pc := Top\<rparr>)"
| backoff_stop: "lp_pc l = BackingOff ms \<Longrightarrow> step cy l Shutdown (l\<lparr>lp_pc := Stopped\<rparr>)"
| captured: "step cy l (Captured now e) (capture_event now e l)"

section \<open>The final POST\<close>

definition finish ::
    "crypto \<Rightarrow> answer \<Rightarrow> pending option \<Rightarrow> instant option \<Rightarrow> instant \<Rightarrow> delivery \<Rightarrow> finished \<times> delivery" where
  "finish cy a in_flight deadline now_after d =
     (let (b, d') = (case in_flight of Some p \<Rightarrow> (pd_batch p, d) | None \<Rightarrow> form_batch d);
          request_timeout = secs (unat (hb_request_timeout_seconds (dl_heartbeat d')));
          bounded = (case deadline of Some t \<Rightarrow> t - an_now a < request_timeout | None \<Rightarrow> False);
          delivered = (attempt_within cy a b GoingOffline d' = Inr Delivered);
          expired = (\<not> delivered \<and> bounded \<and> (case deadline of Some t \<Rightarrow> t \<le> now_after | None \<Rightarrow> False));
          left_in_ring = (case dl_ring d' of None \<Rightarrow> 0 | Some r \<Rightarrow> ring_len r)
      in (\<lparr>fi_undelivered = left_in_ring + (if delivered then 0 else length (bt_events b)),
           fi_expired = expired\<rparr>, d'))"

definition final_timeout :: "instant option \<Rightarrow> instant \<Rightarrow> delivery \<Rightarrow> duration" where
  "final_timeout deadline now d =
     (let request_timeout = secs (unat (hb_request_timeout_seconds (dl_heartbeat d)))
      in case deadline of Some t \<Rightarrow> min (t - now) request_timeout | None \<Rightarrow> request_timeout)"

section \<open>Executions\<close>

text \<open>
  An execution of the loop and what it did: the ring operations in order, the
  POSTs formed, the POSTs closed with their verdicts, and the envelopes handed
  to the sender.
\<close>

record history =
  hi_ops :: "ring_event fifo_op list"
  hi_formed :: "batch list"
  hi_closed :: "(batch \<times> verdict) list"
  hi_sent :: "outer_envelope list"

definition history_start :: history where
  "history_start = \<lparr>hi_ops = [], hi_formed = [], hi_closed = [], hi_sent = []\<rparr>"

definition observe_close :: "batch \<Rightarrow> verdict \<Rightarrow> history \<Rightarrow> history" where
  "observe_close b v h =
     (case v of
        Retry \<Rightarrow> h
      | CloseDropped s \<Rightarrow>
          h\<lparr>hi_ops := hi_ops h @ [CountLost (of_nat (length (bt_events b)))],
            hi_closed := hi_closed h @ [(b, v)]\<rparr>
      | _ \<Rightarrow> h\<lparr>hi_closed := hi_closed h @ [(b, v)]\<rparr>)"

definition observe_attempt :: "crypto \<Rightarrow> answer \<Rightarrow> pending \<Rightarrow> loop \<Rightarrow> history \<Rightarrow> history" where
  "observe_attempt cy a p l h =
     (let h' = (case attempt_envelope cy a (pd_batch p) Online (lp_delivery l) of
                  Inl _ \<Rightarrow> h
                | Inr e \<Rightarrow> h\<lparr>hi_sent := hi_sent h @ [e]\<rparr>)
      in case attempt_within cy a (pd_batch p) Online (lp_delivery l) of
           Inl _ \<Rightarrow> h'
         | Inr r \<Rightarrow> observe_close (pd_batch p) (snd (judge (dl_heartbeat (lp_delivery l)) r p)) h')"

definition observe :: "crypto \<Rightarrow> loop \<Rightarrow> event \<Rightarrow> loop \<Rightarrow> history \<Rightarrow> history" where
  "observe cy l ev l' h =
     (case ev of
        Captured t e \<Rightarrow> h\<lparr>hi_ops := hi_ops h @ [Put t e]\<rparr>
      | Clock now \<Rightarrow>
          (case (lp_in_flight l, lp_in_flight l') of
             (None, Some p) \<Rightarrow>
               h\<lparr>hi_ops := hi_ops h @ [Take MAX_BATCH_EVENTS], hi_formed := hi_formed h @ [pd_batch p]\<rparr>
           | _ \<Rightarrow> h)
      | Answered a \<Rightarrow>
          (case lp_in_flight l of Some p \<Rightarrow> observe_attempt cy a p l h | None \<Rightarrow> h)
      | _ \<Rightarrow> h)"

inductive exec :: "crypto \<Rightarrow> delivery \<Rightarrow> loop \<Rightarrow> history \<Rightarrow> bool" for cy d where
  exec_start: "exec cy d (loop_start d) history_start"
| exec_step: "exec cy d l h \<Longrightarrow> step cy l ev l' \<Longrightarrow> exec cy d l' (observe cy l ev l' h)"

inductive_cases stepE: "step cy l ev l'"

inductive_simps step_simps:
  "step cy l (Clock now) l'"
  "step cy l Woken l'"
  "step cy l (Answered a) l'"
  "step cy l Rested l'"
  "step cy l Shutdown l'"
  "step cy l (Captured t e) l'"

end
