(* ===== verification/Tls_Client.thy ===== *)
theory Tls_Client
  imports Agent_Keys Delivery
begin

text \<open>
  The TLS client (\<open>tls.rs\<close>): the two configurations it builds, the address it
  takes from the server's URL, the HTTP exchange after the handshake, and the
  classification of a failure. The TLS library is a parameter: the suites it
  offers, its PEM reader, its root store, its name check and the errors it
  reports. A configuration is what the agent asked the library for.
\<close>

section \<open>Configurations\<close>

datatype cipher_suite =
    TLS13_AES_256_GCM_SHA384
  | TLS13_CHACHA20_POLY1305_SHA256
  | TLS13_AES_128_GCM_SHA256
  | OtherSuite u16

datatype tls_version = TLS13 | TLS12

datatype pem_error =
    MissingSectionEnd string
  | IllegalSectionStart string
  | Base64Decode string
  | OtherPem string

record tls_lib =
  tl_suites :: "cipher_suite list"
  tl_pem :: "bytes \<Rightarrow> (pem_error, bytes list) result"
  tl_add_root :: "bytes \<Rightarrow> (string, unit) result"
  tl_versions :: "tls_version list \<Rightarrow> (string, unit) result"
  tl_pkcs8 :: "bytes \<Rightarrow> (string, bytes) result"
  tl_key_der :: "bytes \<Rightarrow> (string, bytes) result"
  tl_client_auth :: "bytes list \<Rightarrow> bytes \<Rightarrow> (string, unit) result"
  tl_server_name :: "string \<Rightarrow> (string, unit) result"
  tl_debug :: "string \<Rightarrow> string"

record client_config =
  cc_suites :: "cipher_suite list"
  cc_versions :: "tls_version list"
  cc_roots :: "bytes list"
  cc_client_auth :: "(bytes list \<times> bytes) option"

definition restricted_provider :: "tls_lib \<Rightarrow> cipher_suite list" where
  "restricted_provider lib =
     filter (\<lambda>cs. cs = TLS13_AES_256_GCM_SHA384 \<or> cs = TLS13_CHACHA20_POLY1305_SHA256) (tl_suites lib)"

fun pem_error_text :: "tls_lib \<Rightarrow> pem_error \<Rightarrow> string" where
  "pem_error_text lib (MissingSectionEnd marker) = ''section end '' @ tl_debug lib marker @ '' missing''"
| "pem_error_text lib (IllegalSectionStart line) = ''illegal section start: '' @ tl_debug lib line"
| "pem_error_text lib (Base64Decode err) = err"
| "pem_error_text lib (OtherPem t) = t"

definition certificates_from_pem :: "tls_lib \<Rightarrow> bytes \<Rightarrow> string \<Rightarrow> (tls_error, bytes list) result" where
  "certificates_from_pem lib pem what =
     map_err (\<lambda>e. ClientConfig (what @ '' PEM: '' @ pem_error_text lib e)) (tl_pem lib pem)"

fun add_roots :: "tls_lib \<Rightarrow> bytes list \<Rightarrow> bytes list \<Rightarrow> (tls_error, bytes list) result" where
  "add_roots lib roots [] = Inr roots"
| "add_roots lib roots (cert # certs) =
     and_then (map_err (\<lambda>e. ClientConfig (''add trust anchor: '' @ e)) (tl_add_root lib cert)) (\<lambda>_.
       add_roots lib (roots @ [cert]) certs)"

definition anchor_roots :: "tls_lib \<Rightarrow> bytes \<Rightarrow> (tls_error, bytes list) result" where
  "anchor_roots lib pem =
     and_then (certificates_from_pem lib pem ''trust anchor'') (\<lambda>certs.
     and_then (add_roots lib [] certs) (\<lambda>roots.
       if roots = [] then Inl (ClientConfig ''trust anchor contains no certificates'') else Inr roots))"

definition build_enrollment_config :: "tls_lib \<Rightarrow> bytes \<Rightarrow> (tls_error, client_config) result" where
  "build_enrollment_config lib anchor =
     and_then (anchor_roots lib anchor) (\<lambda>roots.
     and_then (map_err (\<lambda>e. ClientConfig (''tls versions: '' @ e)) (tl_versions lib [TLS13])) (\<lambda>_.
       Inr \<lparr>cc_suites = restricted_provider lib, cc_versions = [TLS13], cc_roots = roots, cc_client_auth = None\<rparr>))"

definition build_client_config :: "tls_lib \<Rightarrow> bytes \<Rightarrow> agent_id_value \<Rightarrow> (tls_error, client_config) result" where
  "build_client_config lib anchor identity =
     and_then (anchor_roots lib anchor) (\<lambda>roots.
     and_then (certificates_from_pem lib (as_bytes (id_certificate_pem identity)) ''client cert'') (\<lambda>chain.
       if chain = [] then Inl (ClientConfig ''client certificate PEM is empty'')
       else
         and_then (map_err (\<lambda>e. ClientConfig (''client key to pkcs8: '' @ e)) (tl_pkcs8 lib (kp_secret (id_keypair identity)))) (\<lambda>pkcs8.
         and_then (map_err (\<lambda>e. ClientConfig (''client key der: '' @ e)) (tl_key_der lib pkcs8)) (\<lambda>key.
         and_then (map_err (\<lambda>e. ClientConfig (''tls versions: '' @ e)) (tl_versions lib [TLS13])) (\<lambda>_.
         and_then (map_err (\<lambda>e. ClientConfig (''client auth: '' @ e)) (tl_client_auth lib chain key)) (\<lambda>_.
           Inr \<lparr>cc_suites = restricted_provider lib, cc_versions = [TLS13], cc_roots = roots,
                cc_client_auth = Some (chain, key)\<rparr>))))))"

section \<open>The address\<close>

record secure_sender =
  sn_config :: client_config
  sn_host :: string
  sn_port :: u16
  sn_timeout :: duration

text \<open>\<open>str::parse::<u16>\<close>: an optional plus sign, digits, a value below \<open>2^16\<close>.\<close>

definition parse_u16 :: "string \<Rightarrow> u16 option" where
  "parse_u16 s =
     (let digits = (case s of c # t \<Rightarrow> if c = CHR ''+'' then t else s | [] \<Rightarrow> [])
      in if digits \<noteq> [] \<and> list_all is_ascii_digit digits \<and> digits_value digits < 65536
         then Some (of_nat (digits_value digits)) else None)"

text \<open>\<open>str::rsplit_once\<close>: the parts before and after the last separator.\<close>

definition rsplit_once :: "char \<Rightarrow> string \<Rightarrow> (string \<times> string) option" where
  "rsplit_once c s =
     (if c \<in> set s
      then Some (rev (tl (dropWhile (\<lambda>x. x \<noteq> c) (rev s))), rev (takeWhile (\<lambda>x. x \<noteq> c) (rev s)))
      else None)"

definition host_and_port :: "string \<Rightarrow> string \<times> u16" where
  "host_and_port authority =
     (case rsplit_once CHR '':'' authority of
        Some (h, p) \<Rightarrow> (h, case parse_u16 p of Some n \<Rightarrow> n | None \<Rightarrow> 443)
      | None \<Rightarrow> (authority, 443))"

definition sender_new :: "tls_lib \<Rightarrow> client_config \<Rightarrow> string \<Rightarrow> duration \<Rightarrow> (tls_error, secure_sender) result" where
  "sender_new lib config server_url timeout =
     and_then (ok_or (ClientConfig (''secure path requires an https:// URL, got '' @ server_url))
                (strip_prefix server_url ''https://'')) (\<lambda>after.
       let (host, prt) = host_and_port (takeWhile (\<lambda>c. c \<noteq> CHR ''/'') after)
       in and_then (map_err (\<lambda>e. ClientConfig (''invalid server name '' @ host @ '': '' @ e)) (tl_server_name lib host)) (\<lambda>_.
            Inr \<lparr>sn_config = config, sn_host = host, sn_port = prt, sn_timeout = timeout\<rparr>))"

section \<open>The exchange\<close>

text \<open>
  \<open>String::from_utf8_lossy\<close>, as code points: a maximal prefix of a
  well-formed sequence that is not one becomes one replacement character.
\<close>

definition REPLACEMENT :: nat where
  "REPLACEMENT = 0xFFFD"

definition cont :: "u8 \<Rightarrow> nat" where
  "cont b = unat b - 0x80"

definition second_ok :: "u8 \<Rightarrow> u8 \<Rightarrow> bool" where
  "second_ok a b \<longleftrightarrow> continuation b \<and> (a = 0xE0 \<longrightarrow> 0xA0 \<le> b) \<and> (a = 0xED \<longrightarrow> b \<le> 0x9F)
     \<and> (a = 0xF0 \<longrightarrow> 0x90 \<le> b) \<and> (a = 0xF4 \<longrightarrow> b \<le> 0x8F)"

text \<open>The code point at a first byte, and how many of the bytes after it belong to it.\<close>

definition lossy_step :: "u8 \<Rightarrow> bytes \<Rightarrow> nat \<times> nat" where
  "lossy_step a bs =
     (if a < 0x80 then (unat a, 0)
      else if \<not> (0xC2 \<le> a \<and> a \<le> 0xF4) then (REPLACEMENT, 0)
      else case bs of
        [] \<Rightarrow> (REPLACEMENT, 0)
      | b # cs \<Rightarrow>
          if \<not> second_ok a b then (REPLACEMENT, 0)
          else if a \<le> 0xDF then ((unat a - 0xC0) * 64 + cont b, 1)
          else case cs of
            [] \<Rightarrow> (REPLACEMENT, 1)
          | c # ds \<Rightarrow>
              if \<not> continuation c then (REPLACEMENT, 1)
              else if a \<le> 0xEF then ((unat a - 0xE0) * 4096 + cont b * 64 + cont c, 2)
              else case ds of
                [] \<Rightarrow> (REPLACEMENT, 2)
              | d # es \<Rightarrow>
                  if \<not> continuation d then (REPLACEMENT, 2)
                  else ((unat a - 0xF0) * 262144 + cont b * 4096 + cont c * 64 + cont d, 3))"

fun decode_lossy :: "bytes \<Rightarrow> nat list" where
  "decode_lossy [] = []"
| "decode_lossy (a # bs) = fst (lossy_step a bs) # decode_lossy (drop (snd (lossy_step a bs)) bs)"

text \<open>The code points of Unicode's \<open>White_Space\<close>.\<close>

definition white_space :: "nat \<Rightarrow> bool" where
  "white_space c \<longleftrightarrow> 9 \<le> c \<and> c \<le> 13 \<or> c = 32 \<or> c = 0x85 \<or> c = 0xA0 \<or> c = 0x1680 \<or> 0x2000 \<le> c \<and> c \<le> 0x200A
     \<or> c = 0x2028 \<or> c = 0x2029 \<or> c = 0x202F \<or> c = 0x205F \<or> c = 0x3000"

text \<open>\<open>split_whitespace\<close>: the maximal runs without white space.\<close>

function words_of :: "nat list \<Rightarrow> nat list list" where
  "words_of cs =
     (case dropWhile white_space cs of
        [] \<Rightarrow> []
      | w # ws \<Rightarrow> takeWhile (\<lambda>c. \<not> white_space c) (w # ws) # words_of (dropWhile (\<lambda>c. \<not> white_space c) (w # ws)))"

  by pat_completeness auto

termination
proof (relation "measure length", simp)
  fix cs w and ws :: "nat list"
  assume a: "dropWhile white_space cs = w # ws"
  then have "\<not> white_space w"
    by (metis hd_dropWhile list.discI list.sel(1))
  then have "length (dropWhile (\<lambda>c. \<not> white_space c) (w # ws)) \<le> length ws"
    by (simp add: length_dropWhile_le)
  moreover have "length (w # ws) \<le> length cs"
    using a length_dropWhile_le [of white_space cs] by simp
  ultimately show "(dropWhile (\<lambda>c. \<not> white_space c) (w # ws), cs) \<in> measure length"
    by simp
qed

declare words_of.simps [simp del]

text \<open>\<open>str::lines\<close>: the first line, without its line end; none of an empty text.\<close>

definition first_line :: "nat list \<Rightarrow> nat list option" where
  "first_line cs =
     (if cs = [] then None
      else let line = takeWhile (\<lambda>c. c \<noteq> 10) cs
           in Some (if 10 \<in> set cs \<and> line \<noteq> [] \<and> last line = 13 then butlast line else line))"

text \<open>The code points of a word that are all below 128 read as characters.\<close>

definition parse_u16_points :: "nat list \<Rightarrow> u16 option" where
  "parse_u16_points w = (if list_all (\<lambda>c. c < 128) w then parse_u16 (map char_of w) else None)"

definition parse_status :: "bytes \<Rightarrow> u16 option" where
  "parse_status buf =
     (case first_line (decode_lossy buf) of
        None \<Rightarrow> None
      | Some line \<Rightarrow> (case words_of line of _ # w # _ \<Rightarrow> parse_u16_points w | _ \<Rightarrow> None))"

datatype exchange_fail = ExchangeRefused string | ExchangeTransient string

definition has_crlf :: "bytes \<Rightarrow> bool" where
  "has_crlf buf \<longleftrightarrow> sublist [13, 10] buf"

text \<open>
  What the connection answers to each read: bytes, the end (no bytes), or an
  error. The list holds the answers in order; reading past it is the end.
\<close>

fun read_head :: "(string, bytes) result list \<Rightarrow> bytes \<Rightarrow> (exchange_fail, bytes) result" where
  "read_head [] buf = Inr buf"
| "read_head (Inl e # answers) buf =
     (if buf = [] then Inl (ExchangeRefused (''server refused the authenticated session: '' @ e))
      else Inl (ExchangeTransient (''read: '' @ e)))"
| "read_head (Inr chunk # answers) buf =
     (if chunk = [] then Inr buf
      else if has_crlf (buf @ chunk) then Inr (buf @ chunk)
      else read_head answers (buf @ chunk))"

definition request_head :: "string \<Rightarrow> string \<Rightarrow> nat \<Rightarrow> string" where
  "request_head path host len =
     (let crlf = [CHR 0x0D, CHR 0x0A]
      in ''POST '' @ path @ '' HTTP/1.1'' @ crlf @ ''Host: '' @ host @ crlf @ ''Content-Type: application/json'' @ crlf
         @ ''Content-Length: '' @ dec len @ crlf @ ''Connection: close'' @ crlf @ crlf)"

text \<open>The connection: what each write and the flush answer, and what it carries to the server.\<close>

record connection =
  cn_writes :: "bytes \<Rightarrow> (string, unit) result"
  cn_flush :: "(string, unit) result"
  cn_reads :: "(string, bytes) result list"

definition exchange :: "string \<Rightarrow> connection \<Rightarrow> string \<Rightarrow> bytes \<Rightarrow> (exchange_fail, u16) result" where
  "exchange host conn path body =
     and_then (map_err (\<lambda>e. ExchangeTransient (''write: '' @ e)) (cn_writes conn (as_bytes (request_head path host (length body))))) (\<lambda>_.
     and_then (map_err (\<lambda>e. ExchangeTransient (''write: '' @ e)) (cn_writes conn body)) (\<lambda>_.
     and_then (map_err (\<lambda>e. ExchangeTransient (''flush: '' @ e)) (cn_flush conn)) (\<lambda>_.
     and_then (read_head (cn_reads conn) []) (\<lambda>buf.
       if buf = []
       then Inl (ExchangeRefused ''server closed the authenticated connection without an HTTP response'')
       else ok_or (ExchangeTransient ''incomplete HTTP response'') (parse_status buf)))))"

section \<open>Failures\<close>

datatype alert =
    AccessDenied | BadCertificate | CertificateExpired | CertificateRevoked | CertificateUnknown
  | UnknownCA | CertificateRequired | UnsupportedCertificate | OtherAlert u8

datatype rustls_error =
    InvalidCertificate string
  | AlertReceived alert string
  | OtherRustls string

fun rustls_text :: "rustls_error \<Rightarrow> string" where
  "rustls_text (InvalidCertificate t) = t"
| "rustls_text (AlertReceived _ t) = t"
| "rustls_text (OtherRustls t) = t"

text \<open>
  An error value: a TLS error, an I/O error with what it carries, or another
  error with its source. The source of an I/O error is the source of what it
  carries.
\<close>

datatype error_value =
    Tls_Error rustls_error
  | Io_Error string "error_value option"
  | Other_Error string "error_value option"

fun error_text :: "error_value \<Rightarrow> string" where
  "error_text (Tls_Error r) = rustls_text r"
| "error_text (Io_Error t _) = t"
| "error_text (Other_Error t _) = t"

fun error_source :: "error_value \<Rightarrow> error_value option" where
  "error_source (Tls_Error r) = None"
| "error_source (Io_Error t None) = None"
| "error_source (Io_Error t (Some inner)) = error_source inner"
| "error_source (Other_Error t src) = src"

fun client_cert_alert :: "alert \<Rightarrow> bool" where
  "client_cert_alert (OtherAlert _) = False"
| "client_cert_alert _ = True"

definition classify_handshake_error :: "error_value \<Rightarrow> send_result" where
  "classify_handshake_error e =
     (case e of
        Io_Error _ (Some (Tls_Error r)) \<Rightarrow>
          (case r of
             InvalidCertificate _ \<Rightarrow> ServerCertFatal (rustls_text r)
           | AlertReceived a _ \<Rightarrow> if client_cert_alert a then ClientCertFatal (rustls_text r) else SendTransient (rustls_text r)
           | OtherRustls _ \<Rightarrow> SendTransient (rustls_text r))
      | _ \<Rightarrow> SendTransient (error_text e))"

fun rustls_in_io :: "error_value option \<Rightarrow> rustls_error option" where
  "rustls_in_io None = None"
| "rustls_in_io (Some (Tls_Error r)) = Some r"
| "rustls_in_io (Some (Io_Error t inner)) = rustls_in_io inner"
| "rustls_in_io (Some (Other_Error t src)) = None"

definition rustls_error_in :: "error_value \<Rightarrow> rustls_error option" where
  "rustls_error_in e =
     (case e of Tls_Error r \<Rightarrow> Some r | Io_Error _ inner \<Rightarrow> rustls_in_io inner | Other_Error _ _ \<Rightarrow> None)"

lemma error_source_smaller: "error_source e = Some e' \<Longrightarrow> size e' < size e"
  by (induction e rule: error_source.induct) auto

function untrusted_server_cert :: "error_value \<Rightarrow> string option" where
  "untrusted_server_cert e =
     (case rustls_error_in e of
        Some (InvalidCertificate t) \<Rightarrow> Some t
      | _ \<Rightarrow> (case error_source e of Some e' \<Rightarrow> untrusted_server_cert e' | None \<Rightarrow> None))"

  by pat_completeness auto

termination
  by (relation "measure size") (auto dest: error_source_smaller)

declare untrusted_server_cert.simps [simp del]

text \<open>One send: the connection attempt, the handshake and the exchange.\<close>

datatype connect_outcome = Connected | ConnectError string | ConnectTimeout

definition sender_send ::
    "secure_sender \<Rightarrow> connect_outcome \<Rightarrow> (error_value, connection) result \<Rightarrow> string \<Rightarrow> bytes \<Rightarrow> send_result" where
  "sender_send sn connect handshake path body =
     (case connect of
        ConnectError e \<Rightarrow> SendTransient (''connect: '' @ e)
      | ConnectTimeout \<Rightarrow> SendTransient ''connect timed out''
      | Connected \<Rightarrow>
          (case handshake of
             Inl e \<Rightarrow> classify_handshake_error e
           | Inr conn \<Rightarrow>
               (case exchange (sn_host sn) conn path body of
                  Inr status \<Rightarrow> SendStatus status
                | Inl (ExchangeRefused m) \<Rightarrow> ClientCertFatal m
                | Inl (ExchangeTransient m) \<Rightarrow> SendTransient m)))"

section \<open>The status does not depend on how it arrives\<close>

lemma newline_ends: "\<not> continuation 10" "\<not> second_ok a 10"
  by (simp_all add: second_ok_def continuation_def)

lemma lossy_step_newline: "lossy_step a (bs @ 10 # y) = lossy_step a bs \<and> snd (lossy_step a bs) \<le> length bs"
proof (cases bs)
  case (Cons b cs)
  show ?thesis
  proof (cases cs)
    case Nil
    then show ?thesis
      by (simp add: Cons lossy_step_def newline_ends)
  next
    case (Cons c ds)
    show ?thesis
      by (cases ds) (simp_all add: \<open>bs = b # cs\<close> Cons lossy_step_def newline_ends)
  qed
qed (simp add: lossy_step_def newline_ends)

lemma decode_lossy_newline: "decode_lossy (x @ 10 # y) = decode_lossy x @ 10 # decode_lossy y"
proof (induction x rule: decode_lossy.induct)
  case 1
  then show ?case
    by (simp add: lossy_step_def)
next
  case (2 a bs)
  then show ?case
    using lossy_step_newline [of a bs y] by simp
qed

lemma first_line_newline: "first_line (u @ 10 # v) = first_line (u @ [10])"
  by (auto simp: first_line_def Let_def takeWhile_append)

lemma parse_status_prefix:
  assumes "10 \<in> set buf"
  shows "parse_status (buf @ rest) = parse_status buf"
proof -
  obtain x y where buf: "buf = x @ 10 # y"
    using assms by (meson split_list)
  have "first_line (decode_lossy (x @ 10 # z)) = first_line (decode_lossy x @ [10])" for z
    unfolding decode_lossy_newline by (rule first_line_newline)
  from this [of y] this [of "y @ rest"] show ?thesis
    by (simp add: parse_status_def buf)
qed

lemma has_crlf_newline: "has_crlf buf \<Longrightarrow> 10 \<in> set buf"
  by (auto simp: has_crlf_def sublist_def)

lemma has_crlf_append: "has_crlf buf \<Longrightarrow> has_crlf (buf @ rest)"
  by (auto simp: has_crlf_def intro: sublist_appendI sublist_order.order_trans [of _ buf])

lemma read_head_chunks:
  "\<forall>c \<in> set chunks. c \<noteq> [] \<Longrightarrow>
   \<exists>b rest. read_head (map Inr chunks) buf = Inr b \<and> buf @ concat chunks = b @ rest \<and> (rest = [] \<or> has_crlf b)"
proof (induction chunks arbitrary: buf)
  case (Cons c chunks)
  show ?case
  proof (cases "has_crlf (buf @ c)")
    case True
    with Cons.prems show ?thesis
      by (intro exI [of _ "buf @ c"] exI [of _ "concat chunks"]) simp
  next
    case False
    with Cons.IH [of "buf @ c"] Cons.prems show ?thesis
      by simp
  qed
qed simp

text \<open>
  Claim C32. The status read after the handshake does not depend on how the
  response is cut into packets: a response that arrives in any non-empty
  pieces has the outcome of the same bytes arriving at once, though reading
  stops at the first line end.
\<close>

theorem exchange_chunking:
  assumes "\<forall>c \<in> set chunks. c \<noteq> []"
  shows "exchange host \<lparr>cn_writes = w, cn_flush = f, cn_reads = map Inr chunks\<rparr> path body
    = exchange host \<lparr>cn_writes = w, cn_flush = f, cn_reads = [Inr (concat chunks)]\<rparr> path body"
proof -
  obtain b rest where b: "read_head (map Inr chunks) [] = Inr b" "concat chunks = b @ rest" "rest = [] \<or> has_crlf b"
    using read_head_chunks [OF assms, of "[]"] by auto
  have "read_head [Inr (concat chunks)] [] = Inr (concat chunks)"
    by simp
  moreover have "parse_status (concat chunks) = parse_status b" "concat chunks = [] \<longleftrightarrow> b = []"
    using b(2,3) parse_status_prefix [of b rest] has_crlf_newline by (auto simp: has_crlf_def)
  ultimately show ?thesis
    using b(1) by (simp add: exchange_def)
qed

theorem exchange_chunking_witness:
  "exchange ''h'' \<lparr>cn_writes = \<lambda>_. Inr (), cn_flush = Inr (), cn_reads = map Inr [[72], [32, 50], [48, 48, 13, 10]]\<rparr> ''/'' []
   = exchange ''h'' \<lparr>cn_writes = \<lambda>_. Inr (), cn_flush = Inr (), cn_reads = [Inr [72, 32, 50, 48, 48, 13, 10]]\<rparr> ''/'' []"
  using exchange_chunking [of "[[72], [32, 50], [48, 48, 13, 10]]" "''h''" "\<lambda>_. Inr ()" "Inr ()" "''/''" "[]"] by simp

text \<open>A status line cut short by the end of the connection is read as a status all the same.\<close>

lemma plus_sign: "char_of n = CHR ''+'' \<longleftrightarrow> n mod 256 = 43" for n :: nat
proof -
  have "CHR ''+'' = char_of (43 :: nat)"
    by code_simp
  then show ?thesis
    by (simp add: char_of_eq_iff take_bit_eq_mod)
qed

lemma truncated_status_line:
  "exchange ''h'' \<lparr>cn_writes = \<lambda>_. Inr (), cn_flush = Inr (), cn_reads = [Inr (as_bytes ''HTTP/1.1 20'')]\<rparr> ''/'' [] = Inr 20"
  by (simp add: exchange_def has_crlf_def as_bytes_def char_byte_def parse_status_def lossy_step_def first_line_def words_of.simps
      white_space_def parse_u16_points_def parse_u16_def is_ascii_digit_def digits_value_def of_char_of plus_sign)

section \<open>An untrusted server certificate is always recognised\<close>

text \<open>The TLS error an error value carries, through I/O errors and sources, however nested.\<close>

fun carried :: "error_value \<Rightarrow> rustls_error option" where
  "carried (Tls_Error r) = Some r"
| "carried (Io_Error t None) = None"
| "carried (Io_Error t (Some inner)) = carried inner"
| "carried (Other_Error t None) = None"
| "carried (Other_Error t (Some inner)) = carried inner"

lemma rustls_in_io_carried: "rustls_in_io v = Some r \<Longrightarrow> \<exists>e. v = Some e \<and> carried e = Some r \<and> error_source e = None"
proof (induction v rule: rustls_in_io.induct)
  case (3 t inner)
  then show ?case
    by (cases inner) auto
qed auto

lemma rustls_error_in_carried: "rustls_error_in e = Some r \<Longrightarrow> carried e = Some r \<and> error_source e = None"
  by (cases e) (auto simp: rustls_error_in_def dest: rustls_in_io_carried)

lemma carried_source: "rustls_error_in e = None \<Longrightarrow> carried e = (case error_source e of Some e' \<Rightarrow> carried e' | None \<Rightarrow> None)"
proof (induction e rule: carried.induct)
  case (3 t inner)
  then show ?case
    by (cases inner) (auto simp: rustls_error_in_def)
qed (auto simp: rustls_error_in_def)

text \<open>
  A failed request is blamed on the server's certificate exactly
  when the error carries the TLS library's invalid-certificate error, however
  the HTTP client nested it in I/O errors and in sources, and the text is that
  error's.
\<close>

lemma untrusted_exact:
  "untrusted_server_cert e = (case carried e of Some (InvalidCertificate t) \<Rightarrow> Some t | _ \<Rightarrow> None)"
proof (induction e rule: untrusted_server_cert.induct)
  case (1 e)
  show ?case
  proof (cases "rustls_error_in e")
    case None
    then show ?thesis
      using 1 carried_source [OF None]
      by (subst untrusted_server_cert.simps) (auto split: option.splits)
  next
    case (Some r)
    then show ?thesis
      using rustls_error_in_carried [OF Some]
      by (subst untrusted_server_cert.simps) (auto split: rustls_error.splits)
  qed
qed

section \<open>What a configuration offers\<close>

lemma add_roots_Inr: "add_roots lib roots certs = Inr roots' \<Longrightarrow> roots' = roots @ certs \<and> (\<forall>c \<in> set certs. tl_add_root lib c = Inr ())"
  by (induction certs arbitrary: roots) (fastforce simp: result)+

lemma anchor_roots_Inr:
  "anchor_roots lib pem = Inr roots \<Longrightarrow> tl_pem lib pem = Inr roots \<and> roots \<noteq> [] \<and> (\<forall>c \<in> set roots. tl_add_root lib c = Inr ())"
  by (auto simp: anchor_roots_def certificates_from_pem_def result split: if_splits dest: add_roots_Inr)

text \<open>
  Every configuration the agent builds offers TLS 1.3 alone, no
  suite but the two approved ones, and trusts exactly the certificates of the
  trust anchor, of which there is at least one. The heartbeat's presents the
  identity's certificates, at least one; enrollment's presents none.
\<close>

lemma config_restricted:
  assumes "build_client_config lib anchor identity = Inr c \<or> build_enrollment_config lib anchor = Inr c"
  shows "cc_versions c = [TLS13] \<and> set (cc_suites c) \<subseteq> {TLS13_AES_256_GCM_SHA384, TLS13_CHACHA20_POLY1305_SHA256}
    \<and> tl_pem lib anchor = Inr (cc_roots c) \<and> cc_roots c \<noteq> []
    \<and> (build_enrollment_config lib anchor = Inr c \<longleftrightarrow> cc_client_auth c = None)
    \<and> (\<forall>chain key. cc_client_auth c = Some (chain, key) \<longrightarrow>
         chain \<noteq> [] \<and> tl_pem lib (as_bytes (id_certificate_pem identity)) = Inr chain)"
  using assms
  by (auto simp: restricted_provider_def build_client_config_def build_enrollment_config_def certificates_from_pem_def result
      split: if_splits dest: anchor_roots_Inr)

definition sample_tls :: tls_lib where
  "sample_tls = \<lparr>tl_suites = [TLS13_AES_128_GCM_SHA256, TLS13_AES_256_GCM_SHA384], tl_pem = (\<lambda>p. Inr [p]),
     tl_add_root = (\<lambda>_. Inr ()), tl_versions = (\<lambda>_. Inr ()), tl_pkcs8 = Inr, tl_key_der = Inr,
     tl_client_auth = (\<lambda>_ _. Inr ()), tl_server_name = (\<lambda>_. Inr ()), tl_debug = id\<rparr>"

section \<open>The address of a URL\<close>

lemma rsplit_once_append: "c \<notin> set p \<Longrightarrow> rsplit_once c (h @ c # p) = Some (h, p)"
  by (simp add: rsplit_once_def takeWhile_append dropWhile_append)

lemma parse_u16_dec: "n < 65536 \<Longrightarrow> parse_u16 (dec n) = Some (of_nat n)"
proof -
  assume n: "n < 65536"
  obtain c cs where d: "dec n = c # cs"
    by (meson dec_nonempty list.exhaust)
  have "is_ascii_digit c"
    using dec_digits [of c n] d by simp
  then have "c \<noteq> CHR ''+''"
    by (auto simp: is_ascii_digit_def)
  then have "(case dec n of c # t \<Rightarrow> if c = CHR ''+'' then t else dec n | [] \<Rightarrow> []) = dec n"
    by (simp add: d)
  then show ?thesis
    using n dec_digits [of _ n] digits_value_dec [of n] by (simp add: parse_u16_def list_all_iff)
qed

lemma sender_new_address:
  assumes "CHR ''/'' \<notin> set host" "tl_server_name lib host = Inr ()" "rest = [] \<or> hd rest = CHR ''/''"
  shows "sender_new lib c (''https://'' @ host @ '':'' @ dec (unat p) @ rest) t
    = Inr \<lparr>sn_config = c, sn_host = host, sn_port = p, sn_timeout = t\<rparr>"
proof -
  have digits: "CHR '':'' \<notin> set (dec n)" "CHR ''/'' \<notin> set (dec n)" for n
    using dec_digits [of "CHR '':''" n] dec_digits [of "CHR ''/''" n] by (auto simp: is_ascii_digit_def)
  have "takeWhile (\<lambda>x. x \<noteq> CHR ''/'') (host @ '':'' @ dec (unat p) @ rest) = host @ CHR '':'' # dec (unat p)"
    using assms(1,3) digits(2) [of "unat p"] by (cases rest) (auto simp: takeWhile_append)
  moreover have "strip_prefix (''https://'' @ u) ''https://'' = Some u" for u
    by (rule strip_prefix_append)
  moreover have "host_and_port (host @ CHR '':'' # dec (unat p)) = (host, p)"
    using unat_bound [of p] by (simp add: host_and_port_def rsplit_once_append digits parse_u16_dec)
  ultimately show ?thesis
    using assms(2) by (simp only: sender_new_def ok_or.simps and_then.simps) simp
qed

end
