(* ===== verification/Enrollment.thy ===== *)
theory Enrollment
  imports Tls_Client Heartbeat
begin

text \<open>
  The enrollment exchange (\<open>enrollment.rs\<close>): the request, the POST with its
  retry policy, the validation of the answer. The HTTP client's answer to each
  attempt, the JSON reader and the PEM reader are parameters; the waits between
  the attempts are part of the result.
\<close>

section \<open>Data\<close>

definition ENROLLMENT_ENVELOPE_VERSION :: string where
  "ENROLLMENT_ENVELOPE_VERSION = ''0.1.0''"

record enrollment_request =
  er_envelope_version :: string
  er_enrollment_token :: string
  er_agent_pubkey :: string
  er_agent_hostname :: string
  er_agent_platform :: string
  er_agent_version :: string

record enrollment_response =
  es_envelope_version :: string
  es_agent_id :: string
  es_client_certificate :: string
  es_issued_at :: string
  es_expires_at :: string

record enrolled_identity =
  en_agent_id :: string
  en_client_certificate_pem :: string
  en_issued_at :: string
  en_expires_at :: string
  en_secret_seed :: bytes
  en_public_key :: bytes

section \<open>The exchange\<close>

text \<open>A response with its status and what reading its body gives, or an error with the chain it carries.\<close>

datatype post_answer =
    PostStatus u16 "(string, string) result"
  | PostError string error_value

record enroll_lib =
  el_response :: "string \<Rightarrow> (string, enrollment_response) result"
  el_pem :: "string \<Rightarrow> (string, bytes) result"

definition parse_and_validate :: "enroll_lib \<Rightarrow> string \<Rightarrow> (enrollment_error, enrollment_response) result" where
  "parse_and_validate lib body =
     and_then (map_err (\<lambda>e. Refused (''malformed server response: '' @ e)) (el_response lib body)) (\<lambda>resp.
       if \<not> is_uuidv7 (es_agent_id resp)
       then Inl (Refused ''malformed server response (agent_id is not a UUIDv7)'')
       else
         and_then (map_err (\<lambda>e. Refused (''malformed server response (bad certificate PEM: '' @ e @ '')''))
                    (el_pem lib (es_client_certificate resp))) (\<lambda>contents.
           if contents = [] then Inl (Refused ''malformed server response (empty certificate)'')
           else Inr resp))"

text \<open>What an answer decides: an outcome, or another attempt with its error text.\<close>

definition judge_answer :: "enroll_lib \<Rightarrow> post_answer \<Rightarrow> (enrollment_error, enrollment_response) result + string" where
  "judge_answer lib a =
     (case a of
        PostStatus code body \<Rightarrow>
          if is_success code
          then Inl (and_then (map_err (\<lambda>e. Refused (''malformed server response: '' @ e)) body) (parse_and_validate lib))
          else if code = 401 \<or> code = 403 then Inl (Inl (Refused ''token rejected by server''))
          else if code = 409 then Inl (Inl (Refused ''token already used''))
          else if 400 \<le> code \<and> code \<le> 499
          then Inl (Inl (Refused (''malformed server response (unexpected status '' @ dec (unat code) @ '')'')))
          else Inr (''status '' @ dec (unat code))
      | PostError e err \<Rightarrow>
          (case untrusted_server_cert err of
             Some reason \<Rightarrow> Inl (Inl (EnrollmentTls (ServerCertUntrusted reason)))
           | None \<Rightarrow> Inr e))"

definition enrollment_backoff :: "u64 \<Rightarrow> enrollment_config \<Rightarrow> u64" where
  "enrollment_backoff ms enr = f64_as_u64 (f64_mul (f64_of_u64 ms) (ec_backoff_factor enr))"

text \<open>The loop, at the number of attempts made, with the attempts that are left as its measure.\<close>

fun post_loop ::
    "nat \<Rightarrow> enroll_lib \<Rightarrow> (nat \<Rightarrow> post_answer) \<Rightarrow> enrollment_config \<Rightarrow> nat \<Rightarrow> u64 \<Rightarrow> string
     \<Rightarrow> (enrollment_error, enrollment_response) result \<times> u64 list" where
  "post_loop 0 lib answers enr attempt backoff_ms last_error =
     (Inl (Unreachable (of_nat attempt) last_error), [])"
| "post_loop (Suc left) lib answers enr attempt backoff_ms last_error =
     (case judge_answer lib (answers attempt) of
        Inl outcome \<Rightarrow> (outcome, [])
      | Inr err \<Rightarrow>
          if left = 0 then (Inl (Unreachable (of_nat (attempt + 1)) err), [])
          else case post_loop left lib answers enr (attempt + 1) (enrollment_backoff backoff_ms enr) err of
                 (r, waits) \<Rightarrow> (r, backoff_ms # waits))"

definition enrollment_attempts :: "enrollment_config \<Rightarrow> nat" where
  "enrollment_attempts enr = unat (max (ec_max_retries enr) 1)"

definition post_with_retry ::
    "enroll_lib \<Rightarrow> (nat \<Rightarrow> post_answer) \<Rightarrow> enrollment_config \<Rightarrow> (enrollment_error, enrollment_response) result \<times> u64 list" where
  "post_with_retry lib answers enr =
     post_loop (enrollment_attempts enr) lib answers enr 0 (ec_backoff_initial_ms enr) ''no attempts made''"

text \<open>
  The whole enrollment. The environment gives the random seed, the trust
  anchor's bytes, the HTTP client's construction and its answers to a request.
\<close>

record enroll_env =
  ee_random :: "(string, bytes) result"
  ee_read_anchor :: "string \<Rightarrow> (string, bytes) result"
  ee_client :: "client_config \<Rightarrow> u64 \<Rightarrow> (string, unit) result"
  ee_answers :: "string \<Rightarrow> enrollment_request \<Rightarrow> nat \<Rightarrow> post_answer"
  ee_platform :: string
  ee_version :: string

definition enroll_url :: "agent_config \<Rightarrow> string" where
  "enroll_url config = trim_end_matches CHR ''/'' (sc_url (ac_server config)) @ ''/v1/agents/enroll''"

definition enrollment_request_of :: "key_lib \<Rightarrow> enroll_env \<Rightarrow> agent_config \<Rightarrow> string \<Rightarrow> agent_keypair \<Rightarrow> enrollment_request" where
  "enrollment_request_of kl env config token keypair =
     \<lparr>er_envelope_version = ENROLLMENT_ENVELOPE_VERSION, er_enrollment_token = token,
      er_agent_pubkey = kl_base64url kl (public_key_bytes keypair), er_agent_hostname = ai_hostname (ac_agent config),
      er_agent_platform = ee_platform env, er_agent_version = ee_version env\<rparr>"

definition enroll ::
    "key_lib \<Rightarrow> tls_lib \<Rightarrow> enroll_lib \<Rightarrow> enroll_env \<Rightarrow> agent_config \<Rightarrow> (enrollment_error, enrolled_identity) result" where
  "enroll kl tlib lib env config =
     and_then (ok_or MissingToken (ac_enrollment config)) (\<lambda>enr.
     and_then (case ec_token enr of Some t \<Rightarrow> if t \<noteq> [] then Inr t else Inl MissingToken | None \<Rightarrow> Inl MissingToken) (\<lambda>token.
     and_then (map_err (\<lambda>e. Persistence (''key generation failed: '' @ e)) (keypair_generate kl (ee_random env))) (\<lambda>keypair.
     and_then (ok_or (EnrollmentTls (ClientConfig ''enrollment requires server.trust_anchor_path''))
                (sc_trust_anchor_path (ac_server config))) (\<lambda>anchor_path.
     and_then (map_err (\<lambda>e. EnrollmentTls (ClientConfig (''read trust anchor '' @ anchor_path @ '': '' @ e)))
                (ee_read_anchor env anchor_path)) (\<lambda>anchor.
     and_then (map_err EnrollmentTls (build_enrollment_config tlib anchor)) (\<lambda>tls.
     and_then (map_err (\<lambda>e. Persistence (''http client build failed: '' @ e)) (ee_client env tls (ec_timeout_seconds enr))) (\<lambda>_.
     and_then (fst (post_with_retry lib (ee_answers env (enroll_url config) (enrollment_request_of kl env config token keypair)) enr)) (\<lambda>response.
       Inr \<lparr>en_agent_id = es_agent_id response, en_client_certificate_pem = es_client_certificate response,
            en_issued_at = es_issued_at response, en_expires_at = es_expires_at response,
            en_secret_seed = secret_seed keypair, en_public_key = public_key_bytes keypair\<rparr>))))))))"

section \<open>The retry policy\<close>

fun enrollment_waits :: "enrollment_config \<Rightarrow> u64 \<Rightarrow> nat \<Rightarrow> u64 list" where
  "enrollment_waits enr b 0 = []"
| "enrollment_waits enr b (Suc n) = b # enrollment_waits enr (enrollment_backoff b enr) n"

definition decisive :: "enroll_lib \<Rightarrow> post_answer \<Rightarrow> bool" where
  "decisive lib a \<longleftrightarrow> isl (judge_answer lib a)"

lemma post_loop_eq:
  "post_loop (Suc left) lib answers enr attempt b err =
     (case find (\<lambda>i. decisive lib (answers i)) [attempt..<attempt + Suc left] of
        Some i \<Rightarrow> (projl (judge_answer lib (answers i)), enrollment_waits enr b (i - attempt))
      | None \<Rightarrow> (Inl (Unreachable (of_nat (attempt + Suc left)) (projr (judge_answer lib (answers (attempt + left))))),
                 enrollment_waits enr b left))"
proof (induction left arbitrary: attempt b err)
  case 0
  then show ?case
    by (cases "judge_answer lib (answers attempt)") (simp_all add: decisive_def)
next
  case (Suc left)
  have range: "[attempt..<Suc (Suc (attempt + left))] = attempt # [Suc attempt..<Suc (Suc (attempt + left))]"
    by (simp add: upt_conv_Cons del: upt_Suc)
  show ?case
  proof (cases "judge_answer lib (answers attempt)")
    case (Inl outcome)
    then show ?thesis
      by (simp add: range decisive_def del: upt_Suc)
  next
    case (Inr e)
    have later: "enrollment_waits enr b (i - attempt) = b # enrollment_waits enr (enrollment_backoff b enr) (i - Suc attempt)"
      if "find (\<lambda>i. decisive lib (answers i)) [Suc attempt..<Suc (Suc (attempt + left))] = Some i" for i
    proof -
      have "i \<in> set [Suc attempt..<Suc (Suc (attempt + left))]"
        using that by (auto simp: find_Some_iff simp del: upt_Suc)
      then have "i - attempt = Suc (i - Suc attempt)"
        by auto
      then show ?thesis
        by simp
    qed
    show ?thesis
      using Inr later
      by (subst post_loop.simps) (simp add: range Suc.IH decisive_def del: upt_Suc post_loop.simps split: option.splits)
  qed
qed


section \<open>What an enrolled identity is\<close>

lemma judge_accepts:
  assumes "judge_answer lib a = Inl (Inr resp)"
  shows "\<exists>code body. a = PostStatus code (Inr body) \<and> is_success code \<and> parse_and_validate lib body = Inr resp"
  using assms by (auto simp: judge_answer_def result split: post_answer.splits if_splits option.splits)

lemma post_loop_accepts:
  "fst (post_loop n lib answers enr attempt b err) = Inr resp \<Longrightarrow> \<exists>i. judge_answer lib (answers i) = Inl (Inr resp)"
  by (induction n arbitrary: attempt b err) (auto split: sum.splits if_splits prod.splits, metis fst_conv)

text \<open>
  An identity that enrollment returns was accepted by the server
  with a 2xx status; its agent id is a UUIDv7, its certificate a PEM block
  with content, and its public key the one derived from the random seed it
  keeps, the very key the request carried.
\<close>

lemma enrolled_identity_valid:
  assumes "enroll kl tlib lib env config = Inr e"
  shows "\<exists>enr token code body resp i.
    ac_enrollment config = Some enr \<and> ec_token enr = Some token \<and> token \<noteq> []
    \<and> ee_answers env (enroll_url config) (enrollment_request_of kl env config token (from_secret_bytes kl (en_secret_seed e))) i
        = PostStatus code (Inr body)
    \<and> is_success code \<and> el_response lib body = Inr resp
    \<and> en_agent_id e = es_agent_id resp \<and> is_uuidv7 (en_agent_id e)
    \<and> (\<exists>c. el_pem lib (en_client_certificate_pem e) = Inr c \<and> c \<noteq> [])
    \<and> en_public_key e = kl_public kl (en_secret_seed e) \<and> ee_random env = Inr (en_secret_seed e)"
proof -
  obtain enr token seed resp where r: "ac_enrollment config = Some enr" "ec_token enr = Some token" "token \<noteq> []"
    "ee_random env = Inr seed"
    "fst (post_with_retry lib (ee_answers env (enroll_url config) (enrollment_request_of kl env config token (from_secret_bytes kl seed))) enr) = Inr resp"
    "en_agent_id e = es_agent_id resp" "en_client_certificate_pem e = es_client_certificate resp"
    "en_secret_seed e = seed" "en_public_key e = kl_public kl seed"
    using assms
    by (auto simp: enroll_def result keypair_generate_def from_secret_bytes_def secret_seed_def public_key_bytes_def
        split: option.splits if_splits)
  obtain i where "judge_answer lib (ee_answers env (enroll_url config)
      (enrollment_request_of kl env config token (from_secret_bytes kl seed)) i) = Inl (Inr resp)"
    using post_loop_accepts [OF r(5) [unfolded post_with_retry_def]] by blast
  then obtain code body where a: "ee_answers env (enroll_url config)
      (enrollment_request_of kl env config token (from_secret_bytes kl seed)) i = PostStatus code (Inr body)"
    "is_success code" "parse_and_validate lib body = Inr resp"
    using judge_accepts by blast
  from a(3) have "el_response lib body = Inr resp" "is_uuidv7 (es_agent_id resp)"
    "\<exists>c. el_pem lib (es_client_certificate resp) = Inr c \<and> c \<noteq> []"
    by (auto simp: parse_and_validate_def result split: if_splits)
  with r a show ?thesis
    by (intro exI [of _ enr] exI [of _ token] exI [of _ code] exI [of _ body] exI [of _ resp] exI [of _ i]) simp
qed

text \<open>A server that accepts at the second attempt.\<close>

definition sample_keys :: key_lib where
  "sample_keys = \<lparr>kl_public = rev, kl_sha256 = id, kl_base64url = (\<lambda>_. ''key'')\<rparr>"

definition sample_response :: enrollment_response where
  "sample_response = \<lparr>es_envelope_version = ''0.1.0'', es_agent_id = ''01890000-0000-7000-8000-000000000000'',
     es_client_certificate = ''pem'', es_issued_at = ''a'', es_expires_at = ''b''\<rparr>"

definition sample_enroll_lib :: enroll_lib where
  "sample_enroll_lib = \<lparr>el_response = (\<lambda>_. Inr sample_response), el_pem = (\<lambda>_. Inr [1])\<rparr>"

definition sample_enroll_env :: enroll_env where
  "sample_enroll_env = \<lparr>ee_random = Inr [1, 2], ee_read_anchor = (\<lambda>_. Inr [1]), ee_client = (\<lambda>_ _. Inr ()),
     ee_answers = (\<lambda>_ _ i. if i = 0 then PostStatus 503 (Inr []) else PostStatus 200 (Inr ''body'')),
     ee_platform = ''windows'', ee_version = ''0.1.0''\<rparr>"

definition sample_enrollment :: enrollment_config where
  "sample_enrollment = \<lparr>ec_token = Some ''t'', ec_cert_path = ''c'', ec_key_path = ''k'', ec_identity_path = ''i'',
     ec_timeout_seconds = 30, ec_max_retries = 3, ec_backoff_initial_ms = 1000, ec_backoff_factor = F64_Fin 2\<rparr>"

definition sample_config :: agent_config where
  "sample_config = \<lparr>ac_server = \<lparr>sc_url = ''https://h'', sc_trust_anchor_path = Some ''ca'', sc_heartbeat_url = None\<rparr>,
     ac_agent = \<lparr>ai_id = ''x'', ai_hostname = ''host''\<rparr>, ac_heartbeat = heartbeat_default, ac_log = log_default,
     ac_enrollment = Some sample_enrollment, ac_tls = None, ac_envelope = None\<rparr>"

lemma sample_uuid: "is_uuidv7 ''01890000-0000-7000-8000-000000000000''"
  by code_simp

lemma sample_post:
  "fst (post_with_retry sample_enroll_lib (ee_answers sample_enroll_env u req) sample_enrollment) = Inr sample_response"
proof -
  have "enrollment_attempts sample_enrollment = Suc (Suc (Suc 0))"
    by (simp add: enrollment_attempts_def sample_enrollment_def max_def word_le_nat_alt)
  then show ?thesis
    by (simp add: post_with_retry_def judge_answer_def sample_enroll_env_def is_success_def sample_enroll_lib_def
        parse_and_validate_def sample_response_def sample_uuid split: prod.splits)
qed

lemma sample_enrolls:
  "enroll sample_keys sample_tls sample_enroll_lib sample_enroll_env sample_config
   = Inr \<lparr>en_agent_id = es_agent_id sample_response, en_client_certificate_pem = ''pem'', en_issued_at = ''a'', en_expires_at = ''b'',
       en_secret_seed = [1, 2], en_public_key = [2, 1]\<rparr>"
proof -
  have "build_enrollment_config sample_tls [1] = Inr \<lparr>cc_suites = [TLS13_AES_256_GCM_SHA384], cc_versions = [TLS13], cc_roots = [[1]],
    cc_client_auth = None\<rparr>"
    by (simp add: build_enrollment_config_def anchor_roots_def certificates_from_pem_def sample_tls_def restricted_provider_def)
  then show ?thesis
    unfolding enroll_def
    by (simp add: sample_config_def sample_post [unfolded sample_enrollment_def] sample_enrollment_def keypair_generate_def)
      (simp add: sample_enroll_env_def sample_response_def secret_seed_def public_key_bytes_def from_secret_bytes_def sample_keys_def)
qed

end
