(* ===== verification/X509.thy ===== *)
theory X509
  imports Rust_Result
begin

text \<open>
  The DER reader over the agent's client certificate (\<open>x509.rs\<close>): the cursor
  with its tag and length rules, the common name of a \<open>Name\<close>, the Ed25519 key
  of a \<open>SubjectPublicKeyInfo\<close>, and the walk through \<open>tbsCertificate\<close>. The
  PEM reader is the TLS library's and a parameter.

  The reader is characterised exactly: it accepts a byte string precisely when
  the string is the DER encoding of what it returns.
\<close>

unbundle bit_operations_syntax

section \<open>The cursor\<close>

definition SEQUENCE :: u8 where "SEQUENCE = 0x30"
definition SET :: u8 where "SET = 0x31"
definition INTEGER :: u8 where "INTEGER = 0x02"
definition BIT_STRING :: u8 where "BIT_STRING = 0x03"
definition OID :: u8 where "OID = 0x06"
definition UTF8_STRING :: u8 where "UTF8_STRING = 0x0c"
definition PRINTABLE_STRING :: u8 where "PRINTABLE_STRING = 0x13"
definition VERSION :: u8 where "VERSION = 0xa0"
definition COMMON_NAME :: bytes where "COMMON_NAME = [0x55, 0x04, 0x03]"
definition ED25519 :: bytes where "ED25519 = [0x2b, 0x65, 0x70]"

lemmas der_tags = SEQUENCE_def SET_def INTEGER_def BIT_STRING_def OID_def UTF8_STRING_def PRINTABLE_STRING_def VERSION_def

record certificate_id =
  ed25519_public_key :: bytes
  cert_common_name :: string

definition reader_peek :: "bytes \<Rightarrow> u8 option" where
  "reader_peek bs = (case bs of [] \<Rightarrow> None | b # _ \<Rightarrow> Some b)"

text \<open>The length octets after the tag: the content's length and the bytes that follow them.\<close>

definition be_fold :: "bytes \<Rightarrow> nat" where
  "be_fold bs = foldl (\<lambda>n b. n * 256 + unat b) 0 bs"

definition reader_length :: "string \<Rightarrow> bytes \<Rightarrow> (string, nat \<times> bytes) result" where
  "reader_length what bs =
     (case bs of
        [] \<Rightarrow> Inl (what @ '': truncated'')
      | first # rest \<Rightarrow>
          if first < 0x80 then Inr (unat first, rest)
          else
            let count = unat (first AND 0x7f)
            in if count = 0 \<or> 4 < count \<or> length rest < count then Inl (what @ '': bad length'')
               else
                 let bytes = take count rest; len = be_fold bytes
                 in if hd bytes = 0 \<or> len < 0x80 then Inl (what @ '': length not in its shortest form'')
                    else Inr (len, drop count rest))"

definition reader_next :: "string \<Rightarrow> bytes \<Rightarrow> (string, (u8 \<times> bytes) \<times> bytes) result" where
  "reader_next what bs =
     (case bs of
        [] \<Rightarrow> Inl (what @ '': truncated'')
      | tag # rest \<Rightarrow>
          if tag AND 0x1f = 0x1f then Inl (what @ '': multi-byte tag'')
          else and_then (reader_length what rest) (\<lambda>(len, rest).
            if length rest < len then Inl (what @ '': truncated'')
            else Inr ((tag, take len rest), drop len rest)))"

definition hex_byte :: "u8 \<Rightarrow> string" where
  "hex_byte b = ''0x'' @ [digit (unat b div 16), digit (unat b mod 16)]"

definition reader_expect :: "u8 \<Rightarrow> string \<Rightarrow> bytes \<Rightarrow> (string, bytes \<times> bytes) result" where
  "reader_expect tag what bs =
     and_then (reader_next what bs) (\<lambda>((found, v), rest).
       if found \<noteq> tag then Inl (what @ '': tag '' @ hex_byte found @ '', expected '' @ hex_byte tag)
       else Inr (v, rest))"

section \<open>The encoding the cursor reads\<close>

fun be_bytes :: "nat \<Rightarrow> bytes" where
  "be_bytes n = (if n = 0 then [] else be_bytes (n div 256) @ [of_nat n])"

declare be_bytes.simps [simp del]

definition der_length :: "nat \<Rightarrow> bytes" where
  "der_length n = (if n < 0x80 then [of_nat n] else of_nat (0x80 + length (be_bytes n)) # be_bytes n)"

definition der :: "u8 \<Rightarrow> bytes \<Rightarrow> bytes" where
  "der tag v = tag # der_length (length v) @ v"

definition single_byte :: "u8 \<Rightarrow> bool" where
  "single_byte tag \<longleftrightarrow> tag AND 0x1f \<noteq> 0x1f"

lemma be_fold_simps [simp]: "be_fold [] = 0" "be_fold (bs @ [b]) = be_fold bs * 256 + unat b"
  by (simp_all add: be_fold_def)

lemma unat_of_nat_byte: "unat (of_nat n :: u8) = n mod 256"
  by (simp add: unat_of_nat)

lemma be_bytes_0 [simp]: "be_bytes 0 = []"
  by (simp add: be_bytes.simps)

lemma be_bytes_pos: "0 < n \<Longrightarrow> be_bytes n = be_bytes (n div 256) @ [of_nat n]"
  by (subst be_bytes.simps) simp

lemma be_fold_be_bytes [simp]: "be_fold (be_bytes n) = n"
proof (induction n rule: less_induct)
  case (less n)
  show ?case
  proof (cases "n = 0")
    case False
    then have "be_fold (be_bytes (n div 256)) = n div 256"
      by (intro less) simp
    with False show ?thesis
      by (simp add: be_bytes_pos unat_of_nat_byte)
  qed simp
qed

lemma be_bytes_be_fold: "bs \<noteq> [] \<Longrightarrow> hd bs \<noteq> 0 \<Longrightarrow> 0 < be_fold bs \<and> be_bytes (be_fold bs) = bs"
proof (induction bs rule: rev_induct)
  case (snoc b bs)
  have b: "unat b < 256"
    using unat_bound [of b] by simp
  show ?case
  proof (cases "bs = []")
    case True
    with snoc b have "unat b \<noteq> 0"
      by (simp add: unat_eq_0)
    with True b show ?thesis
      by (simp add: be_fold_def be_bytes_pos)
  next
    case False
    with snoc have IH: "0 < be_fold bs" "be_bytes (be_fold bs) = bs"
      by simp_all
    have "unat (of_nat (be_fold bs * 256 + unat b) :: u8) = unat b"
      by (simp only: unat_of_nat_byte) (simp add: b)
    then have "(of_nat (be_fold bs * 256 + unat b) :: u8) = b"
      by (simp only: unat_inject)
    with IH b show ?thesis
      by (simp add: be_bytes_pos)
  qed
qed simp

lemma be_bytes_hd: "0 < n \<Longrightarrow> be_bytes n \<noteq> [] \<and> hd (be_bytes n) \<noteq> 0"
proof (induction n rule: less_induct)
  case (less n)
  show ?case
  proof (cases "n < 256")
    case True
    then have "unat (of_nat n :: u8) = n"
      by (simp add: unat_of_nat_byte)
    with less.prems True show ?thesis
      by (auto simp: be_bytes_pos)
  next
    case False
    with less.IH [of "n div 256"] have "be_bytes (n div 256) \<noteq> []" "hd (be_bytes (n div 256)) \<noteq> 0"
      by simp_all
    with less.prems show ?thesis
      by (simp add: be_bytes_pos)
  qed
qed

lemma length_be_bytes: "length (be_bytes n) \<le> k \<longleftrightarrow> n < 256 ^ k"
proof (induction k arbitrary: n)
  case 0
  then show ?case
    using be_bytes_hd [of n] by (cases "n = 0") auto
next
  case (Suc k)
  show ?case
  proof (cases "n = 0")
    case False
    then have "length (be_bytes n) \<le> Suc k \<longleftrightarrow> length (be_bytes (n div 256)) \<le> k"
      by (simp add: be_bytes_pos)
    also have "\<dots> \<longleftrightarrow> n div 256 < 256 ^ k"
      by (rule Suc)
    also have "\<dots> \<longleftrightarrow> n < 256 ^ Suc k"
      by (simp add: div_less_iff_less_mult mult.commute)
    finally show ?thesis .
  qed simp
qed

lemma unat_and_7f: "unat (b AND 0x7f) = unat b mod 128" for b :: u8
proof -
  have "b AND 0x7f = take_bit 7 b"
    by (simp add: take_bit_eq_mask mask_eq_exp_minus_1)
  then show ?thesis
    by (simp only: unsigned_take_bit_eq) (simp add: take_bit_eq_mod)
qed

lemma less_80: "b < 0x80 \<longleftrightarrow> unat b < 128" for b :: u8
  by (simp add: word_less_nat_alt)

lemma reader_length_der_length:
  assumes "n < 2 ^ 32"
  shows "reader_length what (der_length n @ rest) = Inr (n, rest)"
proof (cases "n < 0x80")
  case True
  then have "unat (of_nat n :: u8) = n"
    by (simp add: unat_of_nat_byte)
  with True show ?thesis
    by (simp add: reader_length_def der_length_def less_80)
next
  case False
  let ?k = "length (be_bytes n)"
  have k: "?k \<le> 4" "be_bytes n \<noteq> []" "hd (be_bytes n) \<noteq> 0"
    using assms False length_be_bytes [of n 4] be_bytes_hd [of n] by simp_all
  have first: "unat (of_nat (0x80 + ?k) :: u8) = 0x80 + ?k"
    using k(1) by (simp only: unat_of_nat_byte) simp
  have "(0x80 + ?k) mod 128 = ?k"
    using k(1) by simp
  with first k False show ?thesis
    by (simp add: reader_length_def der_length_def less_80 unat_and_7f Let_def del: of_nat_add)
qed

lemma reader_length_accepts:
  assumes "reader_length what bs = Inr (n, rest)"
  shows "n < 2 ^ 32 \<and> bs = der_length n @ rest"
proof -
  obtain first more where bs: "bs = first # more"
    using assms by (cases bs) (auto simp: reader_length_def)
  show ?thesis
  proof (cases "first < 0x80")
    case True
    with assms bs show ?thesis
      by (auto simp: reader_length_def less_80 der_length_def)
  next
    case False
    define k where "k = unat (first AND 0x7f)"
    have k: "0 < k" "k \<le> 4" "k \<le> length more" "hd (take k more) \<noteq> 0" "0x80 \<le> n"
      "n = be_fold (take k more)" "rest = drop k more"
      using assms False by (auto simp: bs reader_length_def Let_def k_def split: if_splits)
    have "take k more \<noteq> []"
      using k(1,3) by auto
    from be_bytes_be_fold [OF this k(4)] have "be_bytes n = take k more"
      by (simp add: k(6))
    moreover have "first = of_nat (0x80 + k)"
    proof (rule word_eq_of_natI)
      show "unat first = 0x80 + k"
        using False unat_bound [of first] by (simp add: k_def unat_and_7f less_80 le_mod_geq)
    qed
    moreover have "n < 2 ^ 32"
      using length_be_bytes [of n 4] \<open>be_bytes n = take k more\<close> k by simp
    ultimately show ?thesis
      using k by (simp add: bs der_length_def)
  qed
qed

lemma reader_next_iff:
  "reader_next what bs = Inr ((tag, v), rest) \<longleftrightarrow> bs = der tag v @ rest \<and> single_byte tag \<and> length v < 2 ^ 32"
proof
  assume a: "reader_next what bs = Inr ((tag, v), rest)"
  then obtain more where bs: "bs = tag # more" "single_byte tag"
    by (cases bs) (auto simp: reader_next_def single_byte_def result split: if_splits)
  with a obtain n after where "reader_length what more = Inr (n, after)" "n \<le> length after"
    "v = take n after" "rest = drop n after"
    by (auto simp: reader_next_def single_byte_def result split: if_splits)
  with reader_length_accepts [of what more n after] bs
  show "bs = der tag v @ rest \<and> single_byte tag \<and> length v < 2 ^ 32"
    by (simp add: der_def)
next
  assume "bs = der tag v @ rest \<and> single_byte tag \<and> length v < 2 ^ 32"
  then show "reader_next what bs = Inr ((tag, v), rest)"
    by (simp add: reader_next_def der_def single_byte_def reader_length_der_length)
qed

lemma reader_expect_iff [result]:
  "reader_expect tag what bs = Inr (v, rest) \<longleftrightarrow> bs = der tag v @ rest \<and> single_byte tag \<and> length v < 2 ^ 32"
  by (auto simp: reader_expect_def result reader_next_iff split: if_splits)

lemma der_not_Nil [simp]: "der tag v \<noteq> []"
  by (simp add: der_def)

lemma length_der: "length v < length (der tag v)"
  by (simp add: der_def der_length_def)

lemma single_byte_tags [simp]:
  "single_byte SEQUENCE" "single_byte SET" "single_byte INTEGER" "single_byte BIT_STRING" "single_byte OID"
  "single_byte UTF8_STRING" "single_byte PRINTABLE_STRING" "single_byte VERSION"
  by (simp_all add: single_byte_def der_tags)

section \<open>The certificate's fields\<close>

text \<open>
  The two loops of \<open>common_name\<close>: over the attributes of one relative name,
  carrying the name found so far, and over the relative names.
\<close>

function name_attributes :: "bytes \<Rightarrow> string option \<Rightarrow> (string, string option) result" where
  "name_attributes attributes found =
     (if attributes = [] then Inr found
      else
        and_then (reader_expect SEQUENCE ''AttributeTypeAndValue'' attributes) (\<lambda>(attribute, attributes').
        and_then (reader_expect OID ''AttributeType'' attribute) (\<lambda>(kind, attribute').
        and_then (reader_next ''AttributeValue'' attribute') (\<lambda>((tag, v), _).
          if kind \<noteq> COMMON_NAME then name_attributes attributes' found
          else if tag \<noteq> UTF8_STRING \<and> tag \<noteq> PRINTABLE_STRING
          then Inl (''common name of tag '' @ hex_byte tag)
          else
            and_then (ok_or ''common name is not UTF-8'' (from_utf8 v)) (\<lambda>text.
              if found \<noteq> None then Inl ''more than one common name''
              else name_attributes attributes' (Some text))))))"

  by pat_completeness auto

termination
  by (relation "measure (\<lambda>(attributes, _). length attributes)") (auto simp: reader_expect_iff)

function common_names :: "bytes \<Rightarrow> string option \<Rightarrow> (string, string option) result" where
  "common_names rdns found =
     (if rdns = [] then Inr found
      else
        and_then (reader_expect SET ''RelativeDistinguishedName'' rdns) (\<lambda>(attributes, rdns').
        and_then (name_attributes attributes found) (\<lambda>found'. common_names rdns' found')))"

  by pat_completeness auto

termination
  by (relation "measure (\<lambda>(rdns, _). length rdns)") (auto simp: reader_expect_iff)

declare name_attributes.simps [simp del] common_names.simps [simp del]

definition common_name :: "bytes \<Rightarrow> (string, string) result" where
  "common_name name = and_then (common_names name None) (ok_or ''no common name'')"

definition ed25519_key :: "bytes \<Rightarrow> (string, bytes) result" where
  "ed25519_key spki =
     and_then (reader_expect SEQUENCE ''AlgorithmIdentifier'' spki) (\<lambda>(algorithm, spki').
     and_then (reader_expect OID ''algorithm'' algorithm) (\<lambda>(oid, algorithm').
       if oid \<noteq> ED25519 \<or> algorithm' \<noteq> [] then Inl ''the public key is not Ed25519''
       else
         and_then (reader_expect BIT_STRING ''subjectPublicKey'' spki') (\<lambda>(bits, spki'').
           if spki'' \<noteq> [] then Inl ''bytes after the subjectPublicKey''
           else case bits of
                  [] \<Rightarrow> Inl ''the Ed25519 public key is not 32 bytes''
                | pad # key \<Rightarrow>
                    if pad = 0 \<and> length key = 32 then Inr key else Inl ''the Ed25519 public key is not 32 bytes'')))"

text \<open>The fields of \<open>tbsCertificate\<close> after its version.\<close>

definition tbs_fields :: "bytes \<Rightarrow> (string, certificate_id) result" where
  "tbs_fields tbs =
     and_then (reader_expect INTEGER ''serialNumber'' tbs) (\<lambda>(_, tbs).
     and_then (reader_expect SEQUENCE ''signature'' tbs) (\<lambda>(_, tbs).
     and_then (reader_expect SEQUENCE ''issuer'' tbs) (\<lambda>(_, tbs).
     and_then (reader_expect SEQUENCE ''validity'' tbs) (\<lambda>(_, tbs).
     and_then (reader_expect SEQUENCE ''subject'' tbs) (\<lambda>(subject, tbs).
     and_then (reader_expect SEQUENCE ''subjectPublicKeyInfo'' tbs) (\<lambda>(spki, _).
     and_then (common_name subject) (\<lambda>cn.
     and_then (ed25519_key spki) (\<lambda>key.
       Inr \<lparr>ed25519_public_key = key, cert_common_name = cn\<rparr>))))))))"

definition certificate_identity_der :: "bytes \<Rightarrow> (string, certificate_id) result" where
  "certificate_identity_der bs =
     and_then (reader_expect SEQUENCE ''Certificate'' bs) (\<lambda>(certificate, outer).
       if outer \<noteq> [] then Inl ''bytes after the Certificate''
       else
         and_then (reader_expect SEQUENCE ''tbsCertificate'' certificate) (\<lambda>(tbs, _).
           if reader_peek tbs = Some VERSION
           then and_then (reader_next ''version'' tbs) (\<lambda>(_, tbs). tbs_fields tbs)
           else tbs_fields tbs))"

text \<open>\<open>certs_of\<close> is the TLS library's PEM reader: the document's certificates, or none when it refuses it.\<close>

definition certificates_in :: "(string \<Rightarrow> bytes list option) \<Rightarrow> string \<Rightarrow> (string, bytes list) result" where
  "certificates_in certs_of pem = ok_or ''the certificate's PEM document cannot be read'' (certs_of pem)"

definition certificate_identity :: "(string \<Rightarrow> bytes list option) \<Rightarrow> string \<Rightarrow> (string, certificate_id) result" where
  "certificate_identity certs_of pem =
     and_then (certificates_in certs_of pem) (\<lambda>certificates.
       case certificates of
         [] \<Rightarrow> Inl ''no CERTIFICATE block''
       | first # _ \<Rightarrow> certificate_identity_der first)"

section \<open>What the reader accepts\<close>

lemma ed25519_key_iff:
  assumes "length spki < 2 ^ 32"
  shows "ed25519_key spki = Inr key \<longleftrightarrow>
    spki = der SEQUENCE (der OID ED25519) @ der BIT_STRING (0 # key) \<and> length key = 32"
proof
  assume "ed25519_key spki = Inr key"
  then show "spki = der SEQUENCE (der OID ED25519) @ der BIT_STRING (0 # key) \<and> length key = 32"
    by (auto simp: ed25519_key_def result split: if_splits list.splits)
next
  assume "spki = der SEQUENCE (der OID ED25519) @ der BIT_STRING (0 # key) \<and> length key = 32"
  moreover from this have "reader_expect BIT_STRING w (der BIT_STRING (0 # key)) = Inr (0 # key, [])"
    "reader_expect OID w (der OID ED25519) = Inr (ED25519, [])"
    "reader_expect SEQUENCE w (der SEQUENCE (der OID ED25519) @ bs) = Inr (der OID ED25519, bs)" for w bs
    using assms length_der [of "der OID ED25519" SEQUENCE] length_der [of ED25519 OID]
    by (auto simp: reader_expect_iff)
  ultimately show "ed25519_key spki = Inr key"
    by (simp add: ed25519_key_def)
qed

text \<open>An attribute is its type, its value with its tag, and bytes after the value, which the reader ignores.\<close>

type_synonym attribute = "bytes \<times> u8 \<times> bytes \<times> bytes"

fun attribute_der :: "attribute \<Rightarrow> bytes" where
  "attribute_der (kind, tag, v, after) = der SEQUENCE (der OID kind @ der tag v @ after)"

fun attribute_ok :: "attribute \<Rightarrow> bool" where
  "attribute_ok (kind, tag, v, after) \<longleftrightarrow> single_byte tag"

definition rdn_der :: "attribute list \<Rightarrow> bytes" where
  "rdn_der as = der SET (concat (map attribute_der as))"

definition name_der :: "attribute list list \<Rightarrow> bytes" where
  "name_der rdns = concat (map rdn_der rdns)"

definition names_of :: "attribute list \<Rightarrow> (u8 \<times> bytes) list" where
  "names_of as = map (\<lambda>(_, tag, v, _). (tag, v)) (filter (\<lambda>(kind, _). kind = COMMON_NAME) as)"

fun add_name :: "string option \<Rightarrow> u8 \<times> bytes \<Rightarrow> string option \<Rightarrow> bool" where
  "add_name found (tag, v) found' \<longleftrightarrow>
     found = None \<and> tag \<in> {UTF8_STRING, PRINTABLE_STRING} \<and> utf8_valid v \<and> found' = Some (map byte_char v)"

fun add_names :: "string option \<Rightarrow> (u8 \<times> bytes) list \<Rightarrow> string option \<Rightarrow> bool" where
  "add_names found [] found' \<longleftrightarrow> found' = found"
| "add_names found (n # ns) found' \<longleftrightarrow> (\<exists>m. add_name found n m \<and> add_names m ns found')"

lemma add_names_append: "add_names f (ns @ ms) g \<longleftrightarrow> (\<exists>m. add_names f ns m \<and> add_names m ms g)"
  by (induction ns arbitrary: f) auto

lemma add_names_Some: "add_names (Some t) ns g \<longleftrightarrow> ns = [] \<and> g = Some t"
  by (cases ns) auto

lemma add_name_result: "add_name f n m \<Longrightarrow> \<exists>t. m = Some t"
  by (cases n) auto

lemma add_names_one: "add_names None ns (Some s) \<longleftrightarrow> (\<exists>n. ns = [n] \<and> add_name None n (Some s))"
  by (cases ns) (auto simp: add_names_Some dest: add_name_result)

lemma names_of_Cons:
  "names_of ((kind, tag, v, after) # as) = (if kind = COMMON_NAME then [(tag, v)] else []) @ names_of as"
  by (simp add: names_of_def)

lemma length_attribute_der:
  "length kind < length (attribute_der (kind, tag, v, after))" "length v < length (attribute_der (kind, tag, v, after))"
  "length (der OID kind @ der tag v @ after) < length (attribute_der (kind, tag, v, after))"
  using length_der [of kind OID] length_der [of v tag] length_der [of "der OID kind @ der tag v @ after" SEQUENCE] by auto

lemma name_attributes_sound:
  "name_attributes bs found = Inr found' \<Longrightarrow>
   \<exists>as. bs = concat (map attribute_der as) \<and> list_all attribute_ok as \<and> add_names found (names_of as) found'"
proof (induction bs found rule: name_attributes.induct)
  case (1 bs found)
  show ?case
  proof (cases "bs = []")
    case True
    with 1(3) show ?thesis
      by (intro exI [of _ "[]"]) (simp add: name_attributes.simps names_of_def)
  next
    case False
    with 1(3) obtain attribute bs' kind attribute' tag v after where r:
      "reader_expect SEQUENCE ''AttributeTypeAndValue'' bs = Inr (attribute, bs')"
      "reader_expect OID ''AttributeType'' attribute = Inr (kind, attribute')"
      "reader_next ''AttributeValue'' attribute' = Inr ((tag, v), after)"
      by (subst (asm) name_attributes.simps) (fastforce simp: and_then_Inr)
    then have bs: "bs = attribute_der (kind, tag, v, after) @ bs'" "attribute_ok (kind, tag, v, after)"
      by (auto simp: reader_expect_iff reader_next_iff)
    show ?thesis
    proof (cases "kind = COMMON_NAME")
      case other: False
      with 1(3) False r have "name_attributes bs' found = Inr found'"
        by (subst (asm) name_attributes.simps) simp
      from 1(1) [OF False r(1) refl r(2) refl r(3) refl refl other this]
      obtain as where "bs' = concat (map attribute_der as)" "list_all attribute_ok as" "add_names found (names_of as) found'"
        by blast
      with bs other show ?thesis
        by (intro exI [of _ "(kind, tag, v, after) # as"]) (simp add: names_of_Cons)
    next
      case True
      with 1(3) False r obtain cn where t: "tag \<in> {UTF8_STRING, PRINTABLE_STRING}" "from_utf8 v = Some cn"
        "found = None" "name_attributes bs' (Some cn) = Inr found'"
        by (subst (asm) name_attributes.simps) (auto simp: and_then_Inr ok_or_Inr split: if_splits)
      from 1(2) [OF False r(1) refl r(2) refl r(3) refl refl] True t
      obtain as where "bs' = concat (map attribute_der as)" "list_all attribute_ok as"
        "add_names (Some cn) (names_of as) found'"
        by (auto simp: ok_or_Inr)
      with bs t True show ?thesis
        by (intro exI [of _ "(kind, tag, v, after) # as"]) (auto simp: names_of_Cons from_utf8_def split: if_splits)
    qed
  qed
qed

lemma attribute_reads:
  assumes "length (attribute_der (kind, tag, v, after)) < 2 ^ 32" "single_byte tag"
  shows "reader_expect SEQUENCE w (attribute_der (kind, tag, v, after) @ bs) = Inr (der OID kind @ der tag v @ after, bs)"
    "reader_expect OID w (der OID kind @ der tag v @ after) = Inr (kind, der tag v @ after)"
    "reader_next w (der tag v @ after) = Inr ((tag, v), after)"
  using assms length_attribute_der [where kind = kind and tag = tag and v = v and after = after] by (auto simp: reader_expect_iff reader_next_iff)

lemma name_attributes_complete:
  "length (concat (map attribute_der as)) < 2 ^ 32 \<Longrightarrow> list_all attribute_ok as \<Longrightarrow>
   add_names found (names_of as) found' \<Longrightarrow> name_attributes (concat (map attribute_der as)) found = Inr found'"
proof (induction as arbitrary: found)
  case Nil
  then show ?case
    by (simp add: name_attributes.simps names_of_def)
next
  case (Cons a as)
  obtain kind tag v after where a: "a = (kind, tag, v, after)"
    by (cases a)
  have "length (attribute_der (kind, tag, v, after)) < 2 ^ 32" "single_byte tag"
    using Cons.prems(1,2) by (simp_all add: a)
  note reads = attribute_reads [OF this]
  have nonempty: "attribute_der (kind, tag, v, after) \<noteq> []"
    by simp
  have rest: "length (concat (map attribute_der as)) < 2 ^ 32" "list_all attribute_ok as"
    using Cons.prems(1,2) by simp_all
  show ?case
  proof (cases "kind = COMMON_NAME")
    case False
    with Cons.prems(3) have "add_names found (names_of as) found'"
      by (simp add: a names_of_Cons)
    from Cons.IH [OF rest this] False show ?thesis
      using nonempty by (subst name_attributes.simps) (simp add: a reads del: attribute_der.simps)
  next
    case True
    with Cons.prems(3) have n: "found = None" "(tag \<noteq> UTF8_STRING \<and> tag \<noteq> PRINTABLE_STRING) = False" "utf8_valid v"
      "add_names (Some (map byte_char v)) (names_of as) found'"
      by (auto simp: a names_of_Cons)
    from Cons.IH [OF rest n(4)] show ?thesis
      using nonempty
      by (subst name_attributes.simps) (simp add: a reads [unfolded True] from_utf8_def True n del: attribute_der.simps)
  qed
qed

lemma common_names_sound:
  "common_names bs found = Inr found' \<Longrightarrow>
   \<exists>rdns. bs = name_der rdns \<and> list_all attribute_ok (concat rdns) \<and> add_names found (names_of (concat rdns)) found'"
proof (induction bs found rule: common_names.induct)
  case (1 bs found)
  show ?case
  proof (cases "bs = []")
    case True
    with 1(2) show ?thesis
      by (intro exI [of _ "[]"]) (simp add: common_names.simps name_der_def names_of_def)
  next
    case False
    with 1(2) obtain attributes bs' m where r: "reader_expect SET ''RelativeDistinguishedName'' bs = Inr (attributes, bs')"
      "name_attributes attributes found = Inr m" "common_names bs' m = Inr found'"
      by (subst (asm) common_names.simps) (fastforce simp: and_then_Inr)
    from 1(1) [OF False r(1) refl r(2,3)] obtain rdns where rdns: "bs' = name_der rdns" "list_all attribute_ok (concat rdns)"
      "add_names m (names_of (concat rdns)) found'"
      by blast
    obtain as where "attributes = concat (map attribute_der as)" "list_all attribute_ok as" "add_names found (names_of as) m"
      using name_attributes_sound [OF r(2)] by blast
    with r(1) rdns show ?thesis
      by (intro exI [of _ "as # rdns"])
        (auto simp: reader_expect_iff name_der_def rdn_der_def names_of_def add_names_append)
  qed
qed

lemma common_names_complete:
  "length (name_der rdns) < 2 ^ 32 \<Longrightarrow> list_all attribute_ok (concat rdns) \<Longrightarrow>
   add_names found (names_of (concat rdns)) found' \<Longrightarrow> common_names (name_der rdns) found = Inr found'"
proof (induction rdns arbitrary: found)
  case Nil
  then show ?case
    by (simp add: common_names.simps name_der_def names_of_def)
next
  case (Cons as rdns)
  obtain m where m: "add_names found (names_of as) m" "add_names m (names_of (concat rdns)) found'"
    using Cons.prems(3) by (auto simp: names_of_def add_names_append)
  have len: "length (concat (map attribute_der as)) < 2 ^ 32" "length (name_der rdns) < 2 ^ 32"
    using Cons.prems(1) length_der [of "concat (map attribute_der as)" SET] by (simp_all add: name_der_def rdn_der_def)
  then have "reader_expect SET w (rdn_der as @ bs) = Inr (concat (map attribute_der as), bs)" for w bs
    by (simp add: reader_expect_iff rdn_der_def)
  moreover have "rdn_der as \<noteq> []"
    by (simp add: rdn_der_def)
  moreover have "name_attributes (concat (map attribute_der as)) found = Inr m"
    using Cons.prems(2) by (intro name_attributes_complete len m) simp
  moreover have "common_names (name_der rdns) m = Inr found'"
    using Cons.prems(2) by (intro Cons.IH len m) simp
  ultimately show ?case
    by (subst common_names.simps) (simp add: name_der_def)
qed

lemma common_name_iff:
  assumes "length name < 2 ^ 32"
  shows "common_name name = Inr cn \<longleftrightarrow>
    (\<exists>rdns tag v. name = name_der rdns \<and> list_all attribute_ok (concat rdns) \<and> names_of (concat rdns) = [(tag, v)]
       \<and> tag \<in> {UTF8_STRING, PRINTABLE_STRING} \<and> from_utf8 v = Some cn)"
    (is "?l = (\<exists>rdns tag v. ?r rdns tag v)")
proof
  assume ?l
  then have "common_names name None = Inr (Some cn)"
    by (auto simp: common_name_def result)
  from common_names_sound [OF this] show "\<exists>rdns tag v. ?r rdns tag v"
    by (fastforce simp: add_names_one from_utf8_def)
next
  assume "\<exists>rdns tag v. ?r rdns tag v"
  then obtain rdns tag v where r: "?r rdns tag v"
    by blast
  then have "add_names None (names_of (concat rdns)) (Some cn)"
    by (auto simp: from_utf8_def split: if_splits)
  with common_names_complete [of rdns None "Some cn"] r assms show ?l
    by (simp add: common_name_def)
qed

text \<open>
  The bytes of a certificate around the two fields the reader returns: the
  version, when there is one, the other fields of \<open>tbsCertificate\<close>, the bytes
  after the key and the bytes after \<open>tbsCertificate\<close>, the signature.
\<close>

record certificate_parts =
  cp_version :: "bytes option"
  cp_serial :: bytes
  cp_signature :: bytes
  cp_issuer :: bytes
  cp_validity :: bytes
  cp_subject :: "attribute list list"
  cp_key :: bytes
  cp_tbs_after :: bytes
  cp_after :: bytes

definition spki_der :: "bytes \<Rightarrow> bytes" where
  "spki_der key = der SEQUENCE (der OID ED25519) @ der BIT_STRING (0 # key)"

definition version_der :: "bytes option \<Rightarrow> bytes" where
  "version_der version = (case version of None \<Rightarrow> [] | Some v \<Rightarrow> der VERSION v)"

definition fields_der :: "certificate_parts \<Rightarrow> bytes" where
  "fields_der p =
     der INTEGER (cp_serial p) @ der SEQUENCE (cp_signature p) @ der SEQUENCE (cp_issuer p) @ der SEQUENCE (cp_validity p)
     @ der SEQUENCE (name_der (cp_subject p)) @ der SEQUENCE (spki_der (cp_key p)) @ cp_tbs_after p"

definition certificate_der :: "certificate_parts \<Rightarrow> bytes" where
  "certificate_der p = der SEQUENCE (der SEQUENCE (version_der (cp_version p) @ fields_der p) @ cp_after p)"

definition names_agent :: "certificate_parts \<Rightarrow> string \<Rightarrow> bool" where
  "names_agent p cn \<longleftrightarrow>
     list_all attribute_ok (concat (cp_subject p)) \<and> length (cp_key p) = 32
     \<and> (\<exists>tag v. names_of (concat (cp_subject p)) = [(tag, v)] \<and> tag \<in> {UTF8_STRING, PRINTABLE_STRING}
          \<and> from_utf8 v = Some cn)"

lemma tbs_fields_iff:
  assumes "length tbs < 2 ^ 32"
  shows "tbs_fields tbs = Inr ci \<longleftrightarrow>
    (\<exists>p. tbs = fields_der p \<and> names_agent p (cert_common_name ci) \<and> cp_key p = ed25519_public_key ci \<and> cp_version p = version
      \<and> cp_after p = after)"
proof
  assume "tbs_fields tbs = Inr ci"
  then obtain serial sig issuer validity subject spki tbs_after where
    tbs: "tbs = der INTEGER serial @ der SEQUENCE sig @ der SEQUENCE issuer @ der SEQUENCE validity
      @ der SEQUENCE subject @ der SEQUENCE spki @ tbs_after"
    and len: "length subject < 2 ^ 32" "length spki < 2 ^ 32"
    and ci: "common_name subject = Inr (cert_common_name ci)" "ed25519_key spki = Inr (ed25519_public_key ci)"
    by (auto simp: tbs_fields_def result)
  obtain rdns where "subject = name_der rdns" "list_all attribute_ok (concat rdns)"
    "\<exists>tag v. names_of (concat rdns) = [(tag, v)] \<and> tag \<in> {UTF8_STRING, PRINTABLE_STRING} \<and> from_utf8 v = Some (cert_common_name ci)"
    using ci(1) common_name_iff [OF len(1)] by blast
  moreover have "spki = spki_der (ed25519_public_key ci)" "length (ed25519_public_key ci) = 32"
    using ci(2) by (simp_all add: ed25519_key_iff [OF len(2)] spki_der_def)
  ultimately show "\<exists>p. tbs = fields_der p \<and> names_agent p (cert_common_name ci) \<and> cp_key p = ed25519_public_key ci \<and> cp_version p = version
      \<and> cp_after p = after"
    by (intro exI [of _ "\<lparr>cp_version = version, cp_serial = serial, cp_signature = sig, cp_issuer = issuer, cp_validity = validity,
      cp_subject = rdns, cp_key = ed25519_public_key ci, cp_tbs_after = tbs_after, cp_after = after\<rparr>"])
      (simp add: fields_der_def names_agent_def tbs)
next
  assume "\<exists>p. tbs = fields_der p \<and> names_agent p (cert_common_name ci) \<and> cp_key p = ed25519_public_key ci \<and> cp_version p = version
      \<and> cp_after p = after"
  then obtain p where p: "tbs = fields_der p" "names_agent p (cert_common_name ci)" "cp_key p = ed25519_public_key ci"
    by blast
  note tbs = p(1) [unfolded fields_der_def]
  have len: "length (cp_serial p) < 2 ^ 32" "length (cp_signature p) < 2 ^ 32" "length (cp_issuer p) < 2 ^ 32"
    "length (cp_validity p) < 2 ^ 32" "length (name_der (cp_subject p)) < 2 ^ 32" "length (spki_der (cp_key p)) < 2 ^ 32"
    using assms length_der [of "cp_serial p" INTEGER] length_der [of "cp_signature p" SEQUENCE]
      length_der [of "cp_issuer p" SEQUENCE] length_der [of "cp_validity p" SEQUENCE]
      length_der [of "name_der (cp_subject p)" SEQUENCE] length_der [of "spki_der (cp_key p)" SEQUENCE]
    by (auto simp: tbs)
  have reads: "reader_expect t w (der t v @ rest) = Inr (v, rest)" if "length v < 2 ^ 32" "single_byte t" for t w v rest
    using that by (simp add: reader_expect_iff)
  have "common_name (name_der (cp_subject p)) = Inr (cert_common_name ci)"
    using p(2) by (auto simp: common_name_iff [OF len(5)] names_agent_def)
  moreover have "ed25519_key (spki_der (cp_key p)) = Inr (ed25519_public_key ci)"
    using p(2,3) by (subst ed25519_key_iff [OF len(6)]) (simp add: spki_der_def names_agent_def)
  ultimately show "tbs_fields tbs = Inr ci"
    by (simp add: tbs tbs_fields_def reads len [simplified])
qed

lemma fields_not_version: "reader_peek (fields_der p) \<noteq> Some VERSION"
  by (simp add: fields_der_def der_def reader_peek_def der_tags)

lemma peek_der: "reader_peek (der tag v @ bs) = Some tag"
  by (simp add: der_def reader_peek_def)

lemma certificate_sound:
  assumes "certificate_identity_der bs = Inr ci"
  shows "\<exists>p. bs = certificate_der p \<and> length (der SEQUENCE (version_der (cp_version p) @ fields_der p) @ cp_after p) < 2 ^ 32
    \<and> names_agent p (cert_common_name ci) \<and> cp_key p = ed25519_public_key ci"
proof -
  obtain tbs after where bs: "bs = der SEQUENCE (der SEQUENCE tbs @ after)" "length (der SEQUENCE tbs @ after) < 2 ^ 32"
    and r: "(if reader_peek tbs = Some VERSION then and_then (reader_next ''version'' tbs) (\<lambda>(_, tbs). tbs_fields tbs)
      else tbs_fields tbs) = Inr ci"
    using assms by (auto simp: certificate_identity_der_def result split: if_splits)
  have len: "length tbs < 2 ^ 32"
    using bs(2) length_der [of tbs SEQUENCE] by simp
  obtain version fields where tbs: "tbs = version_der version @ fields" "tbs_fields fields = Inr ci"
  proof (cases "reader_peek tbs = Some VERSION")
    case True
    with r obtain t v fields where "tbs = der t v @ fields" "tbs_fields fields = Inr ci"
      by (auto simp: result reader_next_iff)
    with True show ?thesis
      by (intro that [of "Some v" fields]) (auto simp: version_der_def reader_peek_def der_def)
  next
    case False
    with r show ?thesis
      by (intro that [of None tbs]) (simp_all add: version_der_def)
  qed
  then obtain p where "fields = fields_der p" "names_agent p (cert_common_name ci)" "cp_key p = ed25519_public_key ci"
    "cp_version p = version" "cp_after p = after"
    using len tbs_fields_iff [of fields ci version after] by auto
  with bs tbs(1) show ?thesis
    by (intro exI [of _ p]) (simp add: certificate_der_def)
qed

lemma certificate_complete:
  assumes "length (der SEQUENCE (version_der (cp_version p) @ fields_der p) @ cp_after p) < 2 ^ 32"
    "names_agent p (cert_common_name ci)" "cp_key p = ed25519_public_key ci"
  shows "certificate_identity_der (certificate_der p) = Inr ci"
proof -
  let ?tbs = "version_der (cp_version p) @ fields_der p"
  have len: "length ?tbs < 2 ^ 32"
    using assms(1) length_der [of ?tbs SEQUENCE] by simp
  have fields: "tbs_fields (fields_der p) = Inr ci"
    using len assms(2,3) tbs_fields_iff [of "fields_der p" ci "cp_version p" "cp_after p"] by auto
  have "reader_next ''version'' (der VERSION v @ fields_der p) = Inr ((VERSION, v), fields_der p)" if "cp_version p = Some v" for v
    using len that length_der [of v VERSION] by (auto simp: reader_next_iff version_der_def)
  then have "(if reader_peek ?tbs = Some VERSION then and_then (reader_next ''version'' ?tbs) (\<lambda>(_, tbs). tbs_fields tbs)
      else tbs_fields ?tbs) = Inr ci"
    using fields by (cases "cp_version p") (auto simp: peek_der version_der_def fields_not_version)
  moreover have "reader_expect SEQUENCE w (der SEQUENCE ?tbs @ rest) = Inr (?tbs, rest)" for w rest
    using len by (simp add: reader_expect_iff)
  moreover have "reader_expect SEQUENCE w (certificate_der p) = Inr (der SEQUENCE ?tbs @ cp_after p, [])" for w
    using assms(1) by (simp add: reader_expect_iff certificate_der_def)
  ultimately show ?thesis
    by (simp add: certificate_identity_der_def)
qed

text \<open>
  Claim C31. The reader accepts a byte string as a certificate exactly when it
  is the DER encoding of one whose subject has exactly one common name, a
  valid UTF-8 text in a UTF8String or a PrintableString, and whose public key
  is an Ed25519 key of 32 bytes, and it returns that name and that key. Every
  length is in its one shortest form, and nothing follows the certificate.
\<close>

theorem certificate_identity_exact:
  "certificate_identity_der bs = Inr ci \<longleftrightarrow>
     (\<exists>p. bs = certificate_der p \<and> length (der SEQUENCE (version_der (cp_version p) @ fields_der p) @ cp_after p) < 2 ^ 32
        \<and> names_agent p (cert_common_name ci) \<and> cp_key p = ed25519_public_key ci)"
  using certificate_sound certificate_complete by blast

end
