(* ===== verification/Service_Core.thy ===== *)
theory Service_Core
  imports Agent_Config Agent_Keys Win_Store
begin

text \<open>
  The portable part of the Windows service (\<open>service/mod.rs\<close>): its exit codes
  and lines, how it ended and the Application-log entry of each end, the
  installed paths and the checks of the configuration against them, and the
  enrollment rounds that a stop ends at any point.
\<close>

section \<open>Codes, lines and entries\<close>

definition EXIT_NOT_STARTED_BY_SCM :: u8 where "EXIT_NOT_STARTED_BY_SCM = 11"
definition EXIT_STOP_DEADLINE :: u8 where "EXIT_STOP_DEADLINE = 12"
definition EXIT_SERVICE_LOG :: u8 where "EXIT_SERVICE_LOG = 13"

definition STDERR_NOT_STARTED_BY_SCM :: string where
  "STDERR_NOT_STARTED_BY_SCM = ''cg-agent: --service requires a start by the Windows service control manager''"

definition STDERR_RELATIVE_CONFIG :: string where
  "STDERR_RELATIVE_CONFIG = ''cg-agent: invalid config: --config must be an absolute path in service mode''"

definition stderr_service_log :: "string \<Rightarrow> string" where
  "stderr_service_log reason = ''cg-agent: the service log cannot be written: '' @ reason"

definition STOP_DEADLINE :: duration where "STOP_DEADLINE = secs 60"
definition STOP_BUDGET :: duration where "STOP_BUDGET = secs 58"
definition ENROLLMENT_ROUND_WAIT :: duration where "ENROLLMENT_ROUND_WAIT = secs 60"

definition PENDING_UNKNOWN :: string where
  "PENDING_UNKNOWN = ''the agent's stop, at a point the run did not report''"

definition EVENT_SOURCE :: string where "EVENT_SOURCE = ''CyberGuardAgent''"
definition EVENT_RUNNING :: u32 where "EVENT_RUNNING = 1000"
definition EVENT_STOPPED :: u32 where "EVENT_STOPPED = 1001"
definition EVENT_FAILED :: u32 where "EVENT_FAILED = 1002"
definition EVENT_DEADLINE :: u32 where "EVENT_DEADLINE = 1003"

text \<open>The descriptor of the product's directories, which the log and the migration share.\<close>

definition PRIVATE_DIRECTORY :: string where
  "PRIVATE_DIRECTORY = ''O:SYD:P(A;OICI;FA;;;SY)(A;OICI;FA;;;BA)''"

datatype service_exit =
    Clean usize
  | Failed u8 string
  | DeadlineExpired string "usize option"

record event_entry =
  ev_id :: u32
  ev_error :: bool
  ev_text :: string

fun specific_code :: "service_exit \<Rightarrow> u8 option" where
  "specific_code (Clean undelivered) = None"
| "specific_code (Failed code line) = Some code"
| "specific_code (DeadlineExpired pending undelivered) = Some EXIT_STOP_DEADLINE"

fun exit_entry :: "service_exit \<Rightarrow> event_entry" where
  "exit_entry (Clean undelivered) =
     \<lparr>ev_id = EVENT_STOPPED, ev_error = False,
      ev_text = ''cg-agent: the service stopped cleanly; events not delivered: '' @ dec undelivered\<rparr>"
| "exit_entry (Failed code line) =
     \<lparr>ev_id = EVENT_FAILED, ev_error = True,
      ev_text = ''cg-agent: the service stopped with code '' @ dec (unat code) @ '': '' @ line\<rparr>"
| "exit_entry (DeadlineExpired pending undelivered) =
     \<lparr>ev_id = EVENT_DEADLINE, ev_error = True,
      ev_text = ''cg-agent: the service stop could not end within its '' @ dec (STOP_DEADLINE div secs 1) @ '' s deadline, with ''
        @ pending @ '' pending; events not delivered: ''
        @ (case undelivered of None \<Rightarrow> ''unknown'' | Some n \<Rightarrow> dec n)\<rparr>"

definition with_log_failure :: "service_exit \<Rightarrow> string option \<Rightarrow> service_exit" where
  "with_log_failure exit log_failure =
     (case (log_failure, exit) of
        (Some reason, Clean _) \<Rightarrow> Failed EXIT_SERVICE_LOG (stderr_service_log reason)
      | _ \<Rightarrow> exit)"

definition running_entry :: "string \<Rightarrow> event_entry" where
  "running_entry version =
     \<lparr>ev_id = EVENT_RUNNING, ev_error = False, ev_text = ''cg-agent '' @ version @ '': the service is running''\<rparr>"

definition config_error_line :: "string \<Rightarrow> config_error \<Rightarrow> string" where
  "config_error_line path error =
     ''cg-agent: invalid config '' @ path @ '': ''
     @ (case error of
          Parse _ (Some (line, column)) \<Rightarrow> ''TOML parse error at line '' @ dec line @ '', column '' @ dec column
        | Parse _ None \<Rightarrow> ''TOML parse error''
        | other \<Rightarrow> config_error_text other)"

section \<open>Installed paths\<close>

definition check_service_config :: "string \<Rightarrow> agent_config \<Rightarrow> (string, unit) result" where
  "check_service_config path config =
     guard (ac_enrollment config \<noteq> None \<and> sc_trust_anchor_path (ac_server config) \<noteq> None)
       (''cg-agent: invalid config '' @ path @ '': the service requires [enrollment] and server.trust_anchor_path'')"

record installed_paths =
  ip_product_root :: string
  ip_data_root :: string
  ip_config :: string
  ip_trust_anchor :: string
  ip_identity_dir :: string
  ip_cert :: string
  ip_key :: string
  ip_identity :: string

definition paths_under :: "string \<Rightarrow> installed_paths" where
  "paths_under program_data =
     (let product_root = win_join program_data ''CyberGuard'';
          data_root = win_join product_root ''agent'';
          identity_dir = win_join data_root ''identity''
      in \<lparr>ip_product_root = product_root, ip_data_root = data_root, ip_config = win_join data_root ''agent.toml'',
          ip_trust_anchor = win_join data_root ''server-ca.pem'', ip_identity_dir = identity_dir,
          ip_cert = win_join identity_dir ''cert.pem'', ip_key = win_join identity_dir ''key.dat'',
          ip_identity = win_join identity_dir ''identity.json''\<rparr>)"

definition hygiene_temporary :: "installed_paths \<Rightarrow> string" where
  "hygiene_temporary p = win_join (ip_data_root p) ''agent.toml.hygiene-tmp''"

definition staging :: "installed_paths \<Rightarrow> string" where
  "staging p = win_join (ip_product_root p) ''agent.migrating''"

definition legacy :: "installed_paths \<Rightarrow> string" where
  "legacy p = win_join (ip_product_root p) ''agent.legacy''"

definition record_path :: "installed_paths \<Rightarrow> string" where
  "record_path p = win_join (ip_data_root p) ''migration.json''"

definition is_fixed_path :: "string \<Rightarrow> string \<Rightarrow> bool" where
  "is_fixed_path configured fixed = eq_ignore_ascii_case fixed configured"

definition not_fixed :: "string \<Rightarrow> string \<Rightarrow> string \<Rightarrow> string" where
  "not_fixed config_path key fixed =
     ''cg-agent: invalid config '' @ config_path @ '': '' @ key @ '' must be '' @ fixed @ '' in service mode''"

definition check_config_path :: "installed_paths \<Rightarrow> string \<Rightarrow> (string, unit) result" where
  "check_config_path p config_path =
     guard (is_fixed_path config_path (ip_config p)) (not_fixed config_path ''--config'' (ip_config p))"

definition check_installed_config :: "installed_paths \<Rightarrow> string \<Rightarrow> agent_config \<Rightarrow> (string, unit) result" where
  "check_installed_config p config_path config =
     and_then (check_service_config config_path config) (\<lambda>_.
     and_then (guard (is_fixed_path (case sc_trust_anchor_path (ac_server config) of Some a \<Rightarrow> a | None \<Rightarrow> []) (ip_trust_anchor p))
                (not_fixed config_path ''server.trust_anchor_path'' (ip_trust_anchor p))) (\<lambda>_.
       let enr = the (ac_enrollment config)
       in and_then (guard (is_fixed_path (ec_cert_path enr) (ip_cert p)) (not_fixed config_path ''enrollment.cert_path'' (ip_cert p))) (\<lambda>_.
          and_then (guard (is_fixed_path (ec_key_path enr) (ip_key p)) (not_fixed config_path ''enrollment.key_path'' (ip_key p))) (\<lambda>_.
          and_then (guard (is_fixed_path (ec_identity_path enr) (ip_identity p))
                     (not_fixed config_path ''enrollment.identity_path'' (ip_identity p))) (\<lambda>_.
            guard (sc_heartbeat_url (ac_server config) \<noteq> None)
              (''cg-agent: invalid config '' @ config_path @ '': the service requires server.heartbeat_url''))))))"

section \<open>Enrollment rounds\<close>

text \<open>
  The rounds of the identity step: how long the next round takes up to the poll
  in which it answers, how it ends and what it leaves of the state, and the
  instant at which the stop comes, if it does. The stop is polled first, so a
  round that it cuts short has not reached the poll that changes the state. The
  loop returns the result, none when stopped, and the instant at which it
  returns. With rounds that all end unreachable and no stop it does not return.
\<close>

partial_function (option) identity_rounds ::
    "(nat \<Rightarrow> 's \<Rightarrow> duration \<times> (enrollment_error, agent_id_value) result \<times> 's) \<Rightarrow> instant option \<Rightarrow> duration
     \<Rightarrow> nat \<Rightarrow> instant \<Rightarrow> 's \<Rightarrow> ((enrollment_error, agent_id_value) result option \<times> instant \<times> 's) option" where
  "identity_rounds rounds stop round_wait i now s =
     (let (took, res, s') = rounds i s; done = now + took
      in if (case stop of Some t \<Rightarrow> t \<le> done | None \<Rightarrow> False) then Some (None, max now (the stop), s)
         else case res of
           Inl (Unreachable attempts last_error) \<Rightarrow>
             if (case stop of Some t \<Rightarrow> t \<le> done + round_wait | None \<Rightarrow> False) then Some (None, the stop, s')
             else identity_rounds rounds stop round_wait (i + 1) (done + round_wait) s'
         | _ \<Rightarrow> Some (Some res, done, s'))"

lemma rounds_return:
  assumes "0 < round_wait"
  shows "\<exists>r ended s'. identity_rounds rounds (Some t) round_wait i now s = Some (r, ended, s') \<and> ended \<le> max now t
    \<and> (\<forall>res a e. r = Some res \<longrightarrow> res \<noteq> Inl (Unreachable a e))"
proof (induction "t - now" arbitrary: i now s rule: less_induct)
  case less
  obtain took res s1 where round: "rounds i s = (took, res, s1)"
    by (cases "rounds i s")
  show ?case
  proof (cases "t \<le> now + took")
    case True
    then show ?thesis
      by (subst identity_rounds.simps) (simp add: round)
  next
    case False
    show ?thesis
    proof (cases "\<exists>a e. res = Inl (Unreachable a e)")
      case True
      then obtain a e where res: "res = Inl (Unreachable a e)"
        by blast
      show ?thesis
      proof (cases "t \<le> now + took + round_wait")
        case True
        with False res show ?thesis
          by (subst identity_rounds.simps) (simp add: round)
      next
        case late: False
        then have "t - (now + took + round_wait) < t - now"
          using assms False by linarith
        from less [OF this, of "i + 1" s1] obtain r ended s' where
          "identity_rounds rounds (Some t) round_wait (i + 1) (now + took + round_wait) s1 = Some (r, ended, s')"
          "ended \<le> max (now + took + round_wait) t" "\<forall>res a e. r = Some res \<longrightarrow> res \<noteq> Inl (Unreachable a e)"
          by blast
        with False late res show ?thesis
          by (subst identity_rounds.simps) (simp add: round)
      qed
    next
      case decided: False
      have "identity_rounds rounds (Some t) round_wait i now s = Some (Some res, now + took, s1)"
        using False decided
        by (subst identity_rounds.simps) (simp add: round Let_def split: sum.splits enrollment_error.splits)
      with False decided show ?thesis
        by auto
    qed
  qed
qed

text \<open>
  Claim C34. Once a stop is asked for, the identity step of the service ends,
  however long the rounds take and however many of them fail: it returns no
  later than the stop, either stopped or with a result other than an
  unreachable server, which is never its result.
\<close>

theorem rounds_end_at_stop:
  assumes "now \<le> t"
  shows "\<exists>r ended s'. identity_rounds rounds (Some t) ENROLLMENT_ROUND_WAIT i now s = Some (r, ended, s') \<and> ended \<le> t
    \<and> (\<forall>res a e. r = Some res \<longrightarrow> res \<noteq> Inl (Unreachable a e))"
  using rounds_return [of ENROLLMENT_ROUND_WAIT rounds t i now s] assms
  by (simp add: ENROLLMENT_ROUND_WAIT_def secs_def max_def)

theorem rounds_end_at_stop_witness:
  "\<exists>r ended s'. identity_rounds (\<lambda>_ n. (secs 33, Inl (Unreachable 3 ''down''), Suc n)) (Some (secs 500)) ENROLLMENT_ROUND_WAIT 0 0 (0 :: nat)
       = Some (r, ended, s') \<and> ended \<le> secs 500"
  using rounds_end_at_stop [of 0 "secs 500" "\<lambda>_ n. (secs 33, Inl (Unreachable 3 ''down''), Suc n)" 0 "0 :: nat"] by auto

section \<open>The installed configuration's paths\<close>

lemma check_installed_config_paths:
  assumes "check_installed_config p config_path config = Inr ()"
  shows "\<exists>enr. ac_enrollment config = Some enr \<and> eq_ignore_ascii_case (ec_cert_path enr) (ip_cert p)
    \<and> eq_ignore_ascii_case (ec_key_path enr) (ip_key p) \<and> eq_ignore_ascii_case (ec_identity_path enr) (ip_identity p)
    \<and> (\<exists>a. sc_trust_anchor_path (ac_server config) = Some a \<and> eq_ignore_ascii_case a (ip_trust_anchor p))
    \<and> sc_heartbeat_url (ac_server config) \<noteq> None"
  using assms
  by (auto simp: check_installed_config_def check_service_config_def is_fixed_path_def result Let_def eq_ignore_ascii_case_def)

end
