(* ===== verification/Identity.thy ===== *)
theory Identity
  imports Custody Enrollment X509 Service_Core
begin

text \<open>
  The load-or-enroll dispatcher and the persistence of the identity
  (\<open>identity.rs\<close>), for the console and for the installed service, over the
  store of \<open>Win_Store\<close>. The JSON and TOML texts, the PEM reader and the sealing
  store are libraries, held in the record \<open>agent_libs\<close>.
\<close>

section \<open>Data\<close>

record persisted_identity =
  pi_agent_id :: string
  pi_agent_pubkey_fingerprint :: string
  pi_issued_at :: string
  pi_expires_at :: string

definition persisted_json :: "persisted_identity \<Rightarrow> json" where
  "persisted_json p = JObj
     [(''agent_id'', JStr (pi_agent_id p)), (''agent_pubkey_fingerprint'', JStr (pi_agent_pubkey_fingerprint p)),
      (''issued_at'', JStr (pi_issued_at p)), (''expires_at'', JStr (pi_expires_at p))]"

definition read_persisted :: "json \<Rightarrow> persisted_identity option" where
  "read_persisted j = do {
     agent_id \<leftarrow> field ''agent_id'' of_str j;
     fingerprint \<leftarrow> field ''agent_pubkey_fingerprint'' of_str j;
     issued \<leftarrow> field ''issued_at'' of_str j;
     expires \<leftarrow> field ''expires_at'' of_str j;
     Some \<lparr>pi_agent_id = agent_id, pi_agent_pubkey_fingerprint = fingerprint, pi_issued_at = issued, pi_expires_at = expires\<rparr> }"

record agent_libs =
  lb_keys :: key_lib
  lb_store :: secure_store
  lb_json_print :: "json \<Rightarrow> (string, string) result"
  lb_json_parse :: "string \<Rightarrow> (string, json) result"
  lb_json_shape :: "json \<Rightarrow> string"
  lb_toml_parse :: "string \<Rightarrow> (string, toml_value) result"
  lb_toml_print :: "toml_value \<Rightarrow> (string, string) result"
  lb_certs :: "string \<Rightarrow> bytes list option"

definition persisted_from_str :: "agent_libs \<Rightarrow> string \<Rightarrow> (string, persisted_identity) result" where
  "persisted_from_str libs raw =
     and_then (lb_json_parse libs raw) (\<lambda>j. ok_or (lb_json_shape libs j) (read_persisted j))"

section \<open>The standard library's file operations\<close>

definition fs_exists :: "win_env \<Rightarrow> string \<Rightarrow> store \<Rightarrow> bool \<times> store" where
  "fs_exists env path s =
     (case we_fate env (st_ops s) of Done \<Rightarrow> (object_at path s \<noteq> None, tick s) | Win32 _ _ \<Rightarrow> (False, tick s))"

definition fs_try_exists :: "win_env \<Rightarrow> string \<Rightarrow> (string, bool) io" where
  "fs_try_exists env path s =
     (case we_fate env (st_ops s) of
        Done \<Rightarrow> (Inr (object_at path s \<noteq> None), tick s)
      | Win32 e _ \<Rightarrow> (if e = 2 \<or> e = 3 then Inr False else Inl (we_io_text env e), tick s))"

definition fs_read_file :: "win_env \<Rightarrow> string \<Rightarrow> (string, bytes) io" where
  "fs_read_file env path =
     io_bind (win_query env (we_io_text env) (\<lambda>s. object_at path s)) (\<lambda>opened.
       io_lift (map_sum id ob_bytes (ok_or (we_io_text env 2) opened)))"

definition fs_read_to_string :: "win_env \<Rightarrow> string \<Rightarrow> (string, string) io" where
  "fs_read_to_string env path =
     io_bind (fs_read_file env path) (\<lambda>bs.
       io_lift (ok_or ''stream did not contain valid UTF-8'' (from_utf8 bs)))"

text \<open>A write creates the file under the inherited security, or truncates the one that is there.\<close>

definition fs_write_file :: "win_env \<Rightarrow> string \<Rightarrow> bytes \<Rightarrow> (string, unit) io" where
  "fs_write_file env path bs s =
     (let written = (case we_fate env (st_ops s) of Done \<Rightarrow> bs | Win32 _ _ \<Rightarrow> take (we_written env (st_ops s)) bs)
      in win_call env (we_io_text env)
           (\<lambda>obs. case find_object path obs of
                     None \<Rightarrow> put_object (new_file env (st_ops s) path (we_inherited env) written) obs
                   | Some _ \<Rightarrow> set_object path (\<lambda>ob. ob\<lparr>ob_bytes := written\<rparr>) obs) s)"

text \<open>A rename of the standard library replaces the target.\<close>

definition fs_rename_over :: "win_env \<Rightarrow> string \<Rightarrow> string \<Rightarrow> (string, unit) io" where
  "fs_rename_over env a b = io_map_err (we_io_text env) (replace_call env a b)"

text \<open>\<open>Path::parent\<close> and \<open>create_dir_all\<close>: the directories above a path that are missing.\<close>

definition separator :: "char \<Rightarrow> bool" where
  "separator c \<longleftrightarrow> c = bslash \<or> c = CHR ''/''"

definition path_parent :: "string \<Rightarrow> string option" where
  "path_parent path =
     (if path = [] then None
      else Some (case rev (dropWhile (\<lambda>c. \<not> separator c) (rev path)) of [] \<Rightarrow> [] | d \<Rightarrow> butlast d))"

definition ancestors :: "string \<Rightarrow> string list" where
  "ancestors dir = map (\<lambda>i. take i dir) (filter (\<lambda>i. i = length dir \<or> separator (dir ! i)) [1..<length dir + 1])"

definition fs_create_dir_all :: "win_env \<Rightarrow> string \<Rightarrow> (string, unit) io" where
  "fs_create_dir_all env dir s =
     win_call env (we_io_text env)
       (\<lambda>obs. fold (\<lambda>d obs. if find_object d obs = None then put_object (new_directory env (st_ops s) d (we_inherited env)) obs else obs)
                (ancestors dir) obs) s"

section \<open>The console's identity\<close>

abbreviation persistence :: "string \<Rightarrow> enrollment_error" where
  "persistence \<equiv> Persistence"

definition is_enrolled :: "win_env \<Rightarrow> agent_config \<Rightarrow> store \<Rightarrow> bool \<times> store" where
  "is_enrolled env config s =
     (case ac_enrollment config of
        None \<Rightarrow> (False, s)
      | Some enr \<Rightarrow>
          (case fs_exists env (ec_cert_path enr) s of
             (False, s1) \<Rightarrow> (False, s1)
           | (True, s1) \<Rightarrow> fs_exists env (ec_key_path enr) s1))"

definition identity_files :: "enrollment_config \<Rightarrow> (string \<times> string) list" where
  "identity_files enr =
     [(''the certificate'', ec_cert_path enr), (''the key'', ec_key_path enr), (''identity.json'', ec_identity_path enr)]"

fun missing_files :: "win_env \<Rightarrow> (string \<times> string) list \<Rightarrow> (enrollment_error, string list) io" where
  "missing_files env [] = io_lift (Inr [])"
| "missing_files env ((name, path) # files) =
     io_bind (io_map_err (\<lambda>e. Persistence (''cannot inspect '' @ name @ '' at '' @ path @ '': '' @ e)) (fs_try_exists env path)) (\<lambda>there.
     io_bind (missing_files env files) (\<lambda>missing. io_lift (Inr (if there then missing else name # missing))))"

definition check_identity_set :: "win_env \<Rightarrow> agent_config \<Rightarrow> (enrollment_error, unit) io" where
  "check_identity_set env config =
     (case ac_enrollment config of
        None \<Rightarrow> io_lift (Inr ())
      | Some enr \<Rightarrow>
          io_bind (missing_files env (identity_files enr)) (\<lambda>missing.
            io_lift (guard (missing = [] \<or> length missing = length (identity_files enr))
              (Persistence (''incomplete identity: '' @ join '' and '' missing
                 @ '' missing; restore the identity, or remove all three files and enroll with a new token'')))))"

definition unseal_seed :: "agent_libs \<Rightarrow> bytes \<Rightarrow> (enrollment_error, bytes) result" where
  "unseal_seed libs sealed =
     and_then (map_err (\<lambda>e. Persistence (''cannot decrypt private key: '' @ secure_store_error_text e)) (ss_unseal (lb_store libs) sealed)) (\<lambda>secret.
     and_then (guard (length secret = KEY_LEN) (Persistence (''decrypted key has wrong length ('' @ dec (length secret) @ '' bytes)''))) (\<lambda>_.
       Inr secret))"

definition check_fingerprint :: "agent_libs \<Rightarrow> persisted_identity \<Rightarrow> agent_keypair \<Rightarrow> (enrollment_error, unit) result" where
  "check_fingerprint libs persisted keypair =
     guard (pubkey_fingerprint (lb_keys libs) (public_key_bytes keypair) = pi_agent_pubkey_fingerprint persisted)
       (Persistence ''pubkey fingerprint mismatch'')"

definition load_identity :: "win_env \<Rightarrow> agent_libs \<Rightarrow> agent_config \<Rightarrow> (enrollment_error, agent_id_value) io" where
  "load_identity env libs config =
     io_bind (io_lift (ok_or MissingToken (ac_enrollment config))) (\<lambda>enr.
     io_bind (io_map_err (\<lambda>e. Persistence (''cannot read cert.pem: '' @ e)) (fs_read_to_string env (ec_cert_path enr))) (\<lambda>pem.
     io_bind (\<lambda>s. case fs_exists env (ec_identity_path enr) s of (there, s1) \<Rightarrow> (guard there (Persistence ''identity.json missing''), s1)) (\<lambda>_.
     io_bind (io_map_err (\<lambda>e. Persistence (''cannot read identity.json: '' @ e)) (fs_read_to_string env (ec_identity_path enr))) (\<lambda>raw.
     io_bind (io_lift (map_err (\<lambda>e. Persistence (''identity.json corrupted: '' @ e)) (persisted_from_str libs raw))) (\<lambda>persisted.
     io_bind (io_map_err (\<lambda>e. Persistence (''cannot read key.dat: '' @ e)) (fs_read_file env (ec_key_path enr))) (\<lambda>sealed.
     io_bind (io_lift (unseal_seed libs sealed)) (\<lambda>seed.
       let keypair = from_secret_bytes (lb_keys libs) seed
       in io_bind (io_lift (check_fingerprint libs persisted keypair)) (\<lambda>_.
            io_lift (Inr \<lparr>id_agent_id = pi_agent_id persisted, id_keypair = keypair, id_certificate_pem = pem\<rparr>)))))))))"

text \<open>
  Hardening: a protected DACL of two entries, full control for the current
  user's SID and for SYSTEM's. The two SIDs are the operating system's answers.
\<close>

record acl_sids =
  as_user :: "(string, bytes) result"
  as_system :: "(string, bytes) result"
  as_set_entries :: "(string, unit) result"

definition full_control :: "bytes \<Rightarrow> ace" where
  "full_control sid = \<lparr>ace_type = ACCESS_ALLOWED_ACE_TYPE, ace_flags = 0, ace_mask = 0x1F01FF, ace_sid = sid\<rparr>"

definition set_owner_only_dacl :: "win_env \<Rightarrow> acl_sids \<Rightarrow> string \<Rightarrow> (string, unit) io" where
  "set_owner_only_dacl env sids path =
     io_bind (io_lift (as_user sids)) (\<lambda>user.
     io_bind (io_lift (map_err (\<lambda>e. ''CreateWellKnownSid: '' @ e) (as_system sids))) (\<lambda>system.
     io_bind (io_lift (map_err (\<lambda>e. ''SetEntriesInAclW: '' @ e) (as_set_entries sids))) (\<lambda>_.
       win_call env (\<lambda>e. ''SetNamedSecurityInfoW: '' @ we_io_text env e)
         (set_object path (\<lambda>ob. ob\<lparr>ob_security := (ob_security ob)\<lparr>
            sd_dacl := Inr (Some [Inr (full_control user), Inr (full_control system)]),
            sd_control := Inr SE_DACL_PROTECTED\<rparr>\<rparr>)))))"

definition harden :: "win_env \<Rightarrow> acl_sids \<Rightarrow> string \<Rightarrow> (enrollment_error, unit) io" where
  "harden env sids path =
     io_map_err (\<lambda>e. Persistence (''cannot restrict '' @ path @ '': '' @ e)) (set_owner_only_dacl env sids path)"

definition persisted_of :: "agent_libs \<Rightarrow> enrolled_identity \<Rightarrow> persisted_identity" where
  "persisted_of libs enrolled =
     \<lparr>pi_agent_id = en_agent_id enrolled,
      pi_agent_pubkey_fingerprint = pubkey_fingerprint (lb_keys libs) (en_public_key enrolled),
      pi_issued_at = en_issued_at enrolled, pi_expires_at = en_expires_at enrolled\<rparr>"

definition persist_identity ::
    "win_env \<Rightarrow> agent_libs \<Rightarrow> acl_sids \<Rightarrow> agent_config \<Rightarrow> enrolled_identity \<Rightarrow> (enrollment_error, unit) io" where
  "persist_identity env libs sids config enrolled =
     io_bind (io_lift (ok_or MissingToken (ac_enrollment config))) (\<lambda>enr.
     io_bind (io_each (\<lambda>p. case path_parent p of
                  None \<Rightarrow> io_lift (Inr ())
                | Some parent \<Rightarrow> io_map_err (\<lambda>e. Persistence (''cannot create '' @ parent @ '': '' @ e)) (fs_create_dir_all env parent))
                [ec_cert_path enr, ec_key_path enr, ec_identity_path enr]) (\<lambda>_.
     io_bind (io_lift (map_err (\<lambda>e. Persistence (''cannot seal private key: '' @ secure_store_error_text e))
                (ss_seal (lb_store libs) (en_secret_seed enrolled)))) (\<lambda>sealed.
     io_bind (io_map_err (\<lambda>e. Persistence (''cannot write cert.pem: '' @ e))
                (fs_write_file env (ec_cert_path enr) (as_bytes (en_client_certificate_pem enrolled)))) (\<lambda>_.
     io_bind (io_map_err (\<lambda>e. Persistence (''cannot write key.dat: '' @ e)) (fs_write_file env (ec_key_path enr) sealed)) (\<lambda>_.
     io_bind (io_lift (map_err (\<lambda>e. Persistence (''cannot serialize identity.json: '' @ e))
                (lb_json_print libs (persisted_json (persisted_of libs enrolled))))) (\<lambda>identity_json.
     io_bind (io_map_err (\<lambda>e. Persistence (''cannot write identity.json: '' @ e))
                (fs_write_file env (ec_identity_path enr) (as_bytes identity_json))) (\<lambda>_.
       io_each (harden env sids) [ec_cert_path enr, ec_key_path enr, ec_identity_path enr])))))))"

section \<open>The token\<close>

fun remove_key :: "string \<Rightarrow> toml_value \<Rightarrow> toml_value" where
  "remove_key k (TomlTable t) = TomlTable (filter (\<lambda>(k', _). k' \<noteq> k) t)"
| "remove_key k v = v"

definition update_key :: "string \<Rightarrow> (toml_value \<Rightarrow> toml_value) \<Rightarrow> toml_value \<Rightarrow> toml_value" where
  "update_key k f v =
     (case v of
        TomlTable t \<Rightarrow> TomlTable (map (\<lambda>(k', x). if k' = k then (k', f x) else (k', x)) t)
      | _ \<Rightarrow> v)"

definition without_token :: "agent_libs \<Rightarrow> string \<Rightarrow> (string, string) result" where
  "without_token libs content =
     and_then (lb_toml_parse libs content) (\<lambda>doc.
       lb_toml_print libs (update_key ''enrollment'' (remove_key ''token'') doc))"

definition last_component :: "string \<Rightarrow> string" where
  "last_component path = rev (takeWhile (\<lambda>c. \<not> separator c) (rev path))"

definition token_temporary :: "string \<Rightarrow> string" where
  "token_temporary config_path =
     (if last_component config_path = [] \<or> last_component config_path = ''..''
      then win_join config_path ''agent.toml.hygiene-tmp''
      else config_path @ ''.hygiene-tmp'')"

definition rewrite_without_token :: "win_env \<Rightarrow> agent_libs \<Rightarrow> string \<Rightarrow> (string, unit) io" where
  "rewrite_without_token env libs config_path =
     io_bind (fs_read_to_string env config_path) (\<lambda>content.
     io_bind (io_lift (without_token libs content)) (\<lambda>rewritten.
     io_bind (fs_write_file env (token_temporary config_path) (as_bytes rewritten)) (\<lambda>_.
       fs_rename_over env (token_temporary config_path) config_path)))"

text \<open>Best effort: a failure is logged.\<close>

definition best_effort :: "('e, unit) io \<Rightarrow> ('f, unit) io" where
  "best_effort m s = (Inr (), snd (m s))"

definition hygienize_token :: "win_env \<Rightarrow> agent_libs \<Rightarrow> string \<Rightarrow> (enrollment_error, unit) io" where
  "hygienize_token env libs config_path = best_effort (rewrite_without_token env libs config_path)"

definition identity_of :: "agent_libs \<Rightarrow> enrolled_identity \<Rightarrow> agent_id_value" where
  "identity_of libs enrolled =
     \<lparr>id_agent_id = en_agent_id enrolled, id_keypair = from_secret_bytes (lb_keys libs) (en_secret_seed enrolled),
      id_certificate_pem = en_client_certificate_pem enrolled\<rparr>"

text \<open>\<open>enrolled\<close> is the outcome of the enrollment exchange, when it is run.\<close>

definition ensure_identity ::
    "win_env \<Rightarrow> agent_libs \<Rightarrow> acl_sids \<Rightarrow> (enrollment_error, enrolled_identity) result \<Rightarrow> agent_config \<Rightarrow> string
     \<Rightarrow> (enrollment_error, agent_id_value) io" where
  "ensure_identity env libs sids enrolled config config_path =
     io_bind (io_lift (ok_or MissingToken (ac_enrollment config))) (\<lambda>enr s.
       case is_enrolled env config s of
         (True, s1) \<Rightarrow> load_identity env libs config s1
       | (False, s1) \<Rightarrow>
           io_bind (io_lift enrolled) (\<lambda>e.
           io_bind (persist_identity env libs sids config e) (\<lambda>_.
           io_bind (hygienize_token env libs config_path) (\<lambda>_. io_lift (Inr (identity_of libs e))))) s1)"

section \<open>The installed identity\<close>

definition check_consistency :: "agent_libs \<Rightarrow> string \<Rightarrow> bytes \<Rightarrow> string \<Rightarrow> (string, unit) result" where
  "check_consistency libs cert_pem public_key agent_id =
     and_then (map_err (\<lambda>e. ''the certificate cannot be read: '' @ e) (certificate_identity (lb_certs libs) cert_pem)) (\<lambda>certificate.
     and_then (guard (ed25519_public_key certificate = public_key) ''the certificate's public key is not the agent's key'') (\<lambda>_.
       guard (cert_common_name certificate = agent_id) ''the certificate's common name is not the agent's id''))"

definition DIRECTORY_SDDL :: string where "DIRECTORY_SDDL = ''O:SYD:P(A;OICI;FA;;;SY)''"
definition FILE_SDDL :: string where "FILE_SDDL = ''O:SYD:P(A;;FA;;;SY)''"

record installed_custody =
  ic_identity_dir :: string
  ic_hygiene_temporary :: string
  ic_policy :: policy
  ic_config_policy :: policy
  ic_directory_sddl :: string
  ic_file_sddl :: string

definition custody_system :: "installed_paths \<Rightarrow> installed_custody" where
  "custody_system p =
     \<lparr>ic_identity_dir = ip_identity_dir p, ic_hygiene_temporary = hygiene_temporary p, ic_policy = policy_system_only,
      ic_config_policy = policy_configuration, ic_directory_sddl = DIRECTORY_SDDL, ic_file_sddl = FILE_SDDL\<rparr>"

definition REPAIR :: string where
  "REPAIR = ''restore the identity, or remove the identity directory and enroll with a new token''"

fun missing_checked :: "win_env \<Rightarrow> policy \<Rightarrow> (string \<times> string) list \<Rightarrow> (string, string list) io" where
  "missing_checked env po [] = io_lift (Inr [])"
| "missing_checked env po ((name, path) # files) =
     io_bind (check_if_exists env path File po) (\<lambda>there.
     io_bind (missing_checked env po files) (\<lambda>missing. io_lift (Inr (if there then missing else name # missing))))"

definition installed_check :: "win_env \<Rightarrow> agent_config \<Rightarrow> installed_custody \<Rightarrow> (enrollment_error, unit) io" where
  "installed_check env config custody =
     io_bind (io_lift (ok_or MissingToken (ac_enrollment config))) (\<lambda>enr.
     io_bind (io_map_err Persistence (check_if_exists env (ic_identity_dir custody) Directory (ic_policy custody))) (\<lambda>there.
       if \<not> there then io_lift (Inr ())
       else
         io_bind (io_map_err Persistence (missing_checked env (ic_policy custody) (identity_files enr))) (\<lambda>missing.
           io_lift (guard (missing = []) (Persistence (''incomplete identity: '' @ join '' and '' missing @ '' missing; '' @ REPAIR))))))"

definition check_issued :: "agent_libs \<Rightarrow> enrolled_identity \<Rightarrow> (enrollment_error, unit) result" where
  "check_issued libs enrolled =
     map_err (\<lambda>e. Refused (''malformed response: '' @ e))
       (check_consistency libs (en_client_certificate_pem enrolled) (en_public_key enrolled) (en_agent_id enrolled))"

fun with_repair :: "enrollment_error \<Rightarrow> enrollment_error" where
  "with_repair (Persistence reason) = Persistence (reason @ ''; '' @ REPAIR)"
| "with_repair other = other"

definition installed_load :: "win_env \<Rightarrow> agent_libs \<Rightarrow> agent_config \<Rightarrow> (enrollment_error, agent_id_value) io" where
  "installed_load env libs config =
     io_bind (io_map_err with_repair (load_identity env libs config)) (\<lambda>identity.
     io_bind (io_lift (map_err (\<lambda>e. Persistence (''inconsistent identity: '' @ e @ ''; '' @ REPAIR))
                (check_consistency libs (id_certificate_pem identity) (public_key_bytes (id_keypair identity)) (id_agent_id identity)))) (\<lambda>_.
       io_lift (Inr identity)))"

definition installed_persist ::
    "win_env \<Rightarrow> agent_libs \<Rightarrow> agent_config \<Rightarrow> enrolled_identity \<Rightarrow> installed_custody \<Rightarrow> (enrollment_error, unit) io" where
  "installed_persist env libs config enrolled custody =
     io_bind (io_lift (ok_or MissingToken (ac_enrollment config))) (\<lambda>enr.
     io_bind (io_map_err Persistence (ensure_directory env (ic_identity_dir custody) (ic_directory_sddl custody) (ic_policy custody))) (\<lambda>_.
     io_bind (io_lift (map_err (\<lambda>e. Persistence (''cannot seal private key: '' @ secure_store_error_text e))
                (ss_seal (lb_store libs) (en_secret_seed enrolled)))) (\<lambda>sealed.
     io_bind (io_lift (map_err (\<lambda>e. Persistence (''cannot serialize identity.json: '' @ e))
                (lb_json_print libs (persisted_json (persisted_of libs enrolled))))) (\<lambda>identity_json.
       io_map_err Persistence
         (io_each (\<lambda>(path, bs). create_new_file env path (ic_file_sddl custody) bs)
            [(ec_cert_path enr, as_bytes (en_client_certificate_pem enrolled)), (ec_key_path enr, sealed),
             (ec_identity_path enr, as_bytes identity_json)])))))"

definition installed_hygienize :: "win_env \<Rightarrow> agent_libs \<Rightarrow> string \<Rightarrow> installed_custody \<Rightarrow> (enrollment_error, unit) io" where
  "installed_hygienize env libs config_path custody =
     best_effort
       (io_bind (read_checked env config_path (ic_config_policy custody)) (\<lambda>bs.
        io_bind (io_lift (ok_or ''agent.toml does not exist'' bs)) (\<lambda>bs.
        io_bind (io_lift (ok_or ''agent.toml is not UTF-8'' (from_utf8 bs))) (\<lambda>content.
        io_bind (io_lift (map_err (\<lambda>_. ''agent.toml is not valid TOML'') (without_token libs content))) (\<lambda>text.
          replace_keeping_security env config_path (ic_hygiene_temporary custody) (as_bytes text) (ic_config_policy custody))))))"

definition installed_ensure ::
    "win_env \<Rightarrow> agent_libs \<Rightarrow> (enrollment_error, enrolled_identity) result \<Rightarrow> agent_config \<Rightarrow> string \<Rightarrow> installed_custody
     \<Rightarrow> (enrollment_error, agent_id_value) io" where
  "installed_ensure env libs enrolled config config_path custody =
     io_bind (io_lift (ok_or MissingToken (ac_enrollment config))) (\<lambda>enr s.
       case is_enrolled env config s of
         (True, s1) \<Rightarrow> installed_load env libs config s1
       | (False, s1) \<Rightarrow>
           io_bind (io_lift enrolled) (\<lambda>e.
           io_bind (io_lift (check_issued libs e)) (\<lambda>_.
           io_bind (installed_persist env libs config e custody) (\<lambda>_.
           io_bind (installed_hygienize env libs config_path custody) (\<lambda>_. io_lift (Inr (identity_of libs e)))))) s1)"

end
