(* ===== verification/Migration.thy ===== *)
theory Migration
  imports Identity "HOL-Library.List_Lexorder" "HOL-Library.Char_ord"
begin

text \<open>
  The migration of a console installation into the service's custody
  (\<open>service/migration.rs\<close>): the start arguments, the record, the route with its
  checks, the staging and the two renames of the commit, the completion or
  reversal of an interrupted one, and the pass over the old copies. \<open>prepare\<close>
  is what a start does before it reads its configuration, and \<open>copies\<close> what it
  does once it runs. The watch that injects failures and crashes at each point
  is part of the environment, as are Windows and the libraries.
\<close>

unbundle bit_operations_syntax

section \<open>Names\<close>

definition DEFAULT_REFUSAL :: string where
  "DEFAULT_REFUSAL =
     ''the data directory holds a console installation's identity files: migrate them before removing anything''"

abbreviation CONFIG :: string where "CONFIG \<equiv> ''agent.toml''"
abbreviation ANCHOR :: string where "ANCHOR \<equiv> ''server-ca.pem''"
abbreviation CERT :: string where "CERT \<equiv> ''cert.pem''"
abbreviation KEY :: string where "KEY \<equiv> ''key.dat''"
abbreviation IDENTITY :: string where "IDENTITY \<equiv> ''identity.json''"
abbreviation IDENTITY_DIRECTORY :: string where "IDENTITY_DIRECTORY \<equiv> ''identity''"
abbreviation TEMPORARY :: string where "TEMPORARY \<equiv> ''agent.toml.hygiene-tmp''"
abbreviation RECORD :: string where "RECORD \<equiv> ''migration.json''"
abbreviation RECORD_TEMPORARY :: string where "RECORD_TEMPORARY \<equiv> ''migration.json.rewrite-tmp''"

definition REQUIRED :: "string list" where "REQUIRED = [CONFIG, ANCHOR, CERT, KEY, IDENTITY]"
definition IDENTITY_FILES :: "string list" where "IDENTITY_FILES = [CERT, KEY, IDENTITY]"
definition READ_LIMIT :: nat where "READ_LIMIT = 16 * 1024 * 1024"

abbreviation REPAIR_ENTRY :: string where
  "REPAIR_ENTRY \<equiv> ''repair: an administrator who has checked that it is not the agent's removes it''"
abbreviation REPAIR_LINK :: string where
  "REPAIR_LINK \<equiv> ''repair: an administrator gives it owner SYSTEM and a protected DACL for SYSTEM and Administrators, so that no one else can link it again, then removes its other names''"
abbreviation REPAIR_OWNER :: string where
  "REPAIR_OWNER \<equiv> ''repair: after a restart, before that account signs in again, an elevated administrator of another account who has checked that the owner is the account that set up or enrolled the agent makes Administrators its owner, and gives a directory SYSTEM and Administrators alone, then starts the migration again; an owner that cannot be so confirmed means enrolling anew''"
abbreviation REPAIR_TEMPORARY :: string where
  "REPAIR_TEMPORARY \<equiv> ''repair: an administrator deletes it, since it holds at most a consumed token''"
abbreviation REPAIR_ANEW :: string where
  "REPAIR_ANEW \<equiv> ''repair: an administrator keeps the files aside, removes the CyberGuard directory and installs anew with a new token, the old agent removed on the server''"

section \<open>The start arguments\<close>

datatype choice = Remove | Keep

text \<open>A \<open>BTreeSet\<close> of strings is the sorted list of its elements.\<close>

record request =
  rq_choice :: choice
  rq_fingerprints :: "string list"

definition invalid_arguments :: "string \<Rightarrow> string" where
  "invalid_arguments reason = ''cg-agent: invalid migration arguments: '' @ reason"

definition is_fingerprint :: "string \<Rightarrow> bool" where
  "is_fingerprint v =
     (case strip_prefix v ''sha256:'' of
        None \<Rightarrow> False
      | Some digits \<Rightarrow> length digits = 64 \<and> list_all (\<lambda>c. c \<in> set ''0123456789abcdef'') digits)"

fun parse_arguments :: "string list \<Rightarrow> choice option \<Rightarrow> string list \<Rightarrow> (string, choice option \<times> string list) result" where
  "parse_arguments [] choice fingerprints = Inr (choice, fingerprints)"
| "parse_arguments (argument # rest) choice fingerprints =
     (case strip_prefix argument ''--migrate-legacy='' of
        Some v \<Rightarrow>
          if v \<noteq> ''remove'' \<and> v \<noteq> ''keep'' then Inl (invalid_arguments ''--migrate-legacy is not remove or keep'')
          else if choice \<noteq> None then Inl (invalid_arguments ''--migrate-legacy is given more than once'')
          else parse_arguments rest (Some (if v = ''remove'' then Remove else Keep)) fingerprints
      | None \<Rightarrow>
          (case strip_prefix argument ''--trust-anchor-sha256='' of
             Some v \<Rightarrow>
               if \<not> is_fingerprint v
               then Inl (invalid_arguments ''--trust-anchor-sha256 is not sha256: and 64 lowercase hexadecimal digits'')
               else parse_arguments rest choice (insort_insert v fingerprints)
           | None \<Rightarrow> Inl (invalid_arguments ''a start argument is neither --migrate-legacy nor --trust-anchor-sha256'')))"

definition parse_start_arguments :: "string list \<Rightarrow> (string, request option) result" where
  "parse_start_arguments arguments =
     (if arguments = [] then Inr None
      else
        and_then (parse_arguments arguments None []) (\<lambda>(choice, fingerprints).
        and_then (ok_or (invalid_arguments ''--trust-anchor-sha256 is given without --migrate-legacy'') choice) (\<lambda>choice.
        and_then (guard (fingerprints \<noteq> []) (invalid_arguments ''--migrate-legacy is given without --trust-anchor-sha256'')) (\<lambda>_.
          Inr (Some \<lparr>rq_choice = choice, rq_fingerprints = fingerprints\<rparr>)))))"

section \<open>The record\<close>

record migration_record =
  mr_choice :: choice
  mr_fingerprints :: "string list"
  mr_agent_id :: string
  mr_key_fingerprint :: string
  mr_enrolling_account :: "string option"
  mr_files :: "(string \<times> string) list"
  mr_reversal_pending :: bool
  mr_copies_not_reached :: "string list"

definition record_json :: "migration_record \<Rightarrow> json" where
  "record_json r = JObj
     [(''choice'', JStr (case mr_choice r of Remove \<Rightarrow> ''remove'' | Keep \<Rightarrow> ''keep'')),
      (''fingerprints'', JArr (map JStr (mr_fingerprints r))), (''agent_id'', JStr (mr_agent_id r)),
      (''key_fingerprint'', JStr (mr_key_fingerprint r)), (''enrolling_account'', nullable JStr (mr_enrolling_account r)),
      (''files'', JObj (map (\<lambda>(k, v). (k, JStr v)) (mr_files r))), (''reversal_pending'', JBool (mr_reversal_pending r)),
      (''copies_not_reached'', JArr (map JStr (mr_copies_not_reached r)))]"

fun of_choice :: "json \<Rightarrow> choice option" where
  "of_choice (JStr t) = (if t = ''remove'' then Some Remove else if t = ''keep'' then Some Keep else None)"
| "of_choice _ = None"

fun each_some :: "('a \<Rightarrow> 'b option) \<Rightarrow> 'a list \<Rightarrow> 'b list option" where
  "each_some f [] = Some []"
| "each_some f (x # xs) = (case f x of None \<Rightarrow> None | Some y \<Rightarrow> map_option ((#) y) (each_some f xs))"

fun of_strs :: "json \<Rightarrow> string list option" where
  "of_strs (JArr js) = each_some of_str js"
| "of_strs _ = None"

fun of_str_map :: "json \<Rightarrow> (string \<times> string) list option" where
  "of_str_map (JObj ms) = each_some (\<lambda>(k, j). map_option (Pair k) (of_str j)) ms"
| "of_str_map _ = None"

definition read_record :: "json \<Rightarrow> migration_record option" where
  "read_record j = do {
     choice \<leftarrow> field ''choice'' of_choice j;
     fingerprints \<leftarrow> field ''fingerprints'' of_strs j;
     agent_id \<leftarrow> field ''agent_id'' of_str j;
     key \<leftarrow> field ''key_fingerprint'' of_str j;
     account \<leftarrow> field_opt ''enrolling_account'' of_str j;
     files \<leftarrow> field ''files'' of_str_map j;
     reversal \<leftarrow> field ''reversal_pending'' of_bool_json j;
     copies \<leftarrow> field ''copies_not_reached'' of_strs j;
     Some \<lparr>mr_choice = choice, mr_fingerprints = fingerprints, mr_agent_id = agent_id, mr_key_fingerprint = key,
       mr_enrolling_account = account, mr_files = files, mr_reversal_pending = reversal, mr_copies_not_reached = copies\<rparr> }"

definition asks_for :: "migration_record \<Rightarrow> request \<Rightarrow> bool" where
  "asks_for r q \<longleftrightarrow> mr_choice r = rq_choice q \<and> set (mr_fingerprints r) = set (rq_fingerprints q)"

section \<open>The environment\<close>

record migration_custody =
  mc_service :: principal
  mc_owners :: "principal list"
  mc_trusted :: "principal list"
  mc_configuration :: policy
  mc_identity :: policy
  mc_closed_directory_sddl :: string
  mc_shared_file_sddl :: string
  mc_identity_directory_sddl :: string
  mc_identity_file_sddl :: string

definition migration_custody_system :: migration_custody where
  "migration_custody_system =
     \<lparr>mc_service = System, mc_owners = [System, Administrators], mc_trusted = [System, Administrators],
      mc_configuration = policy_configuration, mc_identity = policy_system_only, mc_closed_directory_sddl = PRIVATE_DIRECTORY,
      mc_shared_file_sddl = ''O:SYD:P(A;;FA;;;SY)(A;;FA;;;BA)'', mc_identity_directory_sddl = DIRECTORY_SDDL,
      mc_identity_file_sddl = FILE_SDDL\<rparr>"

datatype point =
    CloseProductRoot
  | CloseDataRoot
  | DeleteInterruptedStaging
  | Check string
  | Read string
  | Restrict string
  | Restricted string
  | CreateStaging
  | WriteRecord
  | Stage string
  | CheckStaged
  | FirstRename
  | SecondRename
  | RecordReversal
  | RenameBack
  | ClearReversal
  | CompleteCommit
  | RestrictLegacyDirectory
  | Copy string
  | RemoveLegacyDirectory
  | RewriteRecord

datatype injected = Failure string | Crash

text \<open>
  Beside the agent's libraries: the reader of a PEM file block by block, the
  PEM writer, the two readings of a TOML text, the host's name, a SID's text
  and the reader of an RFC 3339 time, in seconds.
\<close>

record migration_env =
  me_win :: win_env
  me_libs :: agent_libs
  me_pem_iter :: "bytes \<Rightarrow> bytes option list"
  me_pem_encode :: "bytes list \<Rightarrow> string"
  me_toml_value :: "string \<Rightarrow> toml_error + toml_value"
  me_toml_config :: "string \<Rightarrow> toml_error + agent_config"
  me_hostname :: "(string, string) result"
  me_sid_text :: "bytes \<Rightarrow> (string, string) result"
  me_rfc3339 :: "string \<Rightarrow> int option"
  me_paths :: installed_paths
  me_custody :: migration_custody
  me_now :: int
  me_wait :: duration
  me_watch :: "nat \<Rightarrow> point \<Rightarrow> (injected, unit) result"

datatype stop = StopRefused u8 string | Crashed

datatype prepared = Plain | ConsoleLayout | Committed

definition watch_at :: "migration_env \<Rightarrow> point \<Rightarrow> (injected, unit) io" where
  "watch_at e p s = (me_watch e (st_ops s) p, s)"

text \<open>A failure of an operation is an injected one's \<open>Failure\<close>.\<close>

abbreviation failing :: "(string, 'a) io \<Rightarrow> (injected, 'a) io" where
  "failing \<equiv> io_map_err Failure"

text \<open>Handling an error with a computation of its own.\<close>

definition io_catch :: "('e, 'a) io \<Rightarrow> ('e \<Rightarrow> ('f, 'a) io) \<Rightarrow> ('f, 'a) io" where
  "io_catch m h s = (case m s of (Inl e, s1) \<Rightarrow> h e s1 | (Inr x, s1) \<Rightarrow> (Inr x, s1))"

text \<open>A \<open>match\<close> on the result of a computation.\<close>

definition io_match :: "('e, 'a) io \<Rightarrow> (('e, 'a) result \<Rightarrow> ('f, 'b) io) \<Rightarrow> ('f, 'b) io" where
  "io_match m h s = (case m s of (r, s1) \<Rightarrow> h r s1)"

fun filter_io :: "('a \<Rightarrow> store \<Rightarrow> bool \<times> store) \<Rightarrow> 'a list \<Rightarrow> store \<Rightarrow> 'a list \<times> store" where
  "filter_io f [] s = ([], s)"
| "filter_io f (x # xs) s =
     (case f x s of (keep, s1) \<Rightarrow> (case filter_io f xs s1 of (ys, s2) \<Rightarrow> (if keep then x # ys else ys, s2)))"

fun any_io :: "('a \<Rightarrow> store \<Rightarrow> bool \<times> store) \<Rightarrow> 'a list \<Rightarrow> store \<Rightarrow> bool \<times> store" where
  "any_io f [] s = (False, s)"
| "any_io f (x # xs) s = (case f x s of (True, s1) \<Rightarrow> (True, s1) | (False, s1) \<Rightarrow> any_io f xs s1)"

section \<open>Refusals\<close>

definition identity_line :: "string \<Rightarrow> string" where
  "identity_line reason = enrollment_stderr_line (Persistence reason)"

definition anchor_line :: "string \<Rightarrow> string" where
  "anchor_line reason = tls_stderr_line (ClientConfig (''migration: '' @ reason))"

definition REFUSAL_READ_WAIT :: duration where "REFUSAL_READ_WAIT = secs 1"

text \<open>What a refusal before the commit adds, read from the objects.\<close>

definition with_state :: "migration_env \<Rightarrow> string \<Rightarrow> store \<Rightarrow> string \<times> store" where
  "with_state e line s =
     (let paths = me_paths e; po = mc_configuration (me_custody e); wait = min (me_wait e) REFUSAL_READ_WAIT;
          guarded = (\<lambda>(path, plain) s. if plain then has_security (me_win e) path po wait s else (False, s));
          (root_plain, s1) = is_plain_directory (me_win e) (ip_product_root paths) wait s;
          (plain, s2) = (if root_plain then is_plain_directory (me_win e) (ip_data_root paths) wait s1 else (False, s1));
          (directories, s3) = filter_io guarded [(ip_product_root paths, True), (ip_data_root paths, root_plain)] s2;
          (files, s4) = filter_io (\<lambda>name. guarded (win_join (ip_data_root paths) name, plain)) (REQUIRED @ [TEMPORARY]) s3;
          restricted = map fst directories @ files
      in (if restricted = [] then line @ ''; the console installation is in place, none of it restricted''
          else line @ ''; the console installation is in place, restricted: '' @ join '', '' restricted, s4))"

definition in_place :: "migration_env \<Rightarrow> u8 \<Rightarrow> string \<Rightarrow> (stop, 'a) io" where
  "in_place e code line s = (case with_state e line s of (line', s1) \<Rightarrow> (Inl (StopRefused code line'), s1))"

definition cut_in_place :: "migration_env \<Rightarrow> u8 \<Rightarrow> (string \<Rightarrow> string) \<Rightarrow> injected \<Rightarrow> (stop, 'a) io" where
  "cut_in_place e code render c =
     (case c of Crash \<Rightarrow> io_lift (Inl Crashed) | Failure reason \<Rightarrow> in_place e code (render reason))"

definition contains :: "string \<Rightarrow> string \<Rightarrow> bool" where
  "contains t p \<longleftrightarrow> list_ex (\<lambda>i. prefix p (drop i t)) [0..<length t + 1]"

definition naming :: "string \<Rightarrow> injected \<Rightarrow> injected" where
  "naming path c =
     (case c of
        Failure reason \<Rightarrow> if contains reason path then c else Failure (path @ '': '' @ reason)
      | Crash \<Rightarrow> Crash)"

section \<open>What is there\<close>

definition is_there :: "migration_env \<Rightarrow> string \<Rightarrow> store \<Rightarrow> bool \<times> store" where
  "is_there e path s =
     (case we_fate (me_win e) (st_ops s) of
        Done \<Rightarrow> (object_at path s \<noteq> None, tick s)
      | Win32 err _ \<Rightarrow> (err \<noteq> 2 \<and> err \<noteq> 3, tick s))"

definition counts :: "migration_env \<Rightarrow> string \<Rightarrow> store \<Rightarrow> bool \<times> store" where
  "counts e path s =
     (case check_if_exists_within (me_win e) path Directory (mc_configuration (me_custody e)) (me_wait e) s of
        (r, s1) \<Rightarrow> (r = Inr True, s1))"

definition staged_record_path :: "migration_env \<Rightarrow> string" where
  "staged_record_path e = win_join (staging (me_paths e)) RECORD"

definition record_from_slice :: "migration_env \<Rightarrow> bytes \<Rightarrow> migration_record option" where
  "record_from_slice e bs =
     (case from_utf8 bs of
        None \<Rightarrow> None
      | Some t \<Rightarrow> (case lb_json_parse (me_libs e) t of Inl _ \<Rightarrow> None | Inr j \<Rightarrow> read_record j))"

definition staged_record :: "migration_env \<Rightarrow> (string, migration_record option) io" where
  "staged_record e s =
     (case read_checked_within (me_win e) (staged_record_path e) (mc_configuration (me_custody e)) (me_wait e) s of
        (Inr (Some bs), s1) \<Rightarrow> (Inr (record_from_slice e bs), s1)
      | (Inr None, s1) \<Rightarrow> (Inr None, s1)
      | (Inl (UnreadRefused _), s1) \<Rightarrow> (Inr None, s1)
      | (Inl (Unreadable reason), s1) \<Rightarrow>
          (Inl (''the migration's record cannot be read: '' @ reason @ ''; nothing was changed''), s1))"

definition data_root_record :: "migration_env \<Rightarrow> (stop, migration_record option) io" where
  "data_root_record e =
     (let path = record_path (me_paths e);
          invalid = (\<lambda>reason. StopRefused 2 (''cg-agent: invalid config '' @ path @ '': '' @ reason))
      in io_bind (io_map_err (invalid \<circ> unread_reason)
             (read_checked_within (me_win e) path (mc_configuration (me_custody e)) (me_wait e))) (\<lambda>bs.
           io_lift (case bs of
             None \<Rightarrow> Inr None
           | Some bs \<Rightarrow> map_sum id Some (ok_or (invalid ''the record does not parse'') (record_from_slice e bs)))))"

definition NOT_THE_RECORDED :: string where
  "NOT_THE_RECORDED = ''they are not the ones the migration in progress recorded''"

definition check_recorded :: "request option \<Rightarrow> migration_record \<Rightarrow> (stop, unit) result" where
  "check_recorded request record =
     (case request of
        Some q \<Rightarrow> guard (asks_for record q) (StopRefused 2 (invalid_arguments NOT_THE_RECORDED))
      | None \<Rightarrow> Inr ())"

definition check_data_directories :: "migration_env \<Rightarrow> bool \<Rightarrow> (stop, unit) io" where
  "check_data_directories e console =
     (let po = \<lparr>po_owners = mc_owners (me_custody e), po_allowed = po_allowed (mc_configuration (me_custody e)), po_protected = False\<rparr>
      in io_each (\<lambda>directory.
           io_bind (io_map_err (\<lambda>reason. StopRefused EXIT_SERVICE_LOG
                      (stderr_service_log (if console then reason @ ''; '' @ DEFAULT_REFUSAL else reason)))
                      (check_if_exists_within (me_win e) directory Directory po (me_wait e)))
             (\<lambda>_. io_lift (Inr ())))
           [ip_product_root (me_paths e), ip_data_root (me_paths e)])"

definition other_combination :: "migration_env \<Rightarrow> stop" where
  "other_combination e = StopRefused 5 (identity_line
     (ip_data_root (me_paths e) @ '', '' @ staging (me_paths e) @ '' and '' @ legacy (me_paths e)
      @ '' are in no state a migration leaves; nothing was changed''))"

definition plain :: "migration_env \<Rightarrow> request option \<Rightarrow> (stop, prepared) io" where
  "plain e request =
     io_bind (io_lift (guard (request = None) (StopRefused 2
               (invalid_arguments ''this host is neither a console layout nor a migration in progress'')))) (\<lambda>_.
     io_bind (check_data_directories e False) (\<lambda>_.
     io_bind (data_root_record e) (\<lambda>_. io_lift (Inr Plain))))"

definition committed :: "migration_env \<Rightarrow> request option \<Rightarrow> (stop, prepared) io" where
  "committed e request =
     io_bind (check_data_directories e False) (\<lambda>_.
     io_bind (data_root_record e) (\<lambda>record.
     io_bind (io_lift (ok_or (other_combination e) record)) (\<lambda>record.
     io_bind (io_lift (check_recorded request record)) (\<lambda>_. io_lift (Inr Committed)))))"

definition both_directories :: "migration_env \<Rightarrow> string \<Rightarrow> stop" where
  "both_directories e reason = StopRefused 5 (identity_line
     (''a migration stopped between its renames, at '' @ staging (me_paths e) @ '' and '' @ legacy (me_paths e) @ '': '' @ reason))"

text \<open>\<open>Path::with_file_name\<close>: the last component replaced.\<close>

definition with_file_name :: "string \<Rightarrow> string \<Rightarrow> string" where
  "with_file_name path name = rev (dropWhile (\<lambda>c. \<not> separator c) (rev path)) @ name"

definition rewrite :: "migration_env \<Rightarrow> string \<Rightarrow> migration_record \<Rightarrow> (string, unit) io" where
  "rewrite e path record =
     io_bind (io_lift (map_err (\<lambda>err. ''write '' @ path @ '': '' @ err) (lb_json_print (me_libs e) (record_json record)))) (\<lambda>text.
       bounded (me_win e) (me_wait e) path
         (replace_keeping_security (me_win e) path (with_file_name path RECORD_TEMPORARY) (as_bytes text)
            (mc_configuration (me_custody e))))"

text \<open>The legacy directory renamed back, and the mark of the reversal cleared.\<close>

definition reverse :: "migration_env \<Rightarrow> migration_record \<Rightarrow> string \<Rightarrow> (stop, 'a) io" where
  "reverse e record cause =
     (let paths = me_paths e
      in io_match (io_bind (watch_at e RenameBack)
             (\<lambda>_. failing (custody_rename (me_win e) (legacy paths) (ip_data_root paths) (me_wait e)))) (\<lambda>back.
           case back of
             Inl Crash \<Rightarrow> io_lift (Inl Crashed)
           | Inl (Failure reason) \<Rightarrow>
               io_lift (Inl (StopRefused 5 (identity_line (cause @ '', and renaming '' @ legacy paths @ '' back failed ('' @ reason
                 @ ''): the data root is at that name, and the next start, with or without arguments, puts it back''))))
           | Inr _ \<Rightarrow>
               io_match (io_bind (watch_at e ClearReversal)
                   (\<lambda>_. failing (rewrite e (staged_record_path e) (record\<lparr>mr_reversal_pending := False\<rparr>)))) (\<lambda>cleared.
                 if cleared = Inl Crash then io_lift (Inl Crashed)
                 else in_place e 5 (identity_line (cause @ ''; the commit was reversed'')))))"

section \<open>The route: closing the directories\<close>

definition WRITE_ACCESS :: u32 where
  "WRITE_ACCESS = 0x40000 OR 0x80000 OR 0x10000000"

fun check_trusted :: "migration_env \<Rightarrow> string \<Rightarrow> ace list \<Rightarrow> (string, unit) result" where
  "check_trusted e path [] = Inr ()"
| "check_trusted e path (a # aces) =
     (if \<not> list_ex (\<lambda>p. principal_is (me_win e) p (ace_sid a)) (mc_trusted (me_custody e)) \<and> ace_mask a AND WRITE_ACCESS \<noteq> 0
      then Inl (path @ squote @ ''s DACL lets another account change it or take its ownership; '' @ REPAIR_OWNER)
      else check_trusted e path aces)"

definition check_closable :: "migration_env \<Rightarrow> descriptor \<Rightarrow> string \<Rightarrow> (string, unit) result" where
  "check_closable e d path =
     and_then (descriptor_owned_by (me_win e) d (mc_owners (me_custody e))) (\<lambda>owned.
     and_then (guard owned (path @ '' is owned by another account; '' @ REPAIR_OWNER)) (\<lambda>_.
     and_then (map_err (\<lambda>reason. reason @ ''; '' @ REPAIR_OWNER) (allow_entries d path)) (\<lambda>aces.
     and_then (ok_or (path @ '' has no DACL; '' @ REPAIR_OWNER) aces) (\<lambda>aces.
       check_trusted e path aces))))"

definition close :: "migration_env \<Rightarrow> string \<Rightarrow> point \<Rightarrow> (injected, unit) io" where
  "close e path p =
     io_bind (watch_at e p) (\<lambda>_. failing (
     io_bind (open_waiting (me_win e) path (me_wait e)) (\<lambda>handle.
     io_bind (check_shape (me_win e) handle path Directory) (\<lambda>_.
     io_bind (security_of (me_win e) handle path) (\<lambda>d.
     io_bind (io_lift (check_closable e d path)) (\<lambda>_.
     io_bind (set_security (me_win e) handle path (mc_closed_directory_sddl (me_custody e)) (me_wait e)) (\<lambda>_.
       io_lift (Inr ()))))))))"

definition close_directories :: "migration_env \<Rightarrow> (stop, unit) io" where
  "close_directories e =
     io_each (\<lambda>(path, p). io_catch (close e path p) (\<lambda>c. cut_in_place e EXIT_SERVICE_LOG stderr_service_log (naming path c)))
       [(ip_product_root (me_paths e), CloseProductRoot), (ip_data_root (me_paths e), CloseDataRoot)]"

text \<open>\<open>remove_dir_all\<close>: a failure may have deleted some of what the directory holds.\<close>

definition remove_some :: "nat \<Rightarrow> string \<Rightarrow> wobject list \<Rightarrow> wobject list" where
  "remove_some n dir obs = filter (\<lambda>x. x \<notin> set (take n (filter (\<lambda>x. under dir (ob_path x)) obs))) obs"

definition fs_remove_dir_all :: "win_env \<Rightarrow> string \<Rightarrow> (string, unit) io" where
  "fs_remove_dir_all env path s =
     (if object_at path s = None then (Inl (we_io_text env 2), tick s)
      else win_call env (we_io_text env)
             (case we_fate env (st_ops s) of Done \<Rightarrow> remove_tree path | Win32 _ _ \<Rightarrow> remove_some (we_written env (st_ops s)) path) s)"

definition delete_interrupted_staging :: "migration_env \<Rightarrow> (injected, unit) io" where
  "delete_interrupted_staging e =
     (let dir = staging (me_paths e)
      in io_bind (io_map_err (naming dir) (watch_at e DeleteInterruptedStaging)) (\<lambda>_.
           failing (bounded (me_win e) (me_wait e) dir
             (io_map_err (\<lambda>err. ''delete '' @ dir @ '': '' @ err) (fs_remove_dir_all (me_win e) dir)))))"

section \<open>The route: what is there\<close>

datatype migration_attempt = Fresh | Interrupted | Continued migration_record

fun recorded :: "migration_attempt \<Rightarrow> migration_record option" where
  "recorded (Continued record) = Some record"
| "recorded _ = None"

record checked =
  ck_files :: "(string \<times> file_id) list"
  ck_enrolling_account :: "bytes option"

definition known_name :: "string \<Rightarrow> string option" where
  "known_name entry = find (\<lambda>name. eq_ignore_ascii_case name entry) (REQUIRED @ [TEMPORARY])"

definition is_not_the_agents :: "string \<Rightarrow> string \<Rightarrow> string" where
  "is_not_the_agents dir entry = dir @ '' holds '' @ entry @ '', which is not the agent's; '' @ REPAIR_ENTRY"

fun check_root_names :: "migration_env \<Rightarrow> bool \<Rightarrow> string list \<Rightarrow> string list \<Rightarrow> (string, unit) result" where
  "check_root_names e staged seen [] = Inr ()"
| "check_root_names e staged seen (entry # rest) =
     (let accepted = eq_ignore_ascii_case entry (last_component (ip_data_root (me_paths e)))
            \<or> (staged \<and> eq_ignore_ascii_case entry (last_component (staging (me_paths e))));
          lower = map ascii_lower entry
      in if \<not> accepted \<or> lower \<in> set seen then Inl (is_not_the_agents (ip_product_root (me_paths e)) entry)
         else check_root_names e staged (lower # seen) rest)"

definition check_root_entries :: "migration_env \<Rightarrow> bool \<Rightarrow> (string, unit) io" where
  "check_root_entries e staged =
     io_bind (custody_entries (me_win e) (ip_product_root (me_paths e)) (me_wait e)) (\<lambda>names. io_lift (check_root_names e staged [] names))"

fun known_names :: "migration_env \<Rightarrow> string list \<Rightarrow> string list \<Rightarrow> (string, string list) result" where
  "known_names e names [] = Inr names"
| "known_names e names (entry # rest) =
     (case known_name entry of
        Some name \<Rightarrow>
          if name \<in> set names then Inl (is_not_the_agents (ip_data_root (me_paths e)) entry)
          else known_names e (names @ [name]) rest
      | None \<Rightarrow> Inl (is_not_the_agents (ip_data_root (me_paths e)) entry))"

definition data_root_names :: "migration_env \<Rightarrow> (string, string list) io" where
  "data_root_names e =
     io_bind (custody_entries (me_win e) (ip_data_root (me_paths e)) (me_wait e)) (\<lambda>names. io_lift (known_names e [] names))"

definition missing_line :: "migration_env \<Rightarrow> string \<Rightarrow> string" where
  "missing_line e name = name @ '' is missing from '' @ ip_data_root (me_paths e) @ ''; '' @ REPAIR_ANEW"

text \<open>The SIDs besides the service's that an identity file allows, of which there is at most one.\<close>

fun others_of :: "migration_env \<Rightarrow> ace list \<Rightarrow> bool \<times> bool \<times> bytes list \<Rightarrow> bool \<times> bool \<times> bytes list" where
  "others_of e [] found = found"
| "others_of e (a # rest) (service, administrators, others) =
     (if principal_is (me_win e) (mc_service (me_custody e)) (ace_sid a) then others_of e rest (True, administrators, others)
      else if principal_is (me_win e) Administrators (ace_sid a) then others_of e rest (service, True, others)
      else if ace_sid a \<in> set others then others_of e rest (service, administrators, others)
      else others_of e rest (service, administrators, others @ [ace_sid a]))"

definition check_identity_dacl :: "migration_env \<Rightarrow> descriptor \<Rightarrow> string \<Rightarrow> (string, bytes option) result" where
  "check_identity_dacl e d path =
     and_then (allow_entries d path) (\<lambda>dacl.
     and_then (ok_or (path @ '' has no DACL; '' @ REPAIR_ANEW) dacl) (\<lambda>aces.
       case others_of e aces (False, False, []) of
         (service, administrators, others) \<Rightarrow>
           if \<not> service \<or> 1 < length others \<or> (administrators \<and> others \<noteq> [])
           then Inl (path @ squote @ ''s DACL allows more than the service and one account; '' @ REPAIR_ANEW)
           else Inr (if others = [] then None else Some (last others))))"

definition check_file :: "migration_env \<Rightarrow> string \<Rightarrow> string \<Rightarrow> (string, file_id \<times> bytes option) io" where
  "check_file e path name =
     (let repair = (\<lambda>other. if name = TEMPORARY then REPAIR_TEMPORARY else other)
      in io_bind (open_waiting (me_win e) path (me_wait e)) (\<lambda>handle.
         io_bind (file_information (me_win e) handle path) (\<lambda>info.
         io_bind (io_lift (guard (fi_attributes info AND (FILE_ATTRIBUTE_REPARSE_POINT OR FILE_ATTRIBUTE_DIRECTORY) = 0)
                    (path @ '' is not a regular file; '' @ repair REPAIR_ENTRY))) (\<lambda>_.
         io_bind (io_lift (guard (fi_links info = 1) (path @ '' is hard-linked; '' @ repair REPAIR_LINK))) (\<lambda>_.
         io_bind (security_of (me_win e) handle path) (\<lambda>d.
         io_bind (io_lift (descriptor_owned_by (me_win e) d (mc_owners (me_custody e)))) (\<lambda>owned.
         io_bind (io_lift (guard owned (path @ '' is owned by another account; '' @ repair REPAIR_OWNER))) (\<lambda>_.
           if name \<notin> set IDENTITY_FILES then io_lift (Inr (file_id_of info, None))
           else io_lift (map_sum id (Pair (file_id_of info)) (check_identity_dacl e d path))))))))))"

fun check_each :: "migration_env \<Rightarrow> string list \<Rightarrow> checked \<Rightarrow> (stop, checked) io" where
  "check_each e [] found = io_lift (Inr found)"
| "check_each e (name # names) found =
     (let path = win_join (ip_data_root (me_paths e)) name
      in io_bind (io_catch (watch_at e (Check name)) (\<lambda>c. cut_in_place e 5 identity_line (naming path c))) (\<lambda>_.
         io_bind (io_catch (check_file e path name) (\<lambda>reason. in_place e 5 (identity_line reason))) (\<lambda>(i, others).
           let files = ck_files found @ [(name, i)]
           in case others of
                None \<Rightarrow> check_each e names (found\<lparr>ck_files := files\<rparr>)
              | Some other \<Rightarrow>
                  if ck_enrolling_account found \<noteq> None \<and> ck_enrolling_account found \<noteq> Some other
                  then in_place e 5 (identity_line (path @ '' allows another account than the other identity files; '' @ REPAIR_ANEW))
                  else check_each e names (found\<lparr>ck_files := files, ck_enrolling_account := Some other\<rparr>))))"

definition position :: "string \<Rightarrow> nat" where
  "position name = length (takeWhile (\<lambda>n. n \<noteq> name) REQUIRED)"

definition check_case :: "migration_env \<Rightarrow> (string, unit) io" where
  "check_case e =
     (let dir = ip_data_root (me_paths e)
      in io_bind (open_waiting (me_win e) dir (me_wait e)) (\<lambda>handle.
         io_bind (is_case_sensitive (me_win e) handle dir) (\<lambda>sensitive.
           io_lift (guard (\<not> sensitive) (dir @ '' has case-sensitive lookup on; repair: an administrator turns it off'')))))"

definition required_names :: "migration_env \<Rightarrow> string list \<Rightarrow> (string, unit) result" where
  "required_names e names =
     (case find (\<lambda>name. name \<notin> set names) REQUIRED of None \<Rightarrow> Inr () | Some name \<Rightarrow> Inl (missing_line e name))"

definition check_what_is_there :: "migration_env \<Rightarrow> migration_attempt \<Rightarrow> (stop, checked) io" where
  "check_what_is_there e attempt =
     io_bind (io_catch
       (io_bind (check_root_entries e (recorded attempt \<noteq> None)) (\<lambda>_.
        io_bind (check_case e) (\<lambda>_.
        io_bind (data_root_names e) (\<lambda>names.
        io_bind (io_lift (required_names e names)) (\<lambda>_. io_lift (Inr (sort_key position names)))))))
       (\<lambda>reason. in_place e 5 (identity_line reason))) (\<lambda>names.
     check_each e names \<lparr>ck_files = [], ck_enrolling_account = None\<rparr>)"

section \<open>The route: reading\<close>

record verified =
  vf_config_text :: string
  vf_certificates :: "bytes list"
  vf_certificate :: bytes
  vf_sealed_key :: bytes
  vf_identity :: bytes
  vf_agent_id :: string
  vf_key_fingerprint :: string

definition is_console_path :: "string \<Rightarrow> string \<Rightarrow> bool" where
  "is_console_path configured fixed = eq_ignore_ascii_case fixed (map (\<lambda>c. if c = CHR ''/'' then bslash else c) configured)"

definition check_legacy_config :: "migration_env \<Rightarrow> bytes \<Rightarrow> (string, string) result" where
  "check_legacy_config e bs =
     (let path = ip_config (me_paths e); invalid = (\<lambda>reason. ''cg-agent: invalid config '' @ path @ '': '' @ reason)
      in and_then (ok_or (invalid ''the file is not UTF-8'') (from_utf8 bs)) (\<lambda>text.
         and_then (map_err (config_error_line path) (load_from_str (me_toml_value e) (me_toml_config e) text)) (\<lambda>config.
         and_then (map_err (\<lambda>_. invalid ''the file is not valid TOML'') (me_toml_value e text)) (\<lambda>document.
         and_then (guard (toml_get ''setup'' document = None) (invalid ''a console configuration holds no setup table'')) (\<lambda>_.
         and_then (ok_or (invalid ''the migration requires [enrollment]'') (ac_enrollment config)) (\<lambda>enr.
         and_then (case find (\<lambda>(key, configured, name). \<not> is_console_path configured (win_join (ip_data_root (me_paths e)) name))
                     [(''server.trust_anchor_path'', case sc_trust_anchor_path (ac_server config) of Some a \<Rightarrow> a | None \<Rightarrow> [], ANCHOR),
                      (''enrollment.cert_path'', ec_cert_path enr, CERT), (''enrollment.key_path'', ec_key_path enr, KEY),
                      (''enrollment.identity_path'', ec_identity_path enr, IDENTITY)] of
                     None \<Rightarrow> Inr ()
                   | Some (key, _, _) \<Rightarrow> Inl (invalid (key @ '' is not the console layout's path in the data root''))) (\<lambda>_.
         and_then (guard (case sc_heartbeat_url (ac_server config) of Some url \<Rightarrow> prefix ''https://'' url | None \<Rightarrow> False)
                     (invalid ''the migration requires an https server.heartbeat_url: add it before migrating'')) (\<lambda>_.
           Inr text))))))))"

definition fingerprint :: "key_lib \<Rightarrow> bytes \<Rightarrow> string" where
  "fingerprint lib cert = ''sha256:'' @ concat (map byte_hex (kl_sha256 lib cert))"

fun distinct_certificates :: "bytes list \<Rightarrow> bytes option list \<Rightarrow> (string, bytes list) result" where
  "distinct_certificates found [] = Inr found"
| "distinct_certificates found (None # rest) = Inl ''server-ca.pem cannot be read''"
| "distinct_certificates found (Some cert # rest) =
     distinct_certificates (if cert \<in> set found then found else found @ [cert]) rest"

definition check_anchor :: "migration_env \<Rightarrow> bytes \<Rightarrow> string list \<Rightarrow> (string, bytes list) result" where
  "check_anchor e bs expected =
     and_then (distinct_certificates [] (me_pem_iter e bs)) (\<lambda>certificates.
     and_then (guard (set (map (fingerprint (lb_keys (me_libs e))) certificates) = set expected)
                 ''the certificates of server-ca.pem are not exactly those of the fingerprints given'') (\<lambda>_.
       Inr certificates))"

definition check_identity :: "migration_env \<Rightarrow> migration_record option \<Rightarrow> bytes \<Rightarrow> bytes \<Rightarrow> bytes \<Rightarrow> (string, string \<times> string) result" where
  "check_identity e record sealed certificate identity =
     (let libs = me_libs e; anew = (\<lambda>reason. reason @ ''; '' @ REPAIR_ANEW)
      in and_then (map_err (\<lambda>_. anew (IDENTITY @ '' does not parse''))
             (and_then (ok_or [] (from_utf8 identity)) (persisted_from_str libs))) (\<lambda>persisted.
         and_then (map_err (\<lambda>_. anew (KEY @ '' does not unseal with this machine's key'')) (ss_unseal (lb_store libs) sealed)) (\<lambda>secret.
         and_then (guard (length secret = KEY_LEN) (anew (KEY @ '' does not hold an Ed25519 seed''))) (\<lambda>_.
         let public_key = public_key_bytes (from_secret_bytes (lb_keys libs) secret);
             key_fingerprint = pubkey_fingerprint (lb_keys libs) public_key
         in
         and_then (guard (key_fingerprint = pi_agent_pubkey_fingerprint persisted) (anew (KEY @ '' is not the key '' @ IDENTITY @ '' names''))) (\<lambda>_.
         and_then (guard (case record of None \<Rightarrow> True
                          | Some r \<Rightarrow> mr_key_fingerprint r = key_fingerprint \<and> mr_agent_id r = pi_agent_id persisted)
                     (anew ''the identity is not the one the migration recorded'')) (\<lambda>_.
         and_then (ok_or (anew (CERT @ '' is not a PEM document'')) (from_utf8 certificate)) (\<lambda>text.
         and_then (map_err (\<lambda>err. anew (CERT @ '': '' @ err)) (certificates_in (lb_certs libs) text)) (\<lambda>certificates.
         and_then (guard (length certificates = 1) (anew (CERT @ '' does not hold one certificate''))) (\<lambda>_.
         and_then (map_err (\<lambda>err. anew (CERT @ '': '' @ err)) (check_consistency libs text public_key (pi_agent_id persisted))) (\<lambda>_.
         and_then (ok_or (anew (IDENTITY @ squote @ ''s expires_at does not parse'')) (me_rfc3339 e (pi_expires_at persisted))) (\<lambda>expires_at.
         and_then (guard (me_now e < expires_at) (anew ''the identity has expired'')) (\<lambda>_.
           Inr (pi_agent_id persisted, key_fingerprint)))))))))))))"

fun read_files :: "migration_env \<Rightarrow> (string \<times> file_id) list \<Rightarrow> (stop, (string \<times> bytes) list) io" where
  "read_files e [] = io_lift (Inr [])"
| "read_files e ((name, i) # files) =
     (if name = TEMPORARY then read_files e files
      else
        let path = win_join (ip_data_root (me_paths e)) name
        in io_bind (io_catch (watch_at e (Read name)) (\<lambda>c. cut_in_place e 5 identity_line (naming path c))) (\<lambda>_.
           io_bind (io_catch (read_unshared (me_win e) path READ_LIMIT (me_wait e)) (\<lambda>reason. in_place e 5 (identity_line reason))) (\<lambda>(bs, read_id).
             if read_id \<noteq> i then in_place e 5 (identity_line (path @ '' is not the file that was checked''))
             else io_bind (read_files e files) (\<lambda>contents. io_lift (Inr ((name, bs) # contents))))))"

definition taken :: "(string \<times> bytes) list \<Rightarrow> string \<Rightarrow> bytes" where
  "taken contents name = (case map_of contents name of None \<Rightarrow> [] | Some bs \<Rightarrow> bs)"

definition read_each_file :: "migration_env \<Rightarrow> request \<Rightarrow> migration_attempt \<Rightarrow> checked \<Rightarrow> (stop, verified) io" where
  "read_each_file e request attempt found =
     io_bind (read_files e (ck_files found)) (\<lambda>contents.
     io_bind (io_catch (io_lift (check_legacy_config e (taken contents CONFIG))) (in_place e 2)) (\<lambda>text.
     io_bind (io_catch (io_lift (check_anchor e (taken contents ANCHOR) (rq_fingerprints request)))
                (\<lambda>reason. in_place e 6 (anchor_line reason))) (\<lambda>certificates.
     io_bind (io_catch (io_lift (check_identity e (recorded attempt) (taken contents KEY) (taken contents CERT) (taken contents IDENTITY)))
                (\<lambda>reason. in_place e 5 (identity_line reason))) (\<lambda>(agent_id, key_fingerprint).
       io_lift (Inr \<lparr>vf_config_text = text, vf_certificates = certificates, vf_certificate = taken contents CERT,
         vf_sealed_key = taken contents KEY, vf_identity = taken contents IDENTITY, vf_agent_id = agent_id,
         vf_key_fingerprint = key_fingerprint\<rparr>)))))"

section \<open>The route: restricting and staging\<close>

definition check_links :: "migration_env \<Rightarrow> wobject \<Rightarrow> string \<Rightarrow> (string, file_id) io" where
  "check_links e handle path =
     io_bind (file_information (me_win e) handle path) (\<lambda>info.
       io_lift (and_then (guard (fi_links info = 1) (path @ '' is hard-linked; '' @ REPAIR_LINK)) (\<lambda>_. Inr (file_id_of info))))"

definition restrict_file :: "migration_env \<Rightarrow> string \<Rightarrow> file_id \<Rightarrow> (injected, unit) io" where
  "restrict_file e name i =
     (let path = win_join (ip_data_root (me_paths e)) name
      in io_bind (watch_at e (Restrict name)) (\<lambda>_.
         io_bind (failing (
           io_bind (open_waiting (me_win e) path (me_wait e)) (\<lambda>handle.
           io_bind (check_links e handle path) (\<lambda>found.
           io_bind (io_lift (guard (found = i) (path @ '' is not the file that was checked''))) (\<lambda>_.
             set_security (me_win e) handle path (mc_shared_file_sddl (me_custody e)) (me_wait e)))))) (\<lambda>handle.
         io_bind (watch_at e (Restricted name)) (\<lambda>_.
         io_bind (failing (check_links e handle path)) (\<lambda>_. io_lift (Inr ()))))))"

definition restrict_files :: "migration_env \<Rightarrow> checked \<Rightarrow> (stop, unit) io" where
  "restrict_files e found =
     io_each (\<lambda>(name, i). io_catch (restrict_file e name i)
         (\<lambda>c. cut_in_place e 5 identity_line (naming (win_join (ip_data_root (me_paths e)) name) c)))
       (ck_files found)"

definition fs_is_dir :: "win_env \<Rightarrow> string \<Rightarrow> (string, bool) io" where
  "fs_is_dir env path =
     io_bind (win_query env (we_io_text env) (\<lambda>s. object_at path s)) (\<lambda>ob.
       io_lift (map_sum id (\<lambda>ob. fi_attributes (ob_info ob) AND FILE_ATTRIBUTE_DIRECTORY \<noteq> 0
           \<and> fi_attributes (ob_info ob) AND FILE_ATTRIBUTE_REPARSE_POINT = 0) (ok_or (we_io_text env 2) ob)))"

definition clear_entry :: "migration_env \<Rightarrow> string \<Rightarrow> (string, unit) io" where
  "clear_entry e path =
     bounded (me_win e) (me_wait e) path
       (io_bind (io_map_err (\<lambda>err. ''inspect '' @ path @ '': '' @ err) (fs_is_dir (me_win e) path)) (\<lambda>is_dir.
          io_map_err (\<lambda>err. ''delete '' @ path @ '': '' @ err)
            (if is_dir then fs_remove_dir_all (me_win e) path
             else io_map_err (we_io_text (me_win e)) (delete_file_call (me_win e) path))))"

definition clear_staged :: "migration_env \<Rightarrow> (string, unit) io" where
  "clear_staged e =
     (let dir = staging (me_paths e)
      in io_bind (custody_entries (me_win e) dir (me_wait e)) (\<lambda>names.
           io_each (\<lambda>entry. clear_entry e (win_join dir entry)) (filter (\<lambda>entry. \<not> eq_ignore_ascii_case entry RECORD) names)))"

text \<open>A table's key set in place, or added.\<close>

definition table_insert :: "string \<Rightarrow> toml_value \<Rightarrow> (string \<times> toml_value) list \<Rightarrow> (string \<times> toml_value) list" where
  "table_insert k v table = (if k \<in> set (map fst table) then map (\<lambda>(k', x). (k', if k' = k then v else x)) table else table @ [(k, v)])"

definition with_table ::
    "string \<Rightarrow> ((string \<times> toml_value) list \<Rightarrow> (string \<times> toml_value) list) \<Rightarrow> toml_value \<Rightarrow> (string, toml_value) result" where
  "with_table name f document =
     (case toml_get name document of
        Some (TomlTable table) \<Rightarrow> Inr (update_key name (\<lambda>_. TomlTable (f table)) document)
      | _ \<Rightarrow> Inl (''the legacy configuration lacks ['' @ name @ '']''))"

definition generated_config :: "migration_env \<Rightarrow> string \<Rightarrow> (string, string) result" where
  "generated_config e legacy_text =
     (let paths = me_paths e
      in and_then (map_err (\<lambda>_. ''the legacy configuration is not valid TOML'') (me_toml_value e legacy_text)) (\<lambda>document.
         and_then (me_hostname e) (\<lambda>hostname.
         and_then (with_table ''server'' (table_insert ''trust_anchor_path'' (TomlString (ip_trust_anchor paths))) document) (\<lambda>document.
         and_then (with_table ''agent'' (table_insert ''hostname'' (TomlString hostname)) document) (\<lambda>document.
         and_then (with_table ''enrollment'' (\<lambda>table.
             table_insert ''identity_path'' (TomlString (ip_identity paths))
               (table_insert ''key_path'' (TomlString (ip_key paths))
                 (table_insert ''cert_path'' (TomlString (ip_cert paths)) (filter (\<lambda>(k, _). k \<noteq> ''token'') table)))) document) (\<lambda>document.
           map_err (\<lambda>_. ''the configuration cannot be written'') (lb_toml_print (me_libs e) document)))))))"

definition staged_enrollment :: "migration_env \<Rightarrow> enrollment_config \<Rightarrow> enrollment_config" where
  "staged_enrollment e enr =
     (let dir = win_join (staging (me_paths e)) IDENTITY_DIRECTORY
      in enr\<lparr>ec_cert_path := win_join dir CERT, ec_key_path := win_join dir KEY, ec_identity_path := win_join dir IDENTITY\<rparr>)"

definition read_staged :: "migration_env \<Rightarrow> string \<Rightarrow> (string, bytes) io" where
  "read_staged e path =
     io_bind (read_checked (me_win e) path (mc_configuration (me_custody e))) (\<lambda>bs.
       io_lift (ok_or (path @ '' does not exist'') bs))"

definition check_staged :: "migration_env \<Rightarrow> migration_record \<Rightarrow> (string, unit) io" where
  "check_staged e record =
     (let dir = staging (me_paths e); configuration = mc_configuration (me_custody e); win = me_win e;
          identity_dir = win_join dir IDENTITY_DIRECTORY; config_path = win_join dir CONFIG
      in io_bind (custody_check win dir Directory configuration) (\<lambda>_.
         io_bind (custody_check win (staged_record_path e) File configuration) (\<lambda>_.
         io_bind (read_staged e config_path) (\<lambda>bs.
         io_bind (io_lift (ok_or (config_path @ '' is not UTF-8'') (from_utf8 bs))) (\<lambda>text.
         io_bind (io_lift (map_err (config_error_line config_path) (load_from_str (me_toml_value e) (me_toml_config e) text))) (\<lambda>config.
         io_bind (io_lift (check_installed_config (me_paths e) config_path config)) (\<lambda>_.
         io_bind (read_staged e (win_join dir ANCHOR)) (\<lambda>anchor.
         io_bind (io_lift (check_anchor e anchor (mr_fingerprints record))) (\<lambda>_.
         io_bind (custody_check win identity_dir Directory (mc_identity (me_custody e))) (\<lambda>_.
         io_bind (io_each (\<lambda>name. custody_check win (win_join identity_dir name) File (mc_identity (me_custody e))) IDENTITY_FILES) (\<lambda>_.
         io_bind (io_lift (ok_or ''no [enrollment]'' (ac_enrollment config))) (\<lambda>enr.
         io_bind (io_map_err enrollment_error_text
                    (installed_load win (me_libs e) (config\<lparr>ac_enrollment := Some (staged_enrollment e enr)\<rparr>))) (\<lambda>identity.
           io_lift (guard (id_agent_id identity = mr_agent_id record
                \<and> pubkey_fingerprint (lb_keys (me_libs e)) (public_key_bytes (id_keypair identity)) = mr_key_fingerprint record)
              ''the staged identity is not the recorded one''))))))))))))))"

definition record_of ::
    "migration_env \<Rightarrow> request \<Rightarrow> migration_attempt \<Rightarrow> checked \<Rightarrow> verified \<Rightarrow> (string, migration_record) result" where
  "record_of e request attempt found v =
     and_then (case ck_enrolling_account found of
                 Some sid \<Rightarrow> map_sum id Some (me_sid_text e sid)
               | None \<Rightarrow> Inr (Option.bind (recorded attempt) mr_enrolling_account)) (\<lambda>account.
       Inr \<lparr>mr_choice = rq_choice request, mr_fingerprints = rq_fingerprints request, mr_agent_id = vf_agent_id v,
         mr_key_fingerprint = vf_key_fingerprint v, mr_enrolling_account = account,
         mr_files = sort_key fst (map (\<lambda>(name, i). (name, file_id_text i)) (ck_files found)),
         mr_reversal_pending = False, mr_copies_not_reached = []\<rparr>)"

text \<open>The record, rewritten over the one of the interrupted start or created with its directory.\<close>

definition write_record_first :: "migration_env \<Rightarrow> migration_attempt \<Rightarrow> migration_record \<Rightarrow> (injected, unit) io" where
  "write_record_first e attempt record =
     (if recorded attempt \<noteq> None
      then io_bind (watch_at e WriteRecord) (\<lambda>_. failing (
           io_bind (rewrite e (staged_record_path e) record) (\<lambda>_. clear_staged e)))
      else io_bind (watch_at e CreateStaging) (\<lambda>_.
           io_bind (failing (create_new_directory (me_win e) (staging (me_paths e)) (mc_closed_directory_sddl (me_custody e)))) (\<lambda>_.
           io_bind (watch_at e WriteRecord) (\<lambda>_. failing (
           io_bind (io_lift (map_err (\<lambda>err. ''write '' @ staged_record_path e @ '': '' @ err) (lb_json_print (me_libs e) (record_json record)))) (\<lambda>text.
             create_new_file (me_win e) (staged_record_path e) (mc_shared_file_sddl (me_custody e)) (as_bytes text)))))))"

definition stage_file :: "migration_env \<Rightarrow> string \<Rightarrow> string \<Rightarrow> string \<Rightarrow> bytes \<Rightarrow> (injected, unit) io" where
  "stage_file e dir name sddl bs =
     io_bind (watch_at e (Stage name)) (\<lambda>_. failing (create_new_file (me_win e) (win_join dir name) sddl bs))"

definition record_and_stage ::
    "migration_env \<Rightarrow> request \<Rightarrow> migration_attempt \<Rightarrow> checked \<Rightarrow> verified \<Rightarrow> (injected, migration_record) io" where
  "record_and_stage e request attempt found v =
     (let dir = staging (me_paths e); identity_dir = win_join dir IDENTITY_DIRECTORY; shared = mc_shared_file_sddl (me_custody e)
      in io_bind (failing (io_lift (record_of e request attempt found v))) (\<lambda>record.
         io_bind (write_record_first e attempt record) (\<lambda>_.
         io_bind (failing (io_lift (generated_config e (vf_config_text v)))) (\<lambda>config.
         io_bind (stage_file e dir CONFIG shared (as_bytes config)) (\<lambda>_.
         io_bind (stage_file e dir ANCHOR shared (as_bytes (me_pem_encode e (vf_certificates v)))) (\<lambda>_.
         io_bind (watch_at e (Stage IDENTITY_DIRECTORY)) (\<lambda>_.
         io_bind (failing (create_new_directory (me_win e) identity_dir (mc_identity_directory_sddl (me_custody e)))) (\<lambda>_.
         io_bind (io_each (\<lambda>(name, bs). stage_file e identity_dir name (mc_identity_file_sddl (me_custody e)) bs)
                    [(CERT, vf_certificate v), (KEY, vf_sealed_key v), (IDENTITY, vf_identity v)]) (\<lambda>_.
         io_bind (watch_at e CheckStaged) (\<lambda>_.
         io_bind (failing (check_staged e record)) (\<lambda>_. io_lift (Inr record))))))))))))"

section \<open>The commit\<close>

definition check_names_again :: "migration_env \<Rightarrow> checked \<Rightarrow> (string, unit) io" where
  "check_names_again e found =
     io_bind (check_root_entries e True) (\<lambda>_.
     io_bind (data_root_names e) (\<lambda>names.
     io_bind (io_lift (case find (\<lambda>name. name \<notin> fst ` set (ck_files found)) names of
                None \<Rightarrow> Inr ()
              | Some name \<Rightarrow> Inl (win_join (ip_data_root (me_paths e)) name @ '' appeared after the check; ''
                  @ (if name = TEMPORARY then REPAIR_TEMPORARY else REPAIR_ENTRY)))) (\<lambda>_.
       io_lift (required_names e names))))"

definition commit :: "migration_env \<Rightarrow> migration_record \<Rightarrow> checked \<Rightarrow> (stop, unit) io" where
  "commit e record found =
     (let paths = me_paths e; marked = record\<lparr>mr_reversal_pending := True\<rparr>
      in io_bind (io_catch
           (io_bind (watch_at e FirstRename) (\<lambda>_. failing (
            io_bind (check_names_again e found) (\<lambda>_. custody_rename (me_win e) (ip_data_root paths) (legacy paths) (me_wait e)))))
           (cut_in_place e 5 identity_line)) (\<lambda>_.
         io_match (io_bind (watch_at e SecondRename)
             (\<lambda>_. failing (custody_rename (me_win e) (staging paths) (ip_data_root paths) (me_wait e)))) (\<lambda>second.
           case second of
             Inr _ \<Rightarrow> io_lift (Inr ())
           | Inl Crash \<Rightarrow> io_lift (Inl Crashed)
           | Inl (Failure cause) \<Rightarrow>
               io_match (io_bind (watch_at e RecordReversal) (\<lambda>_. failing (rewrite e (staged_record_path e) marked))) (\<lambda>recorded.
                 case recorded of
                   Inr _ \<Rightarrow> reverse e marked (''the commit failed ('' @ cause @ '')'')
                 | Inl Crash \<Rightarrow> io_lift (Inl Crashed)
                 | Inl (Failure reason) \<Rightarrow>
                     io_lift (Inl (both_directories e (''the commit failed ('' @ cause @ ''), and its reversal could not be recorded ('' @ reason
                       @ ''); the next start completes it'')))))))"

definition route :: "migration_env \<Rightarrow> request \<Rightarrow> migration_attempt \<Rightarrow> (stop, unit) io \<Rightarrow> (stop, prepared) io" where
  "route e request attempt lock =
     io_bind (io_catch lock (\<lambda>stop. case stop of StopRefused code line \<Rightarrow> in_place e code line | Crashed \<Rightarrow> io_lift (Inl Crashed))) (\<lambda>_.
     io_bind (close_directories e) (\<lambda>_.
     io_bind (if attempt = Interrupted then io_catch (delete_interrupted_staging e) (cut_in_place e 5 identity_line) else io_lift (Inr ())) (\<lambda>_.
     io_bind (check_what_is_there e attempt) (\<lambda>found.
     io_bind (read_each_file e request attempt found) (\<lambda>v.
     io_bind (restrict_files e found) (\<lambda>_.
     io_bind (io_catch (record_and_stage e request attempt found v) (cut_in_place e 5 identity_line)) (\<lambda>record.
     io_bind (commit e record found) (\<lambda>_.
     io_bind (check_data_directories e False) (\<lambda>_. io_lift (Inr Committed))))))))))"

section \<open>A start\<close>

definition beside_a_console_layout :: "migration_env \<Rightarrow> request option \<Rightarrow> (stop, unit) io \<Rightarrow> (stop, prepared) io" where
  "beside_a_console_layout e request lock =
     io_bind (io_catch (staged_record e) (\<lambda>reason. in_place e 5 (identity_line (reason
        @ ''; if it stays so, an administrator who has checked it removes the staging directory and starts the migration again'')))) (\<lambda>record.
       case (record, request) of
         (Some r, Some q) \<Rightarrow>
           if \<not> asks_for r q then in_place e 2 (invalid_arguments NOT_THE_RECORDED)
           else route e q (Continued r) lock
       | (None, Some q) \<Rightarrow> route e q Interrupted lock
       | (Some _, None) \<Rightarrow> in_place e 5 (identity_line (''a migration was interrupted, its staging directory at '' @ staging (me_paths e)
            @ '': start the service again with the arguments it recorded''))
       | (None, None) \<Rightarrow> in_place e 5 (identity_line (''the service's creation of '' @ staging (me_paths e)
            @ '' was interrupted: start the migration again'')))"

definition between_the_renames :: "migration_env \<Rightarrow> request option \<Rightarrow> (stop, unit) io \<Rightarrow> (stop, prepared) io" where
  "between_the_renames e request lock =
     (let paths = me_paths e
      in io_bind (io_map_err (both_directories e) (staged_record e)) (\<lambda>record.
         io_bind (io_lift (ok_or (both_directories e ''its record cannot be read'') record)) (\<lambda>record.
         io_bind (io_lift (check_recorded request record)) (\<lambda>_.
         io_bind lock (\<lambda>_.
           if mr_reversal_pending record then reverse e record ''a reversal was interrupted''
           else
             io_bind (io_map_err (\<lambda>c. case c of Crash \<Rightarrow> Crashed | Failure reason \<Rightarrow> both_directories e reason)
               (io_bind (failing (check_staged e record)) (\<lambda>_.
                io_bind (watch_at e CompleteCommit) (\<lambda>_.
                  failing (custody_rename (me_win e) (staging paths) (ip_data_root paths) (me_wait e)))))) (\<lambda>_.
             io_bind (check_data_directories e False) (\<lambda>_. io_lift (Inr Committed))))))))"

definition prepare :: "migration_env \<Rightarrow> request option \<Rightarrow> (stop, unit) io \<Rightarrow> (stop, prepared) io" where
  "prepare e request lock s =
     (let paths = me_paths e;
          (data_root, s1) = is_there e (ip_data_root paths) s;
          (console, s2) = (if data_root then any_io (\<lambda>name. is_there e (win_join (ip_data_root paths) name)) IDENTITY_FILES s1 else (False, s1));
          (staged, s3) = counts e (staging paths) s2;
          (old, s4) = counts e (legacy paths) s3
      in if \<not> data_root \<and> staged \<and> old then between_the_renames e request lock s4
         else if data_root \<and> staged \<and> \<not> old \<and> console then beside_a_console_layout e request lock s4
         else if data_root \<and> \<not> staged \<and> old \<and> \<not> console then committed e request s4
         else if \<not> staged \<and> \<not> old \<and> console
         then (case request of
                 Some q \<Rightarrow> route e q Fresh lock s4
               | None \<Rightarrow> io_bind (check_data_directories e True) (\<lambda>_. io_lift (Inr ConsoleLayout)) s4)
         else if \<not> staged \<and> \<not> old then plain e request s4
         else (Inl (other_combination e), s4))"

section \<open>The old copies\<close>

record copies_report =
  cr_restricted :: "string list"
  cr_removed :: "string list"
  cr_not_reached :: "string list"
  cr_directory_removed :: bool

definition restrict_legacy_directory :: "migration_env \<Rightarrow> (injected, unit) io" where
  "restrict_legacy_directory e =
     (let path = legacy (me_paths e)
      in io_bind (watch_at e RestrictLegacyDirectory) (\<lambda>_. failing (
         io_bind (open_waiting (me_win e) path (me_wait e)) (\<lambda>handle.
         io_bind (check_shape (me_win e) handle path Directory) (\<lambda>_.
         io_bind (set_security (me_win e) handle path (mc_identity_directory_sddl (me_custody e)) (me_wait e)) (\<lambda>_. io_lift (Inr ())))))))"

definition check_copy :: "migration_env \<Rightarrow> wobject \<Rightarrow> string \<Rightarrow> string \<Rightarrow> migration_record \<Rightarrow> (string, unit) io" where
  "check_copy e handle path name record =
     io_bind (file_information (me_win e) handle path) (\<lambda>info.
     io_bind (io_lift (guard (fi_attributes info AND (FILE_ATTRIBUTE_REPARSE_POINT OR FILE_ATTRIBUTE_DIRECTORY) = 0)
                (path @ '' is not a regular file''))) (\<lambda>_.
     io_bind (io_lift (guard (Option.bind (known_name name) (map_of (mr_files record)) = Some (file_id_text (file_id_of info)))
                (path @ '' is not the file the migration checked''))) (\<lambda>_.
       io_lift (guard (fi_links info = 1) (path @ '' is hard-linked'')))))"

definition restrict_copy :: "migration_env \<Rightarrow> string \<Rightarrow> string \<Rightarrow> migration_record \<Rightarrow> (injected, unit) io" where
  "restrict_copy e path name record =
     io_bind (failing (io_lift (ok_or (path @ '' is not an object the migration checked'') (known_name name)))) (\<lambda>known.
     io_bind (watch_at e (Copy known)) (\<lambda>_. failing (
     io_bind (open_waiting (me_win e) path (me_wait e)) (\<lambda>handle.
     io_bind (check_copy e handle path name record) (\<lambda>_.
     io_bind (set_security (me_win e) handle path
                (if known \<in> set IDENTITY_FILES then mc_identity_file_sddl (me_custody e) else mc_shared_file_sddl (me_custody e)) (me_wait e)) (\<lambda>_.
       io_lift (Inr ())))))))"

definition remove_copy :: "migration_env \<Rightarrow> string \<Rightarrow> string \<Rightarrow> migration_record \<Rightarrow> (string, unit) io" where
  "remove_copy e path name record =
     io_bind (open_waiting (me_win e) path (me_wait e)) (\<lambda>handle.
     io_bind (check_copy e handle path name record) (\<lambda>_. delete_through (me_win e) handle path (me_wait e)))"

definition remove_legacy_directory :: "migration_env \<Rightarrow> (injected, unit) io" where
  "remove_legacy_directory e =
     (let path = legacy (me_paths e)
      in io_bind (watch_at e RemoveLegacyDirectory) (\<lambda>_. failing (
         io_bind (open_waiting (me_win e) path (me_wait e)) (\<lambda>handle.
         io_bind (check_shape (me_win e) handle path Directory) (\<lambda>_. delete_through (me_win e) handle path (me_wait e))))))"

abbreviation cut_short :: string where "cut_short \<equiv> ''the pass was cut short''"

definition not_reached :: "string \<Rightarrow> copies_report \<Rightarrow> copies_report" where
  "not_reached name report = report\<lparr>cr_not_reached := cr_not_reached report @ [name]\<rparr>"

fun copy_each :: "migration_env \<Rightarrow> migration_record \<Rightarrow> string list \<Rightarrow> copies_report \<Rightarrow> (string, copies_report) io" where
  "copy_each e record [] report = io_lift (Inr report)"
| "copy_each e record (name # names) report =
     (let path = win_join (legacy (me_paths e)) name
      in io_match (restrict_copy e path name record) (\<lambda>r.
           case r of
             Inl Crash \<Rightarrow> io_lift (Inl cut_short)
           | Inl (Failure reason) \<Rightarrow> copy_each e record names (not_reached name report)
           | Inr _ \<Rightarrow>
               let report = report\<lparr>cr_restricted := cr_restricted report @ [name]\<rparr>
               in if mr_choice record \<noteq> Remove then copy_each e record names report
                  else io_match (remove_copy e path name record) (\<lambda>r.
                         copy_each e record names
                           (if is_ok r then report\<lparr>cr_removed := cr_removed report @ [name]\<rparr> else not_reached name report))))"

text \<open>A step whose failure is reported and whose crash ends the pass.\<close>

definition or_not_reached :: "string \<Rightarrow> (injected, unit) io \<Rightarrow> copies_report \<Rightarrow> (string, bool \<times> copies_report) io" where
  "or_not_reached name m report =
     io_match m (\<lambda>r.
       case r of
         Inr _ \<Rightarrow> io_lift (Inr (True, report))
       | Inl Crash \<Rightarrow> io_lift (Inl cut_short)
       | Inl (Failure reason) \<Rightarrow> io_lift (Inr (False, not_reached name report)))"

definition remove_emptied :: "migration_env \<Rightarrow> migration_record \<Rightarrow> bool \<Rightarrow> copies_report \<Rightarrow> (string, copies_report) io" where
  "remove_emptied e record restricted report =
     (if restricted \<and> mr_choice record = Remove
      then io_bind (custody_entries (me_win e) (legacy (me_paths e)) (me_wait e)) (\<lambda>names.
             if names \<noteq> [] then io_lift (Inr report)
             else io_bind (or_not_reached (last_component (legacy (me_paths e))) (remove_legacy_directory e) report) (\<lambda>(gone, report).
                    io_lift (Inr (report\<lparr>cr_directory_removed := gone\<rparr>))))
      else io_lift (Inr report))"

definition rewrite_not_reached :: "migration_env \<Rightarrow> migration_record \<Rightarrow> copies_report \<Rightarrow> (string, unit) io" where
  "rewrite_not_reached e record report =
     (if mr_copies_not_reached record \<noteq> cr_not_reached report
      then best_effort (io_bind (watch_at e RewriteRecord)
             (\<lambda>_. failing (rewrite e (record_path (me_paths e)) (record\<lparr>mr_copies_not_reached := cr_not_reached report\<rparr>))))
      else io_lift (Inr ()))"

definition copies :: "migration_env \<Rightarrow> (string, copies_report) io" where
  "copies e =
     (let path = legacy (me_paths e); none = \<lparr>cr_restricted = [], cr_removed = [], cr_not_reached = [], cr_directory_removed = False\<rparr>
      in io_bind (io_map_err (\<lambda>_. ''the record cannot be read'') (data_root_record e)) (\<lambda>record.
         io_bind (io_lift (ok_or ''the data root holds no record'' record)) (\<lambda>record.
         io_bind (\<lambda>s. case counts e path s of (there, s1) \<Rightarrow> (Inr there, s1)) (\<lambda>there.
           if \<not> there then io_lift (Inr none)
           else
             io_bind (or_not_reached (last_component path) (restrict_legacy_directory e) none) (\<lambda>(restricted, report).
             io_bind (custody_entries (me_win e) path (me_wait e)) (\<lambda>names.
             io_bind (copy_each e record (sort names) report) (\<lambda>report.
             io_bind (remove_emptied e record restricted report) (\<lambda>report.
             io_bind (rewrite_not_reached e record report) (\<lambda>_. io_lift (Inr report))))))))))"

end
