(* ===== verification/Identity_Props.thy ===== *)
theory Identity_Props
  imports Identity
begin

text \<open>
  What the persistence of the identity guarantees (\<open>identity.rs\<close>): an identity
  that a start loads is the one that was enrolled, whatever interrupted the
  start that wrote it; the installed identity is under the service's custody;
  and its key is the certificate's.
\<close>

section \<open>Reading and writing files\<close>

lemma map_sum_Inr_iff: "map_sum f g r = Inr y \<longleftrightarrow> (\<exists>x. r = Inr x \<and> y = g x)"
  by (cases r) auto

lemma fs_read_file_Inr:
  assumes "fs_read_file env path s = (Inr bs, s')"
  shows "\<exists>ob. object_at path s = Some ob \<and> ob_bytes ob = bs" "st_objects s' = st_objects s"
  using assms by (auto simp: fs_read_file_def store result win_query_Inr map_sum_Inr_iff)

lemma fs_read_to_string_Inr:
  assumes "fs_read_to_string env path s = (Inr t, s')"
  shows "\<exists>ob. object_at path s = Some ob \<and> from_utf8 (ob_bytes ob) = Some t" "st_objects s' = st_objects s"
proof -
  obtain bs where "fs_read_file env path s = (Inr bs, s')" and bs: "from_utf8 bs = Some t"
    using assms by (auto simp: fs_read_to_string_def store ok_or_Inr)
  from fs_read_file_Inr [OF this(1)] bs
  show "\<exists>ob. object_at path s = Some ob \<and> from_utf8 (ob_bytes ob) = Some t" "st_objects s' = st_objects s" by auto
qed

lemma fs_exists_objects: "fs_exists env path s = (there, s') \<Longrightarrow> st_objects s' = st_objects s"
  by (auto simp: fs_exists_def split: fate.splits)

lemma create_call_bytes:
  assumes "create_file_call env path d s = (r, s')" "find_object path (st_objects s) = None"
  shows "find_object path (st_objects s') = None \<or> (\<exists>ob. find_object path (st_objects s') = Some ob \<and> ob_bytes ob = [])"
  using assms(2) win_call_cases [OF assms(1) [unfolded create_file_call_def object_at_def, simplified assms(2), simplified]]
  by (auto simp: store new_file_def)

lemma write_bytes:
  assumes "write_and_sync env path bs s = (r, s')" "find_object path (st_objects s) = Some ob" "ob_bytes ob = []"
  shows "\<exists>ob. find_object path (st_objects s') = Some ob \<and> prefix (ob_bytes ob) bs"
  using win_call_cases [OF assms(1) [unfolded write_and_sync_def Let_def]] assms(2,3)
  by (auto simp: store take_is_prefix split: fate.splits)

text \<open>A new file is absent, or there with the first bytes, or complete under the given security.\<close>

lemma create_new_file_spec:
  assumes "create_new_file env path sddl bs s = (r, s')" "find_object path (st_objects s) = None"
  shows "untouched path (st_objects s) (st_objects s')
    \<and> (find_object path (st_objects s') = None \<or> (\<exists>ob. find_object path (st_objects s') = Some ob \<and> prefix (ob_bytes ob) bs))
    \<and> (is_ok r \<longrightarrow> (\<exists>ob. find_object path (st_objects s') = Some ob \<and> ob_bytes ob = bs
          \<and> we_sddl env sddl = Inr (ob_security ob) \<and> fi_links (ob_info ob) = 1 \<and> fi_attributes (ob_info ob) = 0x80))"
  using assms(1) [unfolded create_new_file_def]
proof (cases rule: io_bind_cases)
  case (failed e)
  with assms(2) show ?thesis by (simp add: io_lift_def)
next
  case (on d s1)
  then have d: "we_sddl env sddl = Inr d" "s1 = s"
    by (auto simp: io_lift_def from_sddl_def result)
  from on(2) show ?thesis
  proof (cases rule: io_bind_cases)
    case (failed e)
    then obtain r' where "create_file_call env path d s = (r', s')"
      using io_map_err_snd d by blast
    with create_untouched [OF this] create_call_bytes [OF this assms(2)] failed show ?thesis by auto
  next
    case (on u s2)
    then have c: "create_file_call env path d s = (Inr (), s2)"
      using d by (simp add: store)
    obtain ob where ob: "find_object path (st_objects s2) = Some ob" "ob_security ob = d" "fi_links (ob_info ob) = 1"
      "fi_attributes (ob_info ob) = 0x80" "ob_bytes ob = []" "untouched path (st_objects s) (st_objects s2)"
      using create_untouched [OF c] create_call_bytes [OF c assms(2)] by auto
    from write_untouched [OF on(2) ob(1)] write_bytes [OF on(2) ob(1,5)] ob d show ?thesis
      by (auto intro: untouched_trans [OF ob(6)])
  qed
qed

section \<open>Files written one after the other\<close>

text \<open>
  The first files complete, the next one absent or begun, the later ones not
  yet there: what an interrupted sequence of creations leaves.
\<close>

fun partly_written :: "(string \<times> bytes) list \<Rightarrow> wobject list \<Rightarrow> bool" where
  "partly_written [] obs \<longleftrightarrow> True"
| "partly_written ((p, bs) # files) obs \<longleftrightarrow>
     (map_option ob_bytes (find_object p obs) = Some bs \<and> partly_written files obs)
     \<or> ((find_object p obs = None \<or> (\<exists>ob. find_object p obs = Some ob \<and> prefix (ob_bytes ob) bs))
        \<and> list_all (\<lambda>q. find_object q obs = None) (map fst files))"

fun apart :: "string list \<Rightarrow> bool" where
  "apart [] \<longleftrightarrow> True"
| "apart (p # ps) \<longleftrightarrow> list_all (\<lambda>q. \<not> same_path q p) ps \<and> apart ps"

definition created :: "win_env \<Rightarrow> string \<Rightarrow> wobject list \<Rightarrow> string \<times> bytes \<Rightarrow> bool" where
  "created env sddl obs = (\<lambda>(p, bs). case find_object p obs of
     None \<Rightarrow> False
   | Some ob \<Rightarrow> ob_bytes ob = bs \<and> we_sddl env sddl = Inr (ob_security ob) \<and> fi_links (ob_info ob) = 1 \<and> fi_attributes (ob_info ob) = 0x80)"

abbreviation create_each :: "win_env \<Rightarrow> string \<Rightarrow> (string \<times> bytes) list \<Rightarrow> (string, unit) io" where
  "create_each env sddl \<equiv> io_each (\<lambda>(path, bs). create_new_file env path sddl bs)"

lemma each_frame:
  assumes "create_each env sddl files s = (r, s')" "list_all (\<lambda>q. find_object q (st_objects s) = None) (map fst files)"
    "apart (map fst files)" "list_all (\<lambda>q. \<not> same_path p q) (map fst files)"
  shows "find_object p (st_objects s') = find_object p (st_objects s)"
  using assms
proof (induction files arbitrary: s)
  case (Cons f files)
  obtain q bs where f: "f = (q, bs)" by (cases f)
  have "io_bind (create_new_file env q sddl bs) (\<lambda>_. create_each env sddl files) s = (r, s')"
    using Cons.prems(1) f by simp
  then show ?case
  proof (cases rule: io_bind_cases)
    case (failed e)
    with create_new_file_spec [OF failed(2)] Cons.prems f show ?thesis by (simp add: untouched_def)
  next
    case (on u s1)
    then have q: "find_object x (st_objects s1) = find_object x (st_objects s)" if "\<not> same_path x q" for x
      using create_new_file_spec [OF on(1)] Cons.prems f that by (simp add: untouched_def)
    have "list_all (\<lambda>x. find_object x (st_objects s1) = None) (map fst files)"
      using Cons.prems(2,3) f q by (auto simp: list_all_iff)
    with Cons.IH [OF on(2)] Cons.prems f q show ?thesis by auto
  qed
qed (simp add: io_lift_def)

lemma each_created:
  assumes "create_each env sddl files s = (r, s')" "list_all (\<lambda>q. find_object q (st_objects s) = None) (map fst files)" "apart (map fst files)"
  shows "partly_written files (st_objects s') \<and> (is_ok r \<longrightarrow> list_all (created env sddl (st_objects s')) files)"
  using assms
proof (induction files arbitrary: s)
  case (Cons f files)
  obtain q bs where f: "f = (q, bs)" by (cases f)
  have absent: "find_object q (st_objects s) = None" and later: "list_all (\<lambda>x. \<not> same_path x q) (map fst files)"
    using Cons.prems(2,3) f by (auto simp: list_all_iff)
  have "io_bind (create_new_file env q sddl bs) (\<lambda>_. create_each env sddl files) s = (r, s')"
    using Cons.prems(1) f by simp
  then show ?case
  proof (cases rule: io_bind_cases)
    case (failed e)
    have "list_all (\<lambda>x. find_object x (st_objects s') = None) (map fst files)"
      using create_new_file_spec [OF failed(2) absent] Cons.prems(2) f later by (auto simp: list_all_iff untouched_def)
    with create_new_file_spec [OF failed(2) absent] failed f show ?thesis by auto
  next
    case (on u s1)
    have none: "list_all (\<lambda>x. find_object x (st_objects s1) = None) (map fst files)"
      using create_new_file_spec [OF on(1) absent] Cons.prems(2) f later by (auto simp: list_all_iff untouched_def)
    have "list_all (\<lambda>x. \<not> same_path q x) (map fst files)"
      using later same_path_sym by (fastforce simp: list_all_iff)
    then have "find_object q (st_objects s') = find_object q (st_objects s1)"
      using each_frame [OF on(2) none] Cons.prems(3) f by simp
    with create_new_file_spec [OF on(1) absent] Cons.IH [OF on(2) none] Cons.prems(3) f show ?thesis
      by (auto simp: created_def)
  qed
qed simp

section \<open>Persisting and loading the installed identity\<close>

lemma ensure_directory_frame:
  assumes "ensure_directory env dir sddl po s = (r, s')" "\<not> same_path p dir"
  shows "find_object p (st_objects s') = find_object p (st_objects s)"
proof -
  have "reads (custody_check env dir Directory po)" by simp
  note reads_objects [OF this]
  moreover have "find_object p (put_object (new_directory env k dir d) obs) = find_object p obs" for k d obs
    using assms(2) same_path_sym [of dir p] by (auto simp: find_put new_directory_def)
  ultimately show ?thesis
    using assms(1)
    by (auto simp: ensure_directory_def create_directory_call_def io_bind_def io_lift_def win_call_def Let_def
        split: sum.splits prod.splits if_splits fate.splits)
qed

lemma guarded_Inr: "(case m of (there, s1) \<Rightarrow> (guard there e, s1)) = (Inr u, s') \<longleftrightarrow> m = (True, s')"
  by (auto simp: guard_Inr split: prod.splits)

text \<open>What an identity that loads consists of.\<close>

lemma load_identity_Inr:
  assumes "load_identity env libs config s = (Inr i, s')" "ac_enrollment config = Some enr"
  shows "\<exists>oc oi ok raw persisted. object_at (ec_cert_path enr) s = Some oc \<and> from_utf8 (ob_bytes oc) = Some (id_certificate_pem i)
    \<and> object_at (ec_identity_path enr) s = Some oi \<and> from_utf8 (ob_bytes oi) = Some raw
    \<and> persisted_from_str libs raw = Inr persisted \<and> id_agent_id i = pi_agent_id persisted
    \<and> object_at (ec_key_path enr) s = Some ok \<and> (\<exists>seed. ss_unseal (lb_store libs) (ob_bytes ok) = Inr seed
        \<and> length seed = KEY_LEN \<and> id_keypair i = from_secret_bytes (lb_keys libs) seed)
    \<and> pubkey_fingerprint (lb_keys libs) (public_key_bytes (id_keypair i)) = pi_agent_pubkey_fingerprint persisted"
proof -
  let ?key = "ec_key_path enr" and ?id = "ec_identity_path enr" and ?cert = "ec_cert_path enr"
  obtain s1 s2 s3 raw persisted sealed seed where c: "fs_read_to_string env ?cert s = (Inr (id_certificate_pem i), s1)"
    "fs_exists env ?id s1 = (True, s2)" "fs_read_to_string env ?id s2 = (Inr raw, s3)" "persisted_from_str libs raw = Inr persisted"
    "fs_read_file env ?key s3 = (Inr sealed, s')" "unseal_seed libs sealed = Inr seed"
    "check_fingerprint libs persisted (id_keypair i) = Inr ()" "id_keypair i = from_secret_bytes (lb_keys libs) seed"
    "id_agent_id i = pi_agent_id persisted"
    using assms by (auto simp: load_identity_def store ok_or_Inr map_err_Inr guarded_Inr Let_def)
  have "st_objects s3 = st_objects s" "st_objects s2 = st_objects s"
    using fs_read_to_string_Inr(2) [OF c(1)] fs_exists_objects [OF c(2)] fs_read_to_string_Inr(2) [OF c(3)] by simp_all
  then show ?thesis
    using fs_read_to_string_Inr(1) [OF c(1)] fs_read_to_string_Inr(1) [OF c(3)] fs_read_file_Inr(1) [OF c(5)] c(4,6,7,8,9)
    by (auto simp: object_at_def unseal_seed_def check_fingerprint_def and_then_Inr map_err_Inr guard_Inr)
qed

text \<open>
  The texts of \<open>identity.json\<close>: the JSON library reads back what it prints, and
  the printed object, cut short, is no JSON text.
\<close>

definition json_text_law :: "agent_libs \<Rightarrow> json \<Rightarrow> bool" where
  "json_text_law libs j \<longleftrightarrow>
     (\<forall>t. lb_json_print libs j = Inr t \<longrightarrow> lb_json_parse libs t = Inr j \<and> utf8_valid (as_bytes t)
        \<and> (\<forall>u. strict_prefix u t \<longrightarrow> \<not> is_ok (lb_json_parse libs u)))"

lemma read_persisted_json [simp]: "read_persisted (persisted_json p) = Some p"
  by (simp add: read_persisted_def persisted_json_def field_def)

lemma prefix_as_bytes: "prefix (as_bytes u) (as_bytes t) \<longleftrightarrow> prefix u t"
  by (auto simp: as_bytes_def prefix_def map_eq_append_conv) (metis list.inj_map_strong char_byte_inverse)+

text \<open>A persisted record that parses, complete or cut short, is the one printed.\<close>

lemma persisted_prefix:
  assumes "json_text_law libs (persisted_json p)" "lb_json_print libs (persisted_json p) = Inr t" "prefix (as_bytes u) (as_bytes t)"
    "persisted_from_str libs u = Inr q"
  shows "q = p"
proof -
  have "u = t"
    using assms by (auto simp: json_text_law_def persisted_from_str_def and_then_Inr prefix_as_bytes strict_prefix_def)
  with assms show ?thesis
    by (auto simp: json_text_law_def persisted_from_str_def and_then_Inr ok_or_Inr)
qed

lemma partly_written_last:
  assumes "partly_written [(a, x), (b, y), (c, z)] obs" "find_object c obs = Some ob"
  shows "map_option ob_bytes (find_object a obs) = Some x \<and> map_option ob_bytes (find_object b obs) = Some y \<and> prefix (ob_bytes ob) z"
  using assms by auto

definition identity_bytes :: "enrollment_config \<Rightarrow> enrolled_identity \<Rightarrow> bytes \<Rightarrow> string \<Rightarrow> (string \<times> bytes) list" where
  "identity_bytes enr e sealed json =
     [(ec_cert_path enr, as_bytes (en_client_certificate_pem e)), (ec_key_path enr, sealed), (ec_identity_path enr, as_bytes json)]"

definition identity_absent :: "enrollment_config \<Rightarrow> store \<Rightarrow> bool" where
  "identity_absent enr s \<longleftrightarrow> list_all (\<lambda>p. object_at p s = None) [ec_cert_path enr, ec_key_path enr, ec_identity_path enr]"

definition installed_apart :: "enrollment_config \<Rightarrow> installed_custody \<Rightarrow> bool" where
  "installed_apart enr custody \<longleftrightarrow> apart [ic_identity_dir custody, ec_cert_path enr, ec_key_path enr, ec_identity_path enr]"

lemma ensured_absent:
  assumes "ensure_directory env (ic_identity_dir custody) sddl po s = (r, s1)" "identity_absent enr s" "installed_apart enr custody"
  shows "identity_absent enr s1"
  using ensure_directory_frame [OF assms(1)] assms(2,3)
  by (simp add: identity_absent_def installed_apart_def object_at_def)

text \<open>The outcomes of \<open>persist\<close>: nothing written, or the three files written in turn.\<close>

lemma installed_persist_outcome:
  assumes persist: "installed_persist env libs config e custody s = (r, s')" and enr: "ac_enrollment config = Some enr"
    and start: "identity_absent enr s" "installed_apart enr custody"
  shows "(identity_absent enr s' \<and> \<not> is_ok r)
    \<or> (\<exists>sealed json. ss_seal (lb_store libs) (en_secret_seed e) = Inr sealed
         \<and> lb_json_print libs (persisted_json (persisted_of libs e)) = Inr json
         \<and> partly_written (identity_bytes enr e sealed json) (st_objects s')
         \<and> (is_ok r \<longrightarrow> list_all (created env (ic_file_sddl custody) (st_objects s')) (identity_bytes enr e sealed json)))"
proof -
  let ?rest = "\<lambda>sealed json. create_each env (ic_file_sddl custody) (identity_bytes enr e sealed json)"
  from persist [unfolded installed_persist_def enr] have
    "io_bind (io_map_err Persistence (ensure_directory env (ic_identity_dir custody) (ic_directory_sddl custody) (ic_policy custody))) (\<lambda>_.
     io_bind (io_lift (map_err (\<lambda>e. Persistence (''cannot seal private key: '' @ secure_store_error_text e))
                (ss_seal (lb_store libs) (en_secret_seed e)))) (\<lambda>sealed.
     io_bind (io_lift (map_err (\<lambda>e. Persistence (''cannot serialize identity.json: '' @ e))
                (lb_json_print libs (persisted_json (persisted_of libs e))))) (\<lambda>json. io_map_err Persistence (?rest sealed json)))) s = (r, s')"
    by (simp add: io_bind_def [of "io_lift _"] io_lift_def identity_bytes_def)
  then show ?thesis
  proof (cases rule: io_bind_cases)
    case (failed x)
    with ensured_absent [OF _ start] show ?thesis
      by (auto dest: io_map_err_snd)
  next
    case (on u s1)
    then have absent: "identity_absent enr s1"
      using ensured_absent [OF _ start] by (simp add: store)
    have files: "list_all (\<lambda>q. find_object q (st_objects s1) = None) (map fst (identity_bytes enr e sealed json))"
      "apart (map fst (identity_bytes enr e sealed json))" for sealed json
      using absent start(2) by (simp_all add: identity_absent_def installed_apart_def object_at_def identity_bytes_def)
    show ?thesis
    proof (cases "ss_seal (lb_store libs) (en_secret_seed e)")
      case (Inl x)
      with on(2) absent show ?thesis by (auto simp: io_bind_def io_lift_def)
    next
      case sealed: (Inr sealed)
      show ?thesis
      proof (cases "lb_json_print libs (persisted_json (persisted_of libs e))")
        case (Inl x)
        with sealed on(2) absent show ?thesis by (auto simp: io_bind_def io_lift_def)
      next
        case (Inr json)
        with sealed on(2) have "io_map_err Persistence (?rest sealed json) s1 = (r, s')"
          by (simp add: io_bind_def io_lift_def)
        then obtain r' where "?rest sealed json s1 = (r', s')" "is_ok r' = is_ok r"
          using io_map_err_snd by metis
        with each_created [OF this(1) files] sealed Inr show ?thesis by auto
      qed
    qed
  qed
qed

section \<open>The next start\<close>

definition fault_free :: "win_env \<Rightarrow> bool" where
  "fault_free env \<longleftrightarrow> (\<forall>n. we_fate env n = Done)"

lemma fault_free_reads:
  assumes "fault_free env" "object_at path s = Some ob"
  shows "fs_read_file env path s = (Inr (ob_bytes ob), tick s)" "fs_exists env path s = (True, tick s)"
    "from_utf8 (ob_bytes ob) = Some t \<Longrightarrow> fs_read_to_string env path s = (Inr t, tick s)"
  using assms
  by (simp_all add: fault_free_def fs_read_file_def fs_read_to_string_def fs_exists_def win_query_def io_bind_def io_lift_def)

lemma load_identity_runs:
  assumes "fault_free env" "ac_enrollment config = Some enr"
    and there: "object_at (ec_cert_path enr) s = Some oc" "object_at (ec_identity_path enr) s = Some oi" "object_at (ec_key_path enr) s = Some ok"
    and content: "from_utf8 (ob_bytes oc) = Some pem" "from_utf8 (ob_bytes oi) = Some raw" "persisted_from_str libs raw = Inr persisted"
      "ss_unseal (lb_store libs) (ob_bytes ok) = Inr seed" "length seed = KEY_LEN"
      "pubkey_fingerprint (lb_keys libs) (kl_public (lb_keys libs) seed) = pi_agent_pubkey_fingerprint persisted"
  shows "\<exists>s'. load_identity env libs config s =
    (Inr \<lparr>id_agent_id = pi_agent_id persisted, id_keypair = from_secret_bytes (lb_keys libs) seed, id_certificate_pem = pem\<rparr>, s')"
  using fault_free_reads [OF assms(1), of "ec_cert_path enr"] fault_free_reads [OF assms(1), of "ec_identity_path enr"]
    fault_free_reads [OF assms(1), of "ec_key_path enr"] assms
  by (simp add: load_identity_def io_bind_def io_map_err_def io_lift_def unseal_seed_def check_fingerprint_def
      from_secret_bytes_def public_key_bytes_def Let_def)

lemma hygienize_frame:
  assumes "installed_hygienize env libs config_path custody s = (r, s')"
    "\<not> same_path (ic_hygiene_temporary custody) config_path" "\<not> same_path p config_path" "\<not> same_path p (ic_hygiene_temporary custody)"
  shows "find_object p (st_objects s') = find_object p (st_objects s)"
proof -
  let ?m = "io_bind (read_checked env config_path (ic_config_policy custody)) (\<lambda>bs.
        io_bind (io_lift (ok_or ''agent.toml does not exist'' bs)) (\<lambda>bs.
        io_bind (io_lift (ok_or ''agent.toml is not UTF-8'' (from_utf8 bs))) (\<lambda>content.
        io_bind (io_lift (map_err (\<lambda>_. ''agent.toml is not valid TOML'') (without_token libs content))) (\<lambda>text.
          replace_keeping_security env config_path (ic_hygiene_temporary custody) (as_bytes text) (ic_config_policy custody)))))"
  have "?m s = (fst (?m s), s')"
    using assms(1) by (simp add: installed_hygienize_def best_effort_def) (metis prod.collapse)
  then show ?thesis
  proof (cases rule: io_bind_cases)
    case (failed e)
    with reads_objects [OF reads_custody(5) failed(2)] show ?thesis by simp
  next
    case (on bs s1)
    note same = reads_objects [OF reads_custody(5) on(1)]
    show ?thesis
      using on(2) replace_frame [OF _ assms(2-4)] same
      by (auto simp: io_bind_def io_lift_def split: sum.splits)
  qed
qed

lemma absent_not_enrolled:
  assumes "identity_absent enr s" "ac_enrollment config = Some enr"
  shows "\<exists>s1. is_enrolled env config s = (False, s1) \<and> st_objects s1 = st_objects s"
  using assms by (auto simp: identity_absent_def is_enrolled_def fs_exists_def split: fate.splits)

text \<open>A first start that succeeds: the certificate is the key's, and the three files are complete.\<close>

lemma installed_first_start:
  assumes ensure: "installed_ensure env libs (Inr e) config config_path custody s = (Inr i, s1)"
    and enr: "ac_enrollment config = Some enr"
    and start: "identity_absent enr s" "installed_apart enr custody"
    and paths: "list_all (\<lambda>p. \<not> same_path p config_path \<and> \<not> same_path p (ic_hygiene_temporary custody))
      [ec_cert_path enr, ec_key_path enr, ec_identity_path enr]" "\<not> same_path (ic_hygiene_temporary custody) config_path"
  shows "i = identity_of libs e \<and> check_issued libs e = Inr ()
    \<and> (\<exists>sealed json. ss_seal (lb_store libs) (en_secret_seed e) = Inr sealed
         \<and> lb_json_print libs (persisted_json (persisted_of libs e)) = Inr json
         \<and> list_all (created env (ic_file_sddl custody) (st_objects s1)) (identity_bytes enr e sealed json))"
proof -
  obtain s0 where s0: "is_enrolled env config s = (False, s0)" "st_objects s0 = st_objects s"
    using absent_not_enrolled [OF start(1) enr] by blast
  obtain s2 where e: "check_issued libs e = Inr ()" "installed_persist env libs config e custody s0 = (Inr (), s2)"
    "installed_hygienize env libs config_path custody s2 = (Inr (), s1)" "i = identity_of libs e"
    using ensure by (auto simp: installed_ensure_def enr s0(1) store)
  have "identity_absent enr s0"
    using start(1) s0(2) by (simp add: identity_absent_def object_at_def)
  then obtain sealed json where w: "ss_seal (lb_store libs) (en_secret_seed e) = Inr sealed"
    "lb_json_print libs (persisted_json (persisted_of libs e)) = Inr json"
    "list_all (created env (ic_file_sddl custody) (st_objects s2)) (identity_bytes enr e sealed json)"
    using installed_persist_outcome [OF e(2) enr _ start(2)] by auto
  have "find_object p (st_objects s1) = find_object p (st_objects s2)"
    if "p \<in> set [ec_cert_path enr, ec_key_path enr, ec_identity_path enr]" for p
    using hygienize_frame [OF e(3) paths(2)] paths(1) that unfolding list_all_iff by blast
  then have "list_all (created env (ic_file_sddl custody) (st_objects s1)) (identity_bytes enr e sealed json)"
    using w(3) by (simp add: identity_bytes_def created_def)
  with w e show ?thesis by blast
qed

text \<open>Complete files load.\<close>

lemma complete_identity_loads:
  assumes enr: "ac_enrollment config = Some enr" and env: "fault_free env'"
    and w: "ss_seal (lb_store libs) (en_secret_seed e) = Inr sealed" "lb_json_print libs (persisted_json (persisted_of libs e)) = Inr json"
      "list_all (created env sddl (st_objects s)) (identity_bytes enr e sealed json)"
    and laws: "sealing_store (ss_seal (lb_store libs)) (ss_unseal (lb_store libs))" "json_text_law libs (persisted_json (persisted_of libs e))"
    and issued: "en_public_key e = kl_public (lb_keys libs) (en_secret_seed e)" "length (en_secret_seed e) = KEY_LEN"
      "utf8_valid (as_bytes (en_client_certificate_pem e))" "check_issued libs e = Inr ()"
  shows "\<exists>s'. installed_load env' libs config s = (Inr (identity_of libs e), s')"
proof -
  obtain oc ok oi where files: "object_at (ec_cert_path enr) s = Some oc" "object_at (ec_key_path enr) s = Some ok"
    "object_at (ec_identity_path enr) s = Some oi"
    "ob_bytes oc = as_bytes (en_client_certificate_pem e)" "ob_bytes ok = sealed" "ob_bytes oi = as_bytes json"
    using w(3) by (auto simp: identity_bytes_def created_def object_at_def split: option.splits)
  have "persisted_from_str libs json = Inr (persisted_of libs e)" "utf8_valid (as_bytes json)"
    using laws(2) w(2) by (simp_all add: json_text_law_def persisted_from_str_def)
  then have "\<exists>s'. load_identity env' libs config s =
      (Inr \<lparr>id_agent_id = pi_agent_id (persisted_of libs e), id_keypair = from_secret_bytes (lb_keys libs) (en_secret_seed e),
        id_certificate_pem = en_client_certificate_pem e\<rparr>, s')"
    using issued sealing_store.unseal_seal [OF laws(1) w(1)]
    by (intro load_identity_runs [OF env enr files(1,3,2), of _ json])
      (simp_all add: as_bytes_from_utf8 files(4,5,6), simp add: persisted_of_def)
  then obtain s' where "load_identity env' libs config s = (Inr (identity_of libs e), s')"
    by (auto simp: persisted_of_def identity_of_def)
  moreover have "check_consistency libs (id_certificate_pem (identity_of libs e)) (public_key_bytes (id_keypair (identity_of libs e)))
      (id_agent_id (identity_of libs e)) = Inr ()"
    using issued(1,4) by (simp add: check_issued_def identity_of_def public_key_bytes_def from_secret_bytes_def map_err_Inr)
  ultimately show ?thesis
    by (simp add: installed_load_def io_bind_def io_map_err_def io_lift_def)
qed

definition sample_certificate :: bytes where
  "sample_certificate = [0x30, 0x45, 0x30, 0x43, 2, 1, 1, 0x30, 0, 0x30, 0, 0x30, 0,
     0x30, 0x0c, 0x31, 0x0a, 0x30, 8, 6, 3, 0x55, 4, 3, 0x0c, 1, 0x61,
     0x30, 0x2a, 0x30, 5, 6, 3, 0x2b, 0x65, 0x70, 3, 0x21, 0] @ replicate 32 0"

definition sample_issued :: enrolled_identity where
  "sample_issued = \<lparr>en_agent_id = ''a'', en_client_certificate_pem = ''pem'', en_issued_at = ''b'', en_expires_at = ''e'',
     en_secret_seed = replicate 32 0, en_public_key = replicate 32 0\<rparr>"

definition sample_persisted :: persisted_identity where
  "sample_persisted = \<lparr>pi_agent_id = ''a'', pi_agent_pubkey_fingerprint = pubkey_fingerprint sample_keys (replicate 32 0),
     pi_issued_at = ''b'', pi_expires_at = ''e''\<rparr>"

definition sample_libs :: agent_libs where
  "sample_libs = \<lparr>lb_keys = sample_keys, lb_store = dev_store, lb_json_print = (\<lambda>_. Inr ''{}''),
     lb_json_parse = (\<lambda>t. if t = ''{}'' then Inr (persisted_json sample_persisted) else Inl ''eof''), lb_json_shape = (\<lambda>_. ''shape''),
     lb_toml_parse = (\<lambda>_. Inl ''toml''), lb_toml_print = (\<lambda>_. Inl ''toml''), lb_certs = (\<lambda>_. Some [sample_certificate])\<rparr>"

definition sample_custody :: installed_custody where
  "sample_custody = \<lparr>ic_identity_dir = ''d'', ic_hygiene_temporary = ''t'', ic_policy = policy_system_only,
     ic_config_policy = policy_configuration, ic_directory_sddl = DIRECTORY_SDDL, ic_file_sddl = FILE_SDDL\<rparr>"

definition empty_store :: store where
  "empty_store = \<lparr>st_objects = [], st_ops = 0\<rparr>"

lemma sample_certificate_reads:
  "certificate_identity_der sample_certificate = Inr \<lparr>ed25519_public_key = replicate 32 0, cert_common_name = ''a''\<rparr>"
  by code_simp

lemma sample_persisted_of: "persisted_of sample_libs sample_issued = sample_persisted"
  by (simp add: persisted_of_def sample_libs_def sample_issued_def sample_persisted_def)

lemma sample_laws:
  "sealing_store (ss_seal (lb_store sample_libs)) (ss_unseal (lb_store sample_libs))"
  "json_text_law sample_libs (persisted_json (persisted_of sample_libs sample_issued))"
  using dev.sealing_store_axioms
  by (auto simp: sample_libs_def dev_store_def json_text_law_def sample_persisted_of [unfolded sample_libs_def dev_store_def] as_bytes_def char_byte_def)
    

lemma sample_consistent: "check_issued sample_libs sample_issued = Inr ()"
  by (simp add: check_issued_def check_consistency_def certificate_identity_def certificates_in_def sample_issued_def sample_libs_def
     sample_certificate_reads)

text \<open>
  Claim C25. However the start that persists an identity is interrupted, by the
  failure of any call or at any byte of a write, an identity that a later
  start loads is the one the server issued to that start: the same agent id,
  key pair and certificate.
\<close>

theorem interrupted_persist_safe:
  assumes "installed_persist env libs config e custody s = (r, s1)" "ac_enrollment config = Some enr"
    and start: "identity_absent enr s" "installed_apart enr custody"
    and laws: "sealing_store (ss_seal (lb_store libs)) (ss_unseal (lb_store libs))" "json_text_law libs (persisted_json (persisted_of libs e))"
    and later: "installed_load env' libs config s2 = (Inr i, s3)" "st_objects s2 = st_objects s1"
  shows "i = identity_of libs e"
proof -
  have load: "load_identity env' libs config s2 = (Inr i, s3)"
    using later(1) by (auto simp: installed_load_def store)
  obtain oc oi ok raw persisted seed where l: "object_at (ec_cert_path enr) s1 = Some oc" "from_utf8 (ob_bytes oc) = Some (id_certificate_pem i)"
    "object_at (ec_identity_path enr) s1 = Some oi" "from_utf8 (ob_bytes oi) = Some raw"
    "persisted_from_str libs raw = Inr persisted" "id_agent_id i = pi_agent_id persisted"
    "object_at (ec_key_path enr) s1 = Some ok" "ss_unseal (lb_store libs) (ob_bytes ok) = Inr seed"
    "id_keypair i = from_secret_bytes (lb_keys libs) seed"
    using load_identity_Inr [OF load assms(2)] later(2) unfolding object_at_def by auto
  then obtain sealed json where w: "ss_seal (lb_store libs) (en_secret_seed e) = Inr sealed"
    "lb_json_print libs (persisted_json (persisted_of libs e)) = Inr json"
    "partly_written (identity_bytes enr e sealed json) (st_objects s1)"
    using installed_persist_outcome [OF assms(1,2) start] by (auto simp: identity_absent_def)
  have f: "ob_bytes oc = as_bytes (en_client_certificate_pem e)" "ob_bytes ok = sealed" "prefix (ob_bytes oi) (as_bytes json)"
    using partly_written_last [OF w(3) [unfolded identity_bytes_def], of oi] l by (auto simp: object_at_def)
  have "persisted = persisted_of libs e"
    using persisted_prefix [OF laws(2) w(2)] f(3) l(4,5) by (simp add: as_bytes_from_utf8)
  moreover have "seed = en_secret_seed e"
    using sealing_store.unseal_seal [OF laws(1) w(1)] l(8) f(2) by simp
  ultimately show ?thesis
    using l(2,6,9) f(1) by (simp add: identity_of_def persisted_of_def as_bytes_from_utf8)
qed

text \<open>The write of the last file reports an error after all of its bytes.\<close>

definition sample_interruption :: win_env where
  "sample_interruption = sample_env\<lparr>we_fate := (\<lambda>n. if n = 6 then Win32 5 True else Done), we_written := (\<lambda>_. 1000)\<rparr>"

lemmas persist_defs = installed_persist_def sample_config_def sample_enrollment_def sample_custody_def sample_libs_def sample_issued_def
  dev_store_def dev_seal_def ensure_directory_def create_directory_call_def create_new_file_def create_file_call_def write_and_sync_def
  from_sddl_def custody_ops sample_defs empty_store_def put_object_def new_directory_def new_file_def ascii_lower_def set_object_def

lemma sample_interrupted:
  "\<exists>e s'. installed_persist sample_interruption sample_libs sample_config sample_issued sample_custody empty_store = (Inl e, s')
     \<and> list_all (created sample_interruption FILE_SDDL (st_objects s')) (identity_bytes sample_enrollment sample_issued (dev_marker @ replicate 32 0) ''{}'')"
  by (simp add: persist_defs sample_interruption_def created_def identity_bytes_def)

lemma sample_places: "identity_absent sample_enrollment empty_store" "installed_apart sample_enrollment sample_custody"
  by (simp_all add: identity_absent_def installed_apart_def sample_enrollment_def sample_custody_def empty_store_def object_at_def
      find_object_def eq_ignore_ascii_case_def ascii_lower_def)

lemma sample_issued_ok:
  "en_public_key sample_issued = kl_public (lb_keys sample_libs) (en_secret_seed sample_issued)"
  "length (en_secret_seed sample_issued) = KEY_LEN" "utf8_valid (as_bytes (en_client_certificate_pem sample_issued))"
  "ss_seal (lb_store sample_libs) (en_secret_seed sample_issued) = Inr (dev_marker @ replicate 32 0)"
  "lb_json_print sample_libs j = Inr ''{}''" "ac_enrollment sample_config = Some sample_enrollment" "fault_free sample_env"
  by (simp_all add: sample_issued_def sample_libs_def sample_keys_def KEY_LEN_def as_bytes_def char_byte_def dev_store_def dev_seal_def
      sample_config_def fault_free_def sample_env_def)

theorem interrupted_persist_safe_witness:
  "\<exists>e s1 i s3. installed_persist sample_interruption sample_libs sample_config sample_issued sample_custody empty_store = (Inl e, s1)
     \<and> installed_load sample_env sample_libs sample_config s1 = (Inr i, s3) \<and> i = identity_of sample_libs sample_issued"
proof -
  obtain e s1 where p: "installed_persist sample_interruption sample_libs sample_config sample_issued sample_custody empty_store = (Inl e, s1)"
    and "list_all (created sample_interruption FILE_SDDL (st_objects s1)) (identity_bytes sample_enrollment sample_issued (dev_marker @ replicate 32 0) ''{}'')"
    using sample_interrupted by blast
  then obtain i s3 where "installed_load sample_env sample_libs sample_config s1 = (Inr i, s3)"
    using complete_identity_loads [OF sample_issued_ok(6,7,4,5) _ sample_laws sample_issued_ok(1-3) sample_consistent] by blast
  with p interrupted_persist_safe [OF p sample_issued_ok(6) sample_places sample_laws this refl] show ?thesis by blast
qed

text \<open>
  Claim C26. What a first start enrolled and persisted, the next start loads:
  after a start of the installed service that enrolls and succeeds, loading
  without faults returns the identity that start used, and the three files
  carry the descriptor of the service's custody.
\<close>

theorem enrolled_identity_reloads:
  assumes first: "installed_ensure env libs (Inr e) config config_path custody s = (Inr i, s1)"
    and enr: "ac_enrollment config = Some enr"
    and start: "identity_absent enr s" "installed_apart enr custody"
    and paths: "list_all (\<lambda>p. \<not> same_path p config_path \<and> \<not> same_path p (ic_hygiene_temporary custody))
      [ec_cert_path enr, ec_key_path enr, ec_identity_path enr]" "\<not> same_path (ic_hygiene_temporary custody) config_path"
    and laws: "sealing_store (ss_seal (lb_store libs)) (ss_unseal (lb_store libs))" "json_text_law libs (persisted_json (persisted_of libs e))"
    and issued: "en_public_key e = kl_public (lb_keys libs) (en_secret_seed e)" "length (en_secret_seed e) = KEY_LEN"
      "utf8_valid (as_bytes (en_client_certificate_pem e))"
    and later: "fault_free env'" "st_objects s2 = st_objects s1"
  shows "i = identity_of libs e \<and> (\<exists>s3. installed_load env' libs config s2 = (Inr i, s3))
    \<and> list_all (\<lambda>p. \<exists>ob. object_at p s2 = Some ob \<and> we_sddl env (ic_file_sddl custody) = Inr (ob_security ob))
        [ec_cert_path enr, ec_key_path enr, ec_identity_path enr]"
proof -
  obtain sealed json where i: "i = identity_of libs e" "check_issued libs e = Inr ()"
    and w: "ss_seal (lb_store libs) (en_secret_seed e) = Inr sealed"
    "lb_json_print libs (persisted_json (persisted_of libs e)) = Inr json"
    "list_all (created env (ic_file_sddl custody) (st_objects s2)) (identity_bytes enr e sealed json)"
    using installed_first_start [OF first enr start paths] later(2) by auto
  from complete_identity_loads [OF enr later(1) w laws issued i(2)] i(1) w(3) show ?thesis
    by (auto simp: identity_bytes_def created_def object_at_def split: option.splits)
qed

lemma sample_persists:
  "\<exists>s'. installed_persist sample_env sample_libs sample_config sample_issued sample_custody (tick empty_store) = (Inr (), s')"
  by (simp add: persist_defs)

lemma sample_first_start:
  "\<exists>s1. installed_ensure sample_env sample_libs (Inr sample_issued) sample_config ''f'' sample_custody empty_store
     = (Inr (identity_of sample_libs sample_issued), s1)"
proof -
  have "is_enrolled sample_env sample_config empty_store = (False, tick empty_store)"
    by (simp add: is_enrolled_def sample_issued_ok(6) fs_exists_def sample_env_def empty_store_def object_at_def find_object_def)
  with sample_persists show ?thesis
    by (auto simp: installed_ensure_def sample_issued_ok(6) sample_consistent io_bind_def io_lift_def installed_hygienize_def best_effort_def)
qed

theorem enrolled_identity_reloads_witness:
  "\<exists>s1 s3. installed_ensure sample_env sample_libs (Inr sample_issued) sample_config ''f'' sample_custody empty_store
       = (Inr (identity_of sample_libs sample_issued), s1)
     \<and> installed_load sample_env sample_libs sample_config s1 = (Inr (identity_of sample_libs sample_issued), s3)"
proof -
  obtain s1 where s1: "installed_ensure sample_env sample_libs (Inr sample_issued) sample_config ''f'' sample_custody empty_store
      = (Inr (identity_of sample_libs sample_issued), s1)"
    using sample_first_start by blast
  have "list_all (\<lambda>p. \<not> same_path p ''f'' \<and> \<not> same_path p (ic_hygiene_temporary sample_custody))
      [ec_cert_path sample_enrollment, ec_key_path sample_enrollment, ec_identity_path sample_enrollment]"
    "\<not> same_path (ic_hygiene_temporary sample_custody) ''f''"
    by (simp_all add: sample_custody_def sample_enrollment_def eq_ignore_ascii_case_def ascii_lower_def)
  from enrolled_identity_reloads [OF s1 sample_issued_ok(6) sample_places this sample_laws sample_issued_ok(1-3,7) refl] s1
  show ?thesis by blast
qed

section \<open>The custody of the installed identity\<close>

lemma missing_checked_conforms:
  assumes "missing_checked env po files s = (Inr [], s')"
  shows "list_all (\<lambda>(_, p). \<exists>ob. object_at p s = Some ob \<and> conforms env ob File po) files"
  using assms
proof (induction files arbitrary: s)
  case (Cons f files)
  obtain name p where f: "f = (name, p)" by (cases f)
  obtain s1 where s1: "check_if_exists env p File po s = (Inr True, s1)" "missing_checked env po files s1 = (Inr [], s')"
    using Cons.prems f by (auto simp: store split: if_splits)
  have "st_objects s1 = st_objects s"
    using reads_objects [OF reads_custody(2) s1(1)] .
  with Cons.IH [OF s1(2)] check_if_exists_conforms [of env p File po OPEN_WAIT s s1] s1(1) f show ?case
    by (simp add: check_if_exists_def object_at_def)
qed simp

lemma reads_missing: "reads (missing_checked env po files)"
  by (induction files) (auto intro!: reads_bind)

text \<open>No token without a principal that the policy allows has any right on the object.\<close>

definition private_object :: "win_env \<Rightarrow> policy \<Rightarrow> wobject \<Rightarrow> bool" where
  "private_object env po ob \<longleftrightarrow>
     (\<exists>as. sd_dacl (ob_security ob) = Inr (Some (map Inr as))
        \<and> (\<forall>token wanted. wanted \<noteq> 0 \<and> (\<forall>sid. token sid \<longrightarrow> \<not> list_ex (\<lambda>p. principal_is env p sid) (po_allowed po))
             \<longrightarrow> \<not> access_check as token wanted))"

lemma conforms_private_object: "conforms env ob kind po \<Longrightarrow> private_object env po ob"
  using conforms_private [of env ob kind po] by (auto simp: private_object_def)

text \<open>
  Claim C27. When the installed service's checks pass and it loads an identity,
  its directory and its three files conform to the service's policy, so no
  token without a principal of the policy has any right on them; the
  certificate's key is the public half of the sealed key, and the
  certificate's common name is the agent id.
\<close>

theorem loaded_identity_sound:
  assumes check: "installed_check env config custody s = (Inr (), s1)" and enr: "ac_enrollment config = Some enr"
    and there: "fst (check_if_exists env (ic_identity_dir custody) Directory (ic_policy custody) s) = Inr True"
    and load: "installed_load env libs config s1 = (Inr i, s2)"
  shows "list_all (\<lambda>(p, kind). \<exists>ob. object_at p s = Some ob \<and> conforms env ob kind (ic_policy custody) \<and> private_object env (ic_policy custody) ob)
      [(ic_identity_dir custody, Directory), (ec_cert_path enr, File), (ec_key_path enr, File), (ec_identity_path enr, File)]
    \<and> (\<exists>ob seed. object_at (ec_key_path enr) s = Some ob \<and> ss_unseal (lb_store libs) (ob_bytes ob) = Inr seed
         \<and> certificate_identity (lb_certs libs) (id_certificate_pem i)
           = Inr \<lparr>ed25519_public_key = kl_public (lb_keys libs) seed, cert_common_name = id_agent_id i\<rparr>)"
proof -
  obtain s0 where dir: "check_if_exists env (ic_identity_dir custody) Directory (ic_policy custody) s = (Inr True, s0)"
    using there by (metis prod.collapse)
  then have missing: "missing_checked env (ic_policy custody) (identity_files enr) s0 = (Inr [], s1)"
    using check enr by (auto simp: installed_check_def store io_bind_def io_map_err_def io_lift_def guard_Inr map_err_Inr split: sum.splits prod.splits)
  have same: "st_objects s0 = st_objects s"
    using reads_objects [OF reads_custody(2) dir] .
  have s1: "st_objects s1 = st_objects s"
    using reads_objects [OF reads_missing missing] same by simp
  obtain s3 where l: "load_identity env libs config s1 = (Inr i, s3)"
    "check_consistency libs (id_certificate_pem i) (public_key_bytes (id_keypair i)) (id_agent_id i) = Inr ()"
    using load by (auto simp: installed_load_def store map_err_Inr)
  have "\<exists>ob seed. object_at (ec_key_path enr) s = Some ob \<and> ss_unseal (lb_store libs) (ob_bytes ob) = Inr seed
      \<and> id_keypair i = from_secret_bytes (lb_keys libs) seed"
    using load_identity_Inr [OF l(1) enr] s1 unfolding object_at_def by auto
  moreover have "certificate_identity (lb_certs libs) (id_certificate_pem i)
      = Inr \<lparr>ed25519_public_key = public_key_bytes (id_keypair i), cert_common_name = id_agent_id i\<rparr>"
    using l(2) by (auto simp: check_consistency_def and_then_Inr map_err_Inr guard_Inr)
  ultimately show ?thesis
    using missing_checked_conforms [OF missing] check_if_exists_conforms [OF dir [unfolded check_if_exists_def]] same
    by (auto simp: identity_files_def object_at_def from_secret_bytes_def public_key_bytes_def dest: conforms_private_object)
qed

definition sample_identity_store :: store where
  "sample_identity_store = \<lparr>st_objects =
     [new_directory sample_env 0 ''d'' sample_descriptor, new_file sample_env 0 ''c'' sample_descriptor (as_bytes ''pem''),
      new_file sample_env 0 ''k'' sample_descriptor (dev_marker @ replicate 32 0), new_file sample_env 0 ''i'' sample_descriptor (as_bytes ''{}'')],
     st_ops = 0\<rparr>"

lemmas check_defs = installed_check_def identity_files_def check_if_exists_def check_if_exists_within_def check_shape_def check_security_def
  file_information_def shape_of_def security_of_def check_descriptor_def policy_system_only_def new_file_def new_directory_def ascii_lower_def
  FILE_ATTRIBUTE_DIRECTORY_def FILE_ATTRIBUTE_REPARSE_POINT_def SE_DACL_PROTECTED_def ACCESS_DENIED_ACE_TYPE_def ACCESS_ALLOWED_ACE_TYPE_def

lemma sample_check:
  "\<exists>s1. installed_check sample_env sample_config sample_custody sample_identity_store = (Inr (), s1)"
  "fst (check_if_exists sample_env (ic_identity_dir sample_custody) Directory (ic_policy sample_custody) sample_identity_store) = Inr True"
  by (simp_all add: check_defs sample_config_def sample_enrollment_def sample_custody_def sample_identity_store_def custody_ops sample_defs)

theorem loaded_identity_sound_witness:
  "\<exists>s1 i s2. installed_check sample_env sample_config sample_custody sample_identity_store = (Inr (), s1)
     \<and> installed_load sample_env sample_libs sample_config s1 = (Inr i, s2)
     \<and> (\<exists>ob. object_at ''k'' sample_identity_store = Some ob \<and> private_object sample_env policy_system_only ob)"
proof -
  obtain s1 where s1: "installed_check sample_env sample_config sample_custody sample_identity_store = (Inr (), s1)"
    using sample_check(1) by blast
  have "reads (installed_check env config custody)" for env config custody
    unfolding installed_check_def by (auto intro!: reads_bind reads_map_err reads_missing)
  then have "st_objects s1 = st_objects sample_identity_store"
    using reads_objects s1 by blast
  then have "list_all (created sample_env FILE_SDDL (st_objects s1)) (identity_bytes sample_enrollment sample_issued (dev_marker @ replicate 32 0) ''{}'')"
    by (simp add: created_def identity_bytes_def sample_identity_store_def sample_enrollment_def sample_issued_def custody_ops sample_defs
        new_file_def new_directory_def ascii_lower_def)
  then obtain i s2 where load: "installed_load sample_env sample_libs sample_config s1 = (Inr i, s2)"
    using complete_identity_loads [OF sample_issued_ok(6,7,4,5) _ sample_laws sample_issued_ok(1-3) sample_consistent] by blast
  from loaded_identity_sound [OF s1 sample_issued_ok(6) sample_check(2) load] s1 load show ?thesis
    by (auto simp: sample_enrollment_def sample_custody_def)
qed

section \<open>The console's files\<close>

lemma fs_write_file_there:
  assumes "fs_write_file env path bs s = (Inr (), s')"
  shows "\<exists>ob. find_object path (st_objects s') = Some ob \<and> ob_bytes ob = bs"
    and "\<not> same_path p path \<Longrightarrow> find_object p (st_objects s') = find_object p (st_objects s)"
proof -
  have ok: "we_fate env (st_ops s) = Done"
    using assms by (auto simp: fs_write_file_def win_call_def Let_def split: fate.splits)
  then have objects: "st_objects s' = (case find_object path (st_objects s) of
      None \<Rightarrow> put_object (new_file env (st_ops s) path (we_inherited env) bs) (st_objects s)
    | Some _ \<Rightarrow> set_object path (\<lambda>ob. ob\<lparr>ob_bytes := bs\<rparr>) (st_objects s))"
    using assms by (auto simp: fs_write_file_def win_call_def Let_def split: option.split)
  have [simp]: "same_path path path" by (simp add: eq_ignore_ascii_case_def)
  show "\<exists>ob. find_object path (st_objects s') = Some ob \<and> ob_bytes ob = bs"
    by (cases "find_object path (st_objects s)") (simp_all add: objects store new_file_def)
  show "\<not> same_path p path \<Longrightarrow> find_object p (st_objects s') = find_object p (st_objects s)"
    using same_path_sym [of path p]
    by (cases "find_object path (st_objects s)") (auto simp add: objects store new_file_def)
qed

lemma harden_Inr:
  assumes "harden env sids path s = (Inr (), s')"
  shows "\<exists>user system. as_user sids = Inr user \<and> as_system sids = Inr system
    \<and> st_objects s' = set_object path (\<lambda>ob. ob\<lparr>ob_security := (ob_security ob)\<lparr>
        sd_dacl := Inr (Some [Inr (full_control user), Inr (full_control system)]), sd_control := Inr SE_DACL_PROTECTED\<rparr>\<rparr>) (st_objects s)"
  using assms by (auto simp: harden_def set_owner_only_dacl_def store map_err_Inr dest: win_call_Inr)

lemma full_control_refuses:
  assumes "wanted \<noteq> 0" "\<not> token user" "\<not> token system"
  shows "\<not> access_check [full_control user, full_control system] token wanted"
  using assms by (simp add: full_control_def)

definition owner_only :: "acl_sids \<Rightarrow> string \<Rightarrow> bytes \<Rightarrow> store \<Rightarrow> bool" where
  "owner_only sids path bs s \<longleftrightarrow>
     (\<exists>ob as user system. object_at path s = Some ob \<and> ob_bytes ob = bs \<and> sd_dacl (ob_security ob) = Inr (Some (map Inr as))
        \<and> sd_control (ob_security ob) = Inr SE_DACL_PROTECTED \<and> as_user sids = Inr user \<and> as_system sids = Inr system
        \<and> (\<forall>token wanted. wanted \<noteq> 0 \<and> \<not> token user \<and> \<not> token system \<longrightarrow> \<not> access_check as token wanted))"

lemma harden_owner_only:
  assumes "harden env sids path s = (Inr (), s')" "map_option ob_bytes (object_at path s) = Some bs"
  shows "owner_only sids path bs s'"
proof -
  obtain user system where h: "as_user sids = Inr user" "as_system sids = Inr system"
    "st_objects s' = set_object path (\<lambda>ob. ob\<lparr>ob_security := (ob_security ob)\<lparr>
        sd_dacl := Inr (Some [Inr (full_control user), Inr (full_control system)]), sd_control := Inr SE_DACL_PROTECTED\<rparr>\<rparr>) (st_objects s)"
    using harden_Inr [OF assms(1)] by blast
  show ?thesis
    unfolding owner_only_def
    using assms(2) h full_control_refuses
    by (auto simp: object_at_def store eq_ignore_ascii_case_def intro!: exI [of _ "[full_control user, full_control system]"])
qed

lemma harden_keeps:
  assumes "harden env sids path s = (Inr (), s')" "\<not> same_path p path"
  shows "object_at p s' = object_at p s"
  using harden_Inr [OF assms(1)] assms(2) by (auto simp: object_at_def store)

text \<open>
  Claim C28. When persisting the console's identity succeeds, the three files
  hold what was enrolled, each under a protected DACL that gives no right at
  all to a token that has neither the user's SID nor SYSTEM's.
\<close>

theorem console_files_private:
  assumes persist: "persist_identity env libs sids config e s = (Inr (), s')" and enr: "ac_enrollment config = Some enr"
    and apart: "apart [ec_cert_path enr, ec_key_path enr, ec_identity_path enr]"
  shows "\<exists>sealed json. ss_seal (lb_store libs) (en_secret_seed e) = Inr sealed
    \<and> lb_json_print libs (persisted_json (persisted_of libs e)) = Inr json
    \<and> list_all (\<lambda>(p, bs). owner_only sids p bs s') (identity_bytes enr e sealed json)"
proof -
  let ?c = "ec_cert_path enr" and ?k = "ec_key_path enr" and ?i = "ec_identity_path enr"
  obtain s0 s1 s2 s3 s4 s5 sealed json where w:
    "ss_seal (lb_store libs) (en_secret_seed e) = Inr sealed" "lb_json_print libs (persisted_json (persisted_of libs e)) = Inr json"
    "fs_write_file env ?c (as_bytes (en_client_certificate_pem e)) s0 = (Inr (), s1)" "fs_write_file env ?k sealed s1 = (Inr (), s2)"
    "fs_write_file env ?i (as_bytes json) s2 = (Inr (), s3)"
    "harden env sids ?c s3 = (Inr (), s4)" "harden env sids ?k s4 = (Inr (), s5)" "harden env sids ?i s5 = (Inr (), s')"
    using persist enr by (auto simp: persist_identity_def store map_err_Inr ok_or_Inr)
  have ne: "\<not> same_path ?c ?k" "\<not> same_path ?c ?i" "\<not> same_path ?k ?i" "\<not> same_path ?k ?c" "\<not> same_path ?i ?c" "\<not> same_path ?i ?k"
    using apart same_path_sym by auto
  have b: "map_option ob_bytes (object_at ?c s3) = Some (as_bytes (en_client_certificate_pem e))"
    "map_option ob_bytes (object_at ?k s3) = Some sealed" "map_option ob_bytes (object_at ?i s3) = Some (as_bytes json)"
    using fs_write_file_there(1) [OF w(3)] fs_write_file_there(1) [OF w(4)] fs_write_file_there(1) [OF w(5)]
      fs_write_file_there(2) [OF w(4) ne(1)] fs_write_file_there(2) [OF w(5) ne(2)] fs_write_file_there(2) [OF w(5) ne(3)]
    by (auto simp: object_at_def)
  have "owner_only sids ?c (as_bytes (en_client_certificate_pem e)) s4" "owner_only sids ?k sealed s5" "owner_only sids ?i (as_bytes json) s'"
    using harden_owner_only [OF w(6) b(1)] harden_owner_only [OF w(7)] harden_owner_only [OF w(8)] b
      harden_keeps [OF w(6) ne(4)] harden_keeps [OF w(6) ne(5)] harden_keeps [OF w(7) ne(6)] by simp_all
  moreover have "owner_only sids ?c bs s' = owner_only sids ?c bs s4" "owner_only sids ?k bs s' = owner_only sids ?k bs s5" for bs
    using harden_keeps [OF w(7) ne(1)] harden_keeps [OF w(8) ne(2)] harden_keeps [OF w(8) ne(3)] by (simp_all add: owner_only_def)
  ultimately show ?thesis
    using w(1,2) by (simp add: identity_bytes_def)
qed

definition sample_sids :: acl_sids where
  "sample_sids = \<lparr>as_user = Inr [1], as_system = Inr [2], as_set_entries = Inr ()\<rparr>"

lemma sample_console: "\<exists>s'. persist_identity sample_env sample_libs sample_sids sample_config sample_issued empty_store = (Inr (), s')"
  by (simp add: persist_defs persist_identity_def path_parent_def separator_def fs_create_dir_all_def ancestors_def fs_write_file_def harden_def
      set_owner_only_dacl_def sample_sids_def)

theorem console_files_private_witness:
  "\<exists>s' json. persist_identity sample_env sample_libs sample_sids sample_config sample_issued empty_store = (Inr (), s')
     \<and> owner_only sample_sids ''i'' (as_bytes json) s'"
proof -
  obtain s' where s': "persist_identity sample_env sample_libs sample_sids sample_config sample_issued empty_store = (Inr (), s')"
    using sample_console by blast
  have "apart [ec_cert_path sample_enrollment, ec_key_path sample_enrollment, ec_identity_path sample_enrollment]"
    using sample_places(2) by (simp add: installed_apart_def)
  from console_files_private [OF s' sample_issued_ok(6) this] s' show ?thesis
    by (auto simp: identity_bytes_def sample_enrollment_def)
qed

end
