(* ===== verification/Migration_Run.thy ===== *)
theory Migration_Run
  imports Migration Identity_Props
begin

text \<open>
  A migration that runs to its commit: a console installation whose files are
  SYSTEM's, libraries that read them, and Windows without a failure.
\<close>

definition console_object :: "string \<Rightarrow> u32 \<Rightarrow> bytes \<Rightarrow> wobject" where
  "console_object path attributes bs =
     \<lparr>ob_path = path, ob_info = sample_info\<lparr>fi_attributes := attributes\<rparr>, ob_security = sample_descriptor, ob_bytes = bs\<rparr>"

abbreviation run_root :: string where
  "run_root \<equiv> [CHR ''C'', CHR '':'', bslash, CHR ''P'']"

abbreviation run_paths :: installed_paths where
  "run_paths \<equiv> paths_under run_root"

definition console_key :: bytes where
  "console_key = dev_marker @ replicate 32 0"

definition console_objects :: "wobject list" where
  "console_objects =
     [console_object (ip_product_root run_paths) 0x10 [], console_object (ip_data_root run_paths) 0x10 [],
      console_object (win_join (ip_data_root run_paths) CONFIG) 0x80 (as_bytes ''old''), console_object (win_join (ip_data_root run_paths) ANCHOR) 0x80 (as_bytes ''ca''),
      console_object (win_join (ip_data_root run_paths) CERT) 0x80 (as_bytes ''pem''),
      console_object (win_join (ip_data_root run_paths) KEY) 0x80 console_key,
      console_object (win_join (ip_data_root run_paths) IDENTITY) 0x80 (as_bytes ''{}'')]"

definition run_enrollment :: "string \<Rightarrow> enrollment_config" where
  "run_enrollment dir = \<lparr>ec_token = None, ec_cert_path = win_join dir CERT, ec_key_path = win_join dir KEY,
     ec_identity_path = win_join dir IDENTITY, ec_timeout_seconds = 1, ec_max_retries = 1, ec_backoff_initial_ms = 1, ec_backoff_factor = F64_Fin 2\<rparr>"

definition run_config :: "string \<Rightarrow> agent_config" where
  "run_config dir = (demo_config 3 (F64_Fin 2))\<lparr>ac_enrollment := Some (run_enrollment dir),
     ac_server := \<lparr>sc_url = ''https://s'', sc_trust_anchor_path = Some (ip_trust_anchor run_paths), sc_heartbeat_url = Some ''https://h''\<rparr>\<rparr>"

definition run_document :: toml_value where
  "run_document = TomlTable
     [(''server'', TomlTable [(''url'', TomlString ''https://s'')]),
      (''agent'', TomlTable [(''id'', TomlString ''018f5e7a-1c2b-7d3e-9f4a-0123456789ab''), (''hostname'', TomlString ''h'')]),
      (''enrollment'', TomlTable [])]"

definition run_env :: migration_env where
  "run_env = \<lparr>me_win = sample_env, me_libs = sample_libs\<lparr>lb_toml_print := (\<lambda>_. Inr ''new'')\<rparr>,
     me_pem_iter = (\<lambda>_. [Some [1]]), me_pem_encode = (\<lambda>_. ''ca''), me_toml_value = (\<lambda>_. Inr run_document),
     me_toml_config = (\<lambda>text. Inr (run_config (if text = ''old'' then ip_data_root run_paths else ip_identity_dir run_paths))),
     me_hostname = Inr ''h'', me_sid_text = (\<lambda>_. Inr ''S''), me_rfc3339 = (\<lambda>_. Some 1), me_paths = run_paths,
     me_custody = migration_custody_system, me_now = 0, me_wait = 1, me_watch = (\<lambda>_ _. Inr ())\<rparr>"

definition run_request :: request where
  "run_request = \<lparr>rq_choice = Remove, rq_fingerprints = [''sha256:01'']\<rparr>"

definition at_op :: "wobject list \<Rightarrow> nat \<Rightarrow> store" where
  "at_op obs n = \<lparr>st_objects = obs, st_ops = n\<rparr>"

named_theorems run

lemma at_op_simps [run]: "tick (at_op obs n) = at_op obs (Suc n)" "st_objects (at_op obs n) = obs"
  "(at_op obs n)\<lparr>st_objects := obs'\<rparr> = at_op obs' n" "object_at path (at_op obs n) = find_object path obs"
  "at_op obs n = at_op obs' m \<longleftrightarrow> obs = obs' \<and> n = m"
  by (simp_all add: at_op_def tick_def object_at_def)

lemma sample_calls [run]:
  "open_raw sample_env path s = (Inr (object_at path s), tick s)"
  "bounded sample_env wait path m s = m (tick s)"
  "win_query sample_env render f s = (Inr (f s), tick s)"
  "win_call sample_env render effect s = (Inr (), (tick s)\<lparr>st_objects := effect (st_objects s)\<rparr>)"
  "we_fate sample_env n = Done" "we_sddl sample_env sddl = Inr sample_descriptor"
  by (simp_all add: open_raw_def sample_env_def bounded_def bounded_wait_def win_query_def win_call_def Let_def tick_def)

lemma sample_secure [run]:
  "po \<in> {policy_configuration, policy_system_only, \<lparr>po_owners = [System, Administrators], po_allowed = [System, Administrators], po_protected = False\<rparr>}
   \<Longrightarrow> check_descriptor sample_env sample_descriptor path po = Inr ()"
  "descriptor_owned_by sample_env sample_descriptor (System # ps) = Inr True"
  by (auto simp: check_descriptor_def sample_descriptor_def sample_env_def policy_configuration_def policy_system_only_def
      SE_DACL_PROTECTED_def ACCESS_DENIED_ACE_TYPE_def ACCESS_ALLOWED_ACE_TYPE_def descriptor_owned_by_def)

lemmas io_run [run] = io_bind_def io_catch_def io_map_err_def io_lift_def

lemma run_env_simps [run]: "me_win run_env = sample_env" "me_paths run_env = run_paths" "me_wait run_env = 1" "me_custody run_env = migration_custody_system"
  "watch_at run_env p s = (Inr (), s)"
  by (simp_all add: run_env_def watch_at_def)

lemma console_find [run]:
  "find_object (ip_product_root run_paths) console_objects = Some (console_object (ip_product_root run_paths) 0x10 [])"
  "find_object (ip_data_root run_paths) console_objects = Some (console_object (ip_data_root run_paths) 0x10 [])"
  "find_object (staging run_paths) console_objects = None"
  "find_object (legacy run_paths) console_objects = None"
  "find_object (win_join (ip_data_root run_paths) CONFIG) console_objects = Some (console_object (win_join (ip_data_root run_paths) CONFIG) 0x80 (as_bytes ''old''))"
  "find_object (win_join (ip_data_root run_paths) ANCHOR) console_objects = Some (console_object (win_join (ip_data_root run_paths) ANCHOR) 0x80 (as_bytes ''ca''))"
  "find_object (win_join (ip_data_root run_paths) CERT) console_objects = Some (console_object (win_join (ip_data_root run_paths) CERT) 0x80 (as_bytes ''pem''))"
  "find_object (win_join (ip_data_root run_paths) KEY) console_objects = Some (console_object (win_join (ip_data_root run_paths) KEY) 0x80 console_key)"
  "find_object (win_join (ip_data_root run_paths) IDENTITY) console_objects = Some (console_object (win_join (ip_data_root run_paths) IDENTITY) 0x80 (as_bytes ''{}''))"
  by (simp_all add: find_object_def console_objects_def console_object_def paths_under_def Let_def win_join_def staging_def legacy_def
      eq_ignore_ascii_case_def ascii_lower_def)

lemma console_names [run]:
  "names_in (ip_product_root run_paths) console_objects = [''agent'']"
  "names_in (ip_data_root run_paths) console_objects = REQUIRED"
  by (simp_all add: names_in_def console_objects_def console_object_def paths_under_def Let_def win_join_def under_def
      eq_ignore_ascii_case_def ascii_lower_def REQUIRED_def)

lemma object_simps [run]: "ob_path (console_object path attributes bs) = path" "ob_security (console_object path attributes bs) = sample_descriptor"
  "ob_bytes (console_object path attributes bs) = bs" "fi_links (ob_info (console_object path attributes bs)) = 1"
  "fi_attributes (ob_info (console_object path attributes bs)) = attributes" "\<not> fi_case_sensitive (ob_info (console_object path attributes bs))"
  "file_id_of (ob_info (console_object path attributes bs)) = \<lparr>id_volume = 7, id_index = 9\<rparr>"
  "shape_of (ob_info (console_object path 0x10 bs)) q Directory = Inr ()" "shape_of (ob_info (console_object path 0x80 bs)) q File = Inr ()"
  by (simp_all add: console_object_def sample_info_def file_id_of_def shape_of_def FILE_ATTRIBUTE_DIRECTORY_def FILE_ATTRIBUTE_REPARSE_POINT_def)

lemma set_security_run [run]:
  assumes "list_all (\<lambda>ob. ob_security ob = sample_descriptor) obs" "ob_security handle = sample_descriptor"
  shows "set_security sample_env handle path sddl wait (at_op obs n) = (Inr handle, at_op obs (n + 2))"
proof -
  have secured: "ob\<lparr>ob_security := sample_descriptor\<lparr>sd_control := map_sum id (\<lambda>c. c OR SE_DACL_PROTECTED) (sd_control sample_descriptor)\<rparr>\<rparr> = ob"
    if "ob_security ob = sample_descriptor" for ob
    using that by (cases ob) (simp add: sample_descriptor_def SE_DACL_PROTECTED_def)
  have "set_object p (\<lambda>ob. ob\<lparr>ob_security := sample_descriptor\<lparr>sd_control := map_sum id (\<lambda>c. c OR SE_DACL_PROTECTED) (sd_control sample_descriptor)\<rparr>\<rparr>) obs = obs" for p
    using assms(1) by (auto simp: set_object_def list_all_iff secured intro: map_idI)
  moreover have "sd_owner sample_descriptor = Inr (Some sample_sid)"
    by (simp add: sample_descriptor_def)
  ultimately show ?thesis
    by (simp add: set_security_def from_sddl_def run secured assms(2))
qed

lemma console_secure [run]: "list_all (\<lambda>ob. ob_security ob = sample_descriptor) console_objects"
  by (simp add: console_objects_def object_simps)

lemmas run_ops = open_waiting_def open_existing_def check_shape_def file_information_def security_of_def check_security_def read_to_end_def
  check_if_exists_within_def check_if_exists_def custody_check_def read_checked_within_def read_checked_def

lemma closable_run [run]: "check_closable run_env sample_descriptor path = Inr ()"
  by (simp add: check_closable_def run migration_custody_system_def allow_entries_def)
    (simp add: sample_descriptor_def run_env_def migration_custody_system_def sample_env_def principal_is_def INHERIT_ONLY_ACE_def ACCESS_DENIED_ACE_TYPE_def ACCESS_ALLOWED_ACE_TYPE_def)

lemma close_run: "\<exists>k. close_directories run_env (at_op console_objects n) = (Inr (), at_op console_objects k)"
  by (simp add: close_directories_def close_def run run_ops)

lemma run_last [run]: "last_component (ip_data_root run_paths) = ''agent''" "last_component (staging run_paths) = ''agent.migrating''"
  by (simp_all add: last_component_def paths_under_def staging_def Let_def win_join_def separator_def)

lemma console_entries [run]:
  "check_root_entries run_env False (at_op console_objects n) = (Inr (), at_op console_objects (Suc (Suc n)))"
  "data_root_names run_env (at_op console_objects n) = (Inr REQUIRED, at_op console_objects (Suc (Suc n)))"
  "required_names run_env REQUIRED = Inr ()" "sort_key position REQUIRED = REQUIRED"
  by (simp_all add: check_root_entries_def custody_entries_def data_root_names_def required_names_def position_def REQUIRED_def known_name_def Let_def
      eq_ignore_ascii_case_def ascii_lower_def run)

lemma case_run [run]: "\<exists>k. check_case run_env (at_op console_objects n) = (Inr (), at_op console_objects k)"
  by (simp add: check_case_def is_case_sensitive_def Let_def guard_def run run_ops)

lemma identity_dacl_run [run]: "check_identity_dacl run_env sample_descriptor path = Inr None"
  by (simp add: check_identity_dacl_def allow_entries_def run)
    (simp add: sample_descriptor_def run_env_def migration_custody_system_def sample_env_def principal_is_def INHERIT_ONLY_ACE_def
      ACCESS_DENIED_ACE_TYPE_def ACCESS_ALLOWED_ACE_TYPE_def)

lemma regular_run [run]: "0x80 AND (FILE_ATTRIBUTE_REPARSE_POINT OR FILE_ATTRIBUTE_DIRECTORY) = 0"
  by (simp add: FILE_ATTRIBUTE_DIRECTORY_def FILE_ATTRIBUTE_REPARSE_POINT_def)

lemma owners_run [run]: "mc_owners migration_custody_system = [System, Administrators]"
  by (simp add: migration_custody_system_def)

lemma check_file_run:
  assumes "find_object path obs = Some (console_object path 0x80 bs)"
  shows "\<exists>k. check_file run_env path name (at_op obs n) = (Inr (\<lparr>id_volume = 7, id_index = 9\<rparr>, None), at_op obs k)"
  by (simp add: check_file_def Let_def guard_def run run_ops assms)

lemma check_run: "\<exists>k. check_what_is_there run_env Fresh (at_op console_objects n)
   = (Inr \<lparr>ck_files = map (\<lambda>name. (name, \<lparr>id_volume = 7, id_index = 9\<rparr>)) REQUIRED, ck_enrolling_account = None\<rparr>, at_op console_objects k)"
proof -
  have each: "\<exists>k. check_each run_env names found (at_op console_objects n)
      = (Inr (found\<lparr>ck_files := ck_files found @ map (\<lambda>name. (name, \<lparr>id_volume = 7, id_index = 9\<rparr>)) names\<rparr>), at_op console_objects k)"
    if "set names \<subseteq> set REQUIRED" for names found n
    using that
  proof (induction names arbitrary: found n)
    case (Cons name names)
    have "\<exists>bs. find_object (win_join (ip_data_root run_paths) name) console_objects = Some (console_object (win_join (ip_data_root run_paths) name) 0x80 bs)"
      using Cons.prems by (auto simp: REQUIRED_def console_find)
    then obtain k where k: "check_file run_env (win_join (ip_data_root run_paths) name) name (at_op console_objects n)
        = (Inr (\<lparr>id_volume = 7, id_index = 9\<rparr>, None), at_op console_objects k)"
      using check_file_run by blast
    from Cons.IH [of "found\<lparr>ck_files := ck_files found @ [(name, \<lparr>id_volume = 7, id_index = 9\<rparr>)]\<rparr>" k] Cons.prems k show ?case
      by (simp add: Let_def run)
  qed (simp add: run)
  obtain k where "check_case run_env (at_op console_objects (Suc (Suc n))) = (Inr (), at_op console_objects k)"
    using case_run by blast
  then show ?thesis
    using each [of REQUIRED "\<lparr>ck_files = [], ck_enrolling_account = None\<rparr>"]
    by (simp add: check_what_is_there_def run)
qed

abbreviation console_checked :: checked where
  "console_checked \<equiv> \<lparr>ck_files = map (\<lambda>name. (name, \<lparr>id_volume = 7, id_index = 9\<rparr>)) REQUIRED, ck_enrolling_account = None\<rparr>"

definition run_verified :: verified where
  "run_verified = \<lparr>vf_config_text = ''old'', vf_certificates = [[1]], vf_certificate = as_bytes ''pem'', vf_sealed_key = console_key,
     vf_identity = as_bytes ''{}'', vf_agent_id = ''a'', vf_key_fingerprint = pubkey_fingerprint sample_keys (replicate 32 0)\<rparr>"

lemma texts_run: "from_utf8 (as_bytes ''old'') = Some ''old''" "from_utf8 (as_bytes ''new'') = Some ''new''" "from_utf8 (as_bytes ''{}'') = Some ''{}''"
  "from_utf8 (as_bytes ''pem'') = Some ''pem''"
  by code_simp+

lemma document_run: "check_required run_document = None"
  by code_simp

lemma config_run: "load_from_str (me_toml_value run_env) (me_toml_config run_env) text
  = Inr (run_config (if text = ''old'' then ip_data_root run_paths else ip_identity_dir run_paths))"
  by (simp add: load_from_str_def run_env_def document_run check_config_def run_config_def demo_config_def heartbeat_default_def tls_default_def
      envelope_default_def Let_def paths_under_def win_join_def)

lemma legacy_config_run: "check_legacy_config run_env (as_bytes ''old'') = Inr ''old''"
  by (simp add: check_legacy_config_def Let_def texts_run config_run) (simp add: run_env_def run_document_def run_config_def run_enrollment_def
     demo_config_def guard_def is_console_path_def paths_under_def Let_def win_join_def eq_ignore_ascii_case_def)

lemma anchor_run: "check_anchor run_env bs [''sha256:01''] = Inr [[1]]"
proof -
  have "byte_hex 1 = ''01''"
    by code_simp
  then show ?thesis
    by (simp add: check_anchor_def run_env_def sample_libs_def sample_keys_def fingerprint_def guard_def)
qed

lemma libs_run: "lb_keys (me_libs run_env) = sample_keys" "lb_store (me_libs run_env) = dev_store"
  "lb_json_print (me_libs run_env) j = Inr ''{}''" "persisted_from_str (me_libs run_env) ''{}'' = Inr sample_persisted"
  "check_consistency (me_libs run_env) ''pem'' (replicate 32 0) ''a'' = Inr ()"
  "certificates_in (lb_certs (me_libs run_env)) text = Inr [sample_certificate]"
  "ss_unseal dev_store console_key = Inr (replicate 32 0)"
  "public_key_bytes (from_secret_bytes sample_keys (replicate 32 0)) = replicate 32 0"
  "pi_agent_pubkey_fingerprint sample_persisted = pubkey_fingerprint sample_keys (replicate 32 0)" "pi_agent_id sample_persisted = ''a''"
  by (simp_all add: run_env_def sample_libs_def persisted_from_str_def check_consistency_def sample_certificate_reads guard_def
      certificate_identity_def certificates_in_def dev_store_def dev_unseal_def console_key_def public_key_bytes_def from_secret_bytes_def
      sample_keys_def sample_persisted_def)

lemma identity_run: "check_identity run_env None console_key (as_bytes ''pem'') (as_bytes ''{}'')
  = Inr (''a'', pubkey_fingerprint sample_keys (replicate 32 0))"
  by (simp add: check_identity_def texts_run libs_run Let_def guard_def KEY_LEN_def) (simp add: run_env_def)

lemma read_run: "\<exists>k. read_each_file run_env run_request Fresh console_checked (at_op console_objects n) = (Inr run_verified, at_op console_objects k)"
proof -
  have size: "length console_key \<le> 16777216"
    by (simp add: console_key_def dev_marker_def as_bytes_def)
  have "\<exists>k. read_files run_env (ck_files console_checked) (at_op console_objects n)
      = (Inr [(CONFIG, as_bytes ''old''), (ANCHOR, as_bytes ''ca''), (CERT, as_bytes ''pem''), (KEY, console_key), (IDENTITY, as_bytes ''{}'')],
         at_op console_objects k)"
    by (simp add: REQUIRED_def read_unshared_def READ_LIMIT_def Let_def guard_def size run run_ops)
  then show ?thesis
    by (auto simp: read_each_file_def taken_def legacy_config_run anchor_run identity_run run_request_def run_verified_def run)
qed

lemma restrict_run: "\<exists>k. restrict_files run_env console_checked (at_op console_objects n) = (Inr (), at_op console_objects k)"
  by (simp add: restrict_files_def restrict_file_def check_links_def REQUIRED_def Let_def guard_def run run_ops)

section \<open>Staging\<close>

lemma same_filter: "find_object path obs = None \<Longrightarrow> filter (\<lambda>x. \<not> eq_ignore_ascii_case (ob_path x) path) obs = obs"
  "find_object path obs = None \<Longrightarrow> set_object path f obs = obs"
  by (auto simp: find_object_None set_object_def filter_id_conv intro: map_idI)

lemma create_run [run]:
  assumes "find_object path obs = None"
  shows "create_new_file sample_env path sddl bs (at_op obs n) = (Inr (), at_op (console_object path 0x80 bs # obs) (Suc (Suc n)))"
    "create_new_directory sample_env path sddl (at_op obs n) = (Inr (), at_op (console_object path 0x10 [] # obs) (Suc n))"
proof -
  have "new_file sample_env k path sample_descriptor [] = console_object path 0x80 []" "new_directory sample_env k path sample_descriptor = console_object path 0x10 []" for k
    by (simp_all add: new_file_def new_directory_def console_object_def sample_env_def sample_info_def FILE_ATTRIBUTE_DIRECTORY_def)
  moreover have "set_object path (\<lambda>ob. ob\<lparr>ob_bytes := bs\<rparr>) (console_object path 0x80 [] # obs) = console_object path 0x80 bs # obs"
    using same_filter [OF assms] by (simp add: set_object_def console_object_def)
  ultimately show "create_new_file sample_env path sddl bs (at_op obs n) = (Inr (), at_op (console_object path 0x80 bs # obs) (Suc (Suc n)))"
    "create_new_directory sample_env path sddl (at_op obs n) = (Inr (), at_op (console_object path 0x10 [] # obs) (Suc n))"
    using same_filter(1) [OF assms] assms
    by (simp_all add: create_new_file_def create_new_directory_def create_file_call_def create_directory_call_def write_and_sync_def from_sddl_def
        put_object_def run)
qed

definition staged_objects :: "wobject list" where
  "staged_objects =
     (let dir = staging run_paths; identity_dir = win_join dir IDENTITY_DIRECTORY
      in [console_object (win_join identity_dir IDENTITY) 0x80 (as_bytes ''{}''), console_object (win_join identity_dir KEY) 0x80 console_key,
          console_object (win_join identity_dir CERT) 0x80 (as_bytes ''pem''), console_object identity_dir 0x10 [],
          console_object (win_join dir ANCHOR) 0x80 (as_bytes ''ca''), console_object (win_join dir CONFIG) 0x80 (as_bytes ''new''),
          console_object (win_join dir RECORD) 0x80 (as_bytes ''{}''), console_object dir 0x10 []] @ console_objects)"

lemma find_Cons [run]: "find_object path (console_object q attributes bs # obs)
  = (if eq_ignore_ascii_case q path then Some (console_object q attributes bs) else find_object path obs)"
  by (simp add: find_object_def object_simps)

lemma staging_absent [run]: "find_object (win_join (staging run_paths) r) console_objects = None"
  by (auto simp: find_object_None console_objects_def object_simps paths_under_def Let_def win_join_def staging_def eq_ignore_ascii_case_def ascii_lower_def)

lemma same_join [run]: "eq_ignore_ascii_case (win_join dir a) (win_join dir b) \<longleftrightarrow> eq_ignore_ascii_case a b"
  "\<not> eq_ignore_ascii_case (win_join dir a) dir" "\<not> eq_ignore_ascii_case dir (win_join dir a)"
  "eq_ignore_ascii_case (win_join (win_join dir a) b) (win_join dir c) \<longleftrightarrow> eq_ignore_ascii_case (win_join a b) c"
  "eq_ignore_ascii_case (win_join dir c) (win_join (win_join dir a) b) \<longleftrightarrow> eq_ignore_ascii_case c (win_join a b)"
  "\<not> eq_ignore_ascii_case dir (win_join (win_join dir a) b)" "\<not> eq_ignore_ascii_case (win_join (win_join dir a) b) dir"
  by (auto simp: win_join_def eq_ignore_ascii_case_def dest: arg_cong [of _ _ length])

lemma same_literal [run]: "eq_ignore_ascii_case (c # cs) (d # ds) \<longleftrightarrow> ascii_lower c = ascii_lower d \<and> eq_ignore_ascii_case cs ds"
  "eq_ignore_ascii_case [] [] = True" "eq_ignore_ascii_case (c # cs) [] = False" "eq_ignore_ascii_case [] (d # ds) = False"
  "eq_ignore_ascii_case (win_join (c # cs) b) (d # ds) \<longleftrightarrow> ascii_lower c = ascii_lower d \<and> eq_ignore_ascii_case (win_join cs b) ds"
  "eq_ignore_ascii_case (d # ds) (win_join (c # cs) b) \<longleftrightarrow> ascii_lower c = ascii_lower d \<and> eq_ignore_ascii_case ds (win_join cs b)"
  "eq_ignore_ascii_case (win_join (c # cs) b) (win_join (c # cs) a) \<longleftrightarrow> eq_ignore_ascii_case b a"
  by (auto simp: eq_ignore_ascii_case_def win_join_def)

lemma staging_deep [run]: "find_object (win_join (win_join (staging run_paths) a) b) console_objects = None"
  using staging_absent [of "win_join a b"] by (simp add: win_join_def)

definition run_record :: migration_record where
  "run_record = \<lparr>mr_choice = Remove, mr_fingerprints = [''sha256:01''], mr_agent_id = ''a'',
     mr_key_fingerprint = pubkey_fingerprint sample_keys (replicate 32 0), mr_enrolling_account = None,
     mr_files = sort_key fst (map (\<lambda>name. (name, file_id_text \<lparr>id_volume = 7, id_index = 9\<rparr>)) REQUIRED), mr_reversal_pending = False, mr_copies_not_reached = []\<rparr>"

lemma record_run: "record_of run_env run_request Fresh console_checked run_verified = Inr run_record"
  by (simp add: record_of_def run_request_def run_verified_def run_record_def comp_def)

lemma generated_run: "generated_config run_env text = Inr ''new''"
  by (simp add: generated_config_def run_env_def run_document_def with_table_def update_key_def)

lemma staged_find [run]:
  "find_object (ip_product_root run_paths) staged_objects = Some (console_object (ip_product_root run_paths) 0x10 [])"
  "find_object (ip_data_root run_paths) staged_objects = Some (console_object (ip_data_root run_paths) 0x10 [])"
  "find_object (legacy run_paths) staged_objects = None"
  "find_object (staging run_paths) staged_objects = Some (console_object (staging run_paths) 0x10 [])"
  "find_object (win_join (staging run_paths) RECORD) staged_objects = Some (console_object (win_join (staging run_paths) RECORD) 0x80 (as_bytes ''{}''))"
  "find_object (win_join (staging run_paths) CONFIG) staged_objects = Some (console_object (win_join (staging run_paths) CONFIG) 0x80 (as_bytes ''new''))"
  "find_object (win_join (staging run_paths) ANCHOR) staged_objects = Some (console_object (win_join (staging run_paths) ANCHOR) 0x80 (as_bytes ''ca''))"
  "find_object (win_join (staging run_paths) IDENTITY_DIRECTORY) staged_objects = Some (console_object (win_join (staging run_paths) IDENTITY_DIRECTORY) 0x10 [])"
  "find_object (win_join (win_join (staging run_paths) IDENTITY_DIRECTORY) CERT) staged_objects
     = Some (console_object (win_join (win_join (staging run_paths) IDENTITY_DIRECTORY) CERT) 0x80 (as_bytes ''pem''))"
  "find_object (win_join (win_join (staging run_paths) IDENTITY_DIRECTORY) KEY) staged_objects
     = Some (console_object (win_join (win_join (staging run_paths) IDENTITY_DIRECTORY) KEY) 0x80 console_key)"
  "find_object (win_join (win_join (staging run_paths) IDENTITY_DIRECTORY) IDENTITY) staged_objects
     = Some (console_object (win_join (win_join (staging run_paths) IDENTITY_DIRECTORY) IDENTITY) 0x80 (as_bytes ''{}''))"
  by (simp_all add: staged_objects_def Let_def find_object_def console_objects_def console_object_def paths_under_def win_join_def staging_def legacy_def
      eq_ignore_ascii_case_def ascii_lower_def)

lemma staged_names [run]:
  "names_in (ip_product_root run_paths) staged_objects = [''agent.migrating'', ''agent'']"
  "names_in (ip_data_root run_paths) staged_objects = REQUIRED"
  by (simp_all add: names_in_def staged_objects_def console_objects_def console_object_def paths_under_def Let_def win_join_def staging_def under_def
      eq_ignore_ascii_case_def ascii_lower_def REQUIRED_def)

lemma installed_config_run: "check_installed_config run_paths path (run_config (ip_identity_dir run_paths)) = Inr ()"
  by (simp add: check_installed_config_def check_service_config_def run_config_def run_enrollment_def guard_def Let_def)
    (simp add: paths_under_def Let_def is_fixed_path_def win_join_def)

lemma policies_run [run]: "mc_configuration migration_custody_system = policy_configuration" "mc_identity migration_custody_system = policy_system_only"
  by (simp_all add: migration_custody_system_def)

lemma load_run: "installed_load sample_env (me_libs run_env) (run_config dir\<lparr>ac_enrollment := Some (staged_enrollment run_env enr)\<rparr>) (at_op staged_objects n)
   = (Inr \<lparr>id_agent_id = ''a'', id_keypair = from_secret_bytes sample_keys (replicate 32 0), id_certificate_pem = ''pem''\<rparr>, at_op staged_objects (Suc (Suc (Suc (Suc n)))))"
  by (simp add: installed_load_def load_identity_def staged_enrollment_def fs_read_to_string_def fs_read_file_def fs_exists_def unseal_seed_def
      check_fingerprint_def guard_def texts_run libs_run Let_def KEY_LEN_def run)

lemma record_simps: "mr_fingerprints run_record = [''sha256:01'']" "mr_agent_id run_record = ''a''"
  "mr_key_fingerprint run_record = pubkey_fingerprint sample_keys (replicate 32 0)"
  by (simp_all add: run_record_def)

lemma check_staged_run: "\<exists>k. check_staged run_env run_record (at_op staged_objects n) = (Inr (), at_op staged_objects k)"
proof -
  have "ac_enrollment (run_config (ip_identity_dir run_paths)) = Some (run_enrollment (ip_identity_dir run_paths))"
    by (simp add: run_config_def)
  then show ?thesis
    by (simp add: check_staged_def read_staged_def Let_def guard_def staged_record_path_def texts_run config_run installed_config_run anchor_run
      record_simps IDENTITY_FILES_def load_run libs_run run run_ops)
qed

lemma stage_run: "\<exists>k. record_and_stage run_env run_request Fresh console_checked run_verified (at_op console_objects n)
    = (Inr run_record, at_op staged_objects k)"
proof -
  have pem: "me_pem_encode run_env certs = ''ca''" for certs
    by (simp add: run_env_def)
  have v: "vf_certificate run_verified = as_bytes ''pem''" "vf_sealed_key run_verified = console_key" "vf_identity run_verified = as_bytes ''{}''"
    by (simp_all add: run_verified_def)
  obtain n' where "record_and_stage run_env run_request Fresh console_checked run_verified (at_op console_objects n)
     = io_bind (failing (check_staged run_env run_record)) (\<lambda>_. io_lift (Inr run_record)) (at_op staged_objects n')"
    by (simp add: record_and_stage_def record_run write_record_first_def stage_file_def generated_run staged_record_path_def libs_run Let_def
       ascii_lower_def pem v run flip: staged_objects_def [unfolded Let_def, simplified])
  with check_staged_run [of n'] show ?thesis
    by (auto simp: run)
qed

section \<open>The commit and the start\<close>

lemma rename_run: "find_object a obs \<noteq> None \<Longrightarrow> find_object b obs = None \<Longrightarrow>
    custody_rename sample_env a b wait (at_op obs n) = (Inr (), at_op (move_tree a b obs) (Suc (Suc n)))"
  by (simp add: custody_rename_def rename_call_def run)

definition moved_objects :: "wobject list" where
  "moved_objects = move_tree (ip_data_root run_paths) (legacy run_paths) staged_objects"

definition installed_objects :: "wobject list" where
  "installed_objects = move_tree (staging run_paths) (ip_data_root run_paths) moved_objects"

lemma moved_find:
  "find_object (ip_data_root run_paths) moved_objects = None" "find_object (staging run_paths) moved_objects \<noteq> None"
  by (simp_all add: moved_objects_def move_tree_def staged_objects_def Let_def find_object_def console_objects_def console_object_def paths_under_def
      win_join_def staging_def legacy_def under_def eq_ignore_ascii_case_def ascii_lower_def)

lemma installed_find:
  "find_object (ip_product_root run_paths) installed_objects = Some (console_object (ip_product_root run_paths) 0x10 [])"
  "find_object (ip_data_root run_paths) installed_objects = Some (console_object (ip_data_root run_paths) 0x10 [])"
  by (simp_all add: installed_objects_def moved_objects_def move_tree_def staged_objects_def Let_def find_object_def console_objects_def console_object_def
      paths_under_def win_join_def staging_def legacy_def under_def eq_ignore_ascii_case_def ascii_lower_def)

lemma commit_run: "\<exists>k. commit run_env run_record console_checked (at_op staged_objects n) = (Inr (), at_op installed_objects k)"
proof -
  have again: "check_names_again run_env console_checked (at_op staged_objects n) = (Inr (), at_op staged_objects (Suc (Suc (Suc (Suc n)))))"
    by (simp add: check_names_again_def check_root_entries_def data_root_names_def custody_entries_def known_name_def REQUIRED_def required_names_def Let_def
        ascii_lower_def run)
  have "custody_rename sample_env (ip_data_root run_paths) (legacy run_paths) wait (at_op staged_objects m)
      = (Inr (), at_op moved_objects (Suc (Suc m)))"
    "custody_rename sample_env (staging run_paths) (ip_data_root run_paths) wait (at_op moved_objects m) = (Inr (), at_op installed_objects (Suc (Suc m)))" for wait m
    using rename_run [of "ip_data_root run_paths" staged_objects "legacy run_paths"] rename_run [OF moved_find(2,1)]
    by (simp_all add: staged_find moved_objects_def [symmetric] installed_objects_def)
  with again show ?thesis
    by (simp add: commit_def io_match_def Let_def run)
qed

lemma directories_run: "\<exists>k. check_data_directories run_env False (at_op installed_objects n) = (Inr (), at_op installed_objects k)"
  by (simp add: check_data_directories_def installed_find migration_custody_system_def policy_configuration_def Let_def run run_ops)

lemma route_run: "\<exists>k. route run_env run_request Fresh (io_lift (Inr ())) (at_op console_objects n) = (Inr Committed, at_op installed_objects k)"
proof -
  obtain a where a: "close_directories run_env (at_op console_objects n) = (Inr (), at_op console_objects a)"
    using close_run by blast
  obtain b where b: "check_what_is_there run_env Fresh (at_op console_objects a) = (Inr console_checked, at_op console_objects b)"
    using check_run by blast
  obtain c where c: "read_each_file run_env run_request Fresh console_checked (at_op console_objects b) = (Inr run_verified, at_op console_objects c)"
    using read_run by blast
  obtain d where d: "restrict_files run_env console_checked (at_op console_objects c) = (Inr (), at_op console_objects d)"
    using restrict_run by blast
  obtain e where e: "record_and_stage run_env run_request Fresh console_checked run_verified (at_op console_objects d) = (Inr run_record, at_op staged_objects e)"
    using stage_run by blast
  obtain f where f: "commit run_env run_record console_checked (at_op staged_objects e) = (Inr (), at_op installed_objects f)"
    using commit_run by blast
  from a b c d e f directories_run [of f] show ?thesis
    by (simp only: route_def io_run if_False migration_attempt.distinct) auto
qed

lemma prepare_run: "\<exists>k. prepare run_env (Some run_request) (io_lift (Inr ())) (at_op console_objects 0) = (Inr Committed, at_op installed_objects k)"
  using route_run by (simp add: prepare_def is_there_def counts_def IDENTITY_FILES_def run run_ops)

end
