(* ===== verification/Store_Steps.thy ===== *)
theory Store_Steps
  imports Custody
begin

text \<open>
  A relation between the objects before and after a computation on the store,
  composed along the computation: what every call keeps, the whole computation
  keeps. The relations of interest are equality, that nothing changes but at
  one path, and that nothing changes outside one directory.
\<close>

section \<open>Composition\<close>

definition steps :: "(wobject list \<Rightarrow> wobject list \<Rightarrow> bool) \<Rightarrow> (store \<Rightarrow> 'r \<times> store) \<Rightarrow> bool" where
  "steps rel m \<longleftrightarrow> (\<forall>s. rel (st_objects s) (st_objects (snd (m s))))"

lemma stepsD: "steps rel m \<Longrightarrow> m s = (r, s') \<Longrightarrow> rel (st_objects s) (st_objects s')"
  unfolding steps_def by (metis snd_conv)

lemma stepsI: "(\<And>s r s'. m s = (r, s') \<Longrightarrow> rel (st_objects s) (st_objects s')) \<Longrightarrow> steps rel m"
  unfolding steps_def by (metis prod.collapse)

lemma steps_mono: "steps rel m \<Longrightarrow> (\<And>a b. rel a b \<Longrightarrow> rel' a b) \<Longrightarrow> steps rel' m"
  by (auto simp: steps_def)

locale store_relation =
  fixes rel :: "wobject list \<Rightarrow> wobject list \<Rightarrow> bool"
  assumes same: "rel obs obs"
    and trans: "rel a b \<Longrightarrow> rel b c \<Longrightarrow> rel a c"
begin

lemma quiet: "steps (=) m \<Longrightarrow> steps rel m"
  by (auto simp: steps_def intro: same dest: spec)

lemma lift: "steps rel (io_lift r)"
  by (simp add: steps_def io_lift_def same)

lemma query: "steps rel (win_query env text f)"
  by (simp add: steps_def win_query_def same split: fate.splits)

lemma call: "(\<And>obs. rel obs (effect obs)) \<Longrightarrow> steps rel (win_call env text effect)"
  by (auto simp: steps_def win_call_def Let_def same split: fate.splits)

lemma bind: "steps rel m \<Longrightarrow> (\<And>x. steps rel (f x)) \<Longrightarrow> steps rel (io_bind m f)"
  by (rule stepsI, erule io_bind_cases) (blast dest: stepsD intro: trans)+

lemma map_err: "steps rel m \<Longrightarrow> steps rel (io_map_err g m)"
  by (auto simp: steps_def io_map_err_def split: prod.splits) (metis snd_conv)

lemma each: "(\<And>x. x \<in> set xs \<Longrightarrow> steps rel (f x)) \<Longrightarrow> steps rel (io_each f xs)"
  by (induction xs) (auto intro: lift bind)

lemma within: "steps rel m \<Longrightarrow> steps rel (bounded env wait path m)"
  unfolding steps_def bounded_def Let_def
  by (auto simp: same split: verdict.splits thread_fate.splits) (metis tick_objects)+

lemma reading: "reads m \<Longrightarrow> steps rel m"
  by (auto simp: reads_def steps_def same)

end

interpretation nothing: store_relation "(=)"
  by unfold_locales auto

section \<open>Changes at one path\<close>

interpretation at_path: store_relation "untouched p" for p
  by unfold_locales (auto simp: untouched_def)

lemma create_file_call_at: "steps (untouched path) (create_file_call env path d)"
  by (rule stepsI) (use create_untouched in blast)

lemma write_and_sync_at: "steps (untouched path) (write_and_sync env path bs)"
proof (rule stepsI)
  fix s r s'
  assume "write_and_sync env path bs s = (r, s')"
  from win_call_cases [OF this [unfolded write_and_sync_def Let_def]] show "untouched path (st_objects s) (st_objects s')"
    by (auto simp: untouched_def store)
qed

lemma create_new_file_at: "steps (untouched path) (create_new_file env path sddl bs)"
  unfolding create_new_file_def
  by (intro at_path.bind at_path.lift at_path.map_err create_file_call_at write_and_sync_at)

lemma put_at: "same_path (ob_path ob) path \<Longrightarrow> untouched path obs (put_object ob obs)"
  by (auto simp: untouched_def store eq_ignore_ascii_case_def)

lemma create_new_directory_at: "steps (untouched path) (create_new_directory env path sddl)"
proof -
  have "steps (untouched path) (create_directory_call env path d)" for d
  proof (rule stepsI)
    fix s r s'
    assume "create_directory_call env path d s = (r, s')"
    then show "untouched path (st_objects s) (st_objects s')"
      using win_call_cases [of env id "put_object (new_directory env (st_ops s) path d)" s r s']
        put_at [of "new_directory env (st_ops s) path d" path]
      by (auto simp: create_directory_call_def new_directory_def eq_ignore_ascii_case_def split: if_splits)
  qed
  then show ?thesis
    unfolding create_new_directory_def by (intro at_path.bind at_path.lift at_path.map_err)
qed

lemma delete_file_call_at: "steps (untouched path) (delete_file_call env path)"
  by (rule stepsI) (use delete_untouched in blast)

section \<open>Paths\<close>

abbreviation lower :: "string \<Rightarrow> string" where
  "lower \<equiv> map ascii_lower"

lemma under_iff: "under dir p \<longleftrightarrow> prefix (lower dir @ [bslash]) (lower p)"
proof -
  have [simp]: "ascii_lower bslash = bslash"
    by (simp add: ascii_lower_def)
  have "under dir p \<longleftrightarrow> lower (take (length dir + 1) p) = lower dir @ [bslash]"
    unfolding under_def eq_ignore_ascii_case_def by (auto dest: arg_cong [of _ _ length])
  also have "\<dots> \<longleftrightarrow> take (length (lower dir @ [bslash])) (lower p) = lower dir @ [bslash]"
    by (simp add: take_map)
  also have "\<dots> \<longleftrightarrow> prefix (lower dir @ [bslash]) (lower p)"
    by (metis append_eq_conv_conj prefix_def)
  finally show ?thesis .
qed

definition inside :: "string \<Rightarrow> string \<Rightarrow> bool" where
  "inside dir p \<longleftrightarrow> same_path p dir \<or> under dir p"

lemma inside_lower: "inside dir p \<longleftrightarrow> lower p = lower dir \<or> prefix (lower dir @ [bslash]) (lower p)"
  by (simp add: inside_def under_iff eq_ignore_ascii_case_def)

lemma inside_same: "inside dir p \<Longrightarrow> same_path p q \<Longrightarrow> inside dir q"
  by (simp add: inside_lower eq_ignore_ascii_case_def)

lemma outside_not_same: "\<not> inside dir p \<Longrightarrow> inside dir q \<Longrightarrow> \<not> same_path p q"
  using inside_same same_path_sym by blast

section \<open>Changes inside one directory\<close>

text \<open>An object's information and bytes; its security may change.\<close>

definition content :: "string \<Rightarrow> wobject list \<Rightarrow> (file_info \<times> bytes) option" where
  "content p obs = map_option (\<lambda>ob. (ob_info ob, ob_bytes ob)) (find_object p obs)"

definition kept_outside :: "string \<Rightarrow> wobject list \<Rightarrow> wobject list \<Rightarrow> bool" where
  "kept_outside dir obs obs' \<longleftrightarrow> (\<forall>p. \<not> inside dir p \<longrightarrow> content p obs' = content p obs)"

interpretation outside: store_relation "kept_outside dir" for dir
  by unfold_locales (auto simp: kept_outside_def)

lemma untouched_outside: "untouched p a b \<Longrightarrow> inside dir p \<Longrightarrow> kept_outside dir a b"
  by (simp add: untouched_def kept_outside_def content_def outside_not_same)

lemma steps_at_outside: "steps (untouched p) m \<Longrightarrow> inside dir p \<Longrightarrow> steps (kept_outside dir) m"
  by (erule steps_mono) (rule untouched_outside)

lemma set_object_kept:
  assumes "\<And>x. ob_path (f x) = ob_path x" "\<And>x. ob_info (f x) = ob_info x" "\<And>x. ob_bytes (f x) = ob_bytes x"
  shows "content p (set_object q f obs) = content p obs"
  using find_set [of f p q obs] assms by (auto simp: content_def option.map_comp comp_def)

lemma set_security_outside: "steps (kept_outside dir) (set_security env handle path sddl wait)"
  unfolding set_security_def Let_def
  by (intro outside.within outside.bind outside.lift outside.call) (simp add: kept_outside_def set_object_kept)

lemma find_filter_kept:
  assumes "\<And>x. x \<in> set obs \<Longrightarrow> same_path (ob_path x) p \<Longrightarrow> P x"
  shows "find_object p (filter P obs) = find_object p obs"
  using assms by (induction obs) (auto simp: find_object_def)

lemma inside_trans: "inside dir p \<Longrightarrow> inside p q \<Longrightarrow> inside dir q"
  unfolding inside_lower by (auto simp: prefix_def)

lemma filter_outside:
  assumes "\<And>x. \<not> inside dir (ob_path x) \<Longrightarrow> P x"
  shows "kept_outside dir obs (filter P obs)"
proof -
  have "find_object p (filter P obs) = find_object p obs" if "\<not> inside dir p" for p
    using that inside_same by (intro find_filter_kept assms) blast
  then show ?thesis
    by (simp add: kept_outside_def content_def)
qed

lemma replace_outside:
  assumes "inside dir path" "inside dir temporary" "\<not> same_path temporary path"
  shows "steps (kept_outside dir) (replace_keeping_security env path temporary bs po)"
proof (rule stepsI)
  fix s r s'
  assume *: "replace_keeping_security env path temporary bs po s = (r, s')"
  have "find_object p (st_objects s') = find_object p (st_objects s)" if "\<not> inside dir p" for p
    by (intro replace_frame [OF * assms(3)] outside_not_same [OF that] assms)
  then show "kept_outside dir (st_objects s) (st_objects s')"
    by (simp add: kept_outside_def content_def)
qed

section \<open>Moving a directory\<close>

text \<open>A path in a directory: the directory itself or below it.\<close>

definition below :: "string \<Rightarrow> bool" where
  "below r \<longleftrightarrow> r = [] \<or> ascii_lower (hd r) = bslash"

lemma lower_bslash [simp]: "ascii_lower bslash = bslash"
  by (simp add: ascii_lower_def)

lemma inside_append: "below r \<Longrightarrow> inside dir (dir @ r)"
  by (cases r) (auto simp: below_def inside_lower)

lemma moved_path:
  assumes "inside a q"
  shows "lower (b @ drop (length a) q) = lower (b @ r) \<longleftrightarrow> lower q = lower (a @ r)"
  using assms by (auto simp: inside_lower prefix_def drop_map [symmetric] dest: arg_cong [of _ _ "drop (length a)"])

lemma find_move_to:
  assumes "\<forall>ob \<in> set obs. \<not> inside b (ob_path ob)" "below r"
  shows "content (b @ r) (move_tree a b obs) = content (a @ r) obs"
  using assms(1)
proof (induction obs)
  case (Cons x obs)
  show ?case
  proof (cases "inside a (ob_path x)")
    case True
    with Cons moved_path [OF True, of b r] show ?thesis
      by (simp add: content_def find_object_def move_tree_def inside_def eq_ignore_ascii_case_def)
  next
    case False
    have "\<not> same_path (ob_path x) (b @ r)" "\<not> same_path (ob_path x) (a @ r)"
      using Cons.prems by (auto intro!: outside_not_same [OF _ inside_append [OF assms(2)]] False)
    with Cons False show ?thesis
      by (simp add: content_def find_object_def move_tree_def inside_def)
  qed
qed (simp add: content_def move_tree_def find_object_def)

lemma inside_below:
  assumes "inside a q"
  shows "below (drop (length a) q)"
proof (cases "drop (length a) q")
  case (Cons c r)
  have "lower (drop (length a) q) = drop (length (lower a)) (lower q)"
    by (simp add: drop_map)
  with assms Cons show ?thesis
    by (auto simp: inside_lower prefix_def below_def)
qed (simp add: below_def)

lemma move_tree_cases:
  assumes "x \<in> set (move_tree a b obs)"
  obtains (moved) y where "y \<in> set obs" "inside a (ob_path y)" "x = y\<lparr>ob_path := b @ drop (length a) (ob_path y)\<rparr>"
    | (left) "x \<in> set obs" "\<not> inside a (ob_path x)"
  using assms by (auto simp: move_tree_def inside_def split: if_splits)

lemma moved_from:
  assumes "\<And>r. below r \<Longrightarrow> \<not> inside a (b @ r)" "x \<in> set (move_tree a b obs)"
  shows "\<not> inside a (ob_path x)"
  using assms(2) by (cases rule: move_tree_cases) (use assms(1) [OF inside_below] in auto)

lemma find_move_else:
  assumes "\<not> inside a p" "\<not> inside b p"
  shows "find_object p (move_tree a b obs) = find_object p obs"
proof (induction obs)
  case (Cons x obs)
  show ?case
  proof (cases "inside a (ob_path x)")
    case True
    then have "\<not> same_path (b @ drop (length a) (ob_path x)) p" "\<not> same_path (ob_path x) p"
      using assms inside_append [OF inside_below [OF True]] inside_same by blast+
    with Cons True show ?thesis
      by (simp add: find_object_def move_tree_def inside_def)
  next
    case False
    with Cons show ?thesis
      by (simp add: find_object_def move_tree_def inside_def)
  qed
qed (simp add: move_tree_def)

end
