(* ===== verification/Migration_Props.thy ===== *)
theory Migration_Props
  imports Migration_Run Store_Steps
begin

text \<open>
  What the migration guarantees (\<open>service/migration.rs\<close>): no start, however it
  fails or crashes and however many of them follow each other, loses a file of
  the console installation; a start that commits installs the console's
  identity; and the pass over the old copies deletes only what the migration
  recorded.
\<close>

section \<open>Composition over the migration's combinators\<close>

context store_relation
begin

lemma catch: "steps rel m \<Longrightarrow> (\<And>e. steps rel (h e)) \<Longrightarrow> steps rel (io_catch m h)"
  unfolding steps_def io_catch_def
  by (auto split: prod.splits sum.splits) (metis snd_conv trans)+

lemma watch: "steps rel (watch_at e p)"
  by (simp add: steps_def watch_at_def same)

lemma cond: "steps rel m \<Longrightarrow> steps rel n \<Longrightarrow> steps rel (if b then m else n)"
  by simp

lemma opt: "steps rel m \<Longrightarrow> (\<And>x. steps rel (f x)) \<Longrightarrow> steps rel (case v of None \<Rightarrow> m | Some x \<Rightarrow> f x)"
  by (cases v) auto

lemma pair: "(\<And>a b. steps rel (f a b)) \<Longrightarrow> steps rel (case v of (a, b) \<Rightarrow> f a b)"
  by (cases v) auto

lemma injection: "(\<And>x. steps rel (f x)) \<Longrightarrow> (\<And>reason. steps rel (g reason)) \<Longrightarrow> steps rel h \<Longrightarrow>
    steps rel (case r of Inr x \<Rightarrow> f x | Inl Crash \<Rightarrow> h | Inl (Failure reason) \<Rightarrow> g reason)"
  by (auto split: sum.split injected.split)

lemma matching: "steps rel m \<Longrightarrow> (\<And>r. steps rel (h r)) \<Longrightarrow> steps rel (io_match m h)"
  unfolding steps_def io_match_def by (auto split: prod.splits) (metis snd_conv trans)

lemma best: "steps rel m \<Longrightarrow> steps rel (best_effort m)"
  by (simp add: steps_def best_effort_def)

end

lemma quiet_has_security [simp]: "steps (=) (has_security env path po wait)"
proof (rule stepsI)
  fix s r s'
  assume *: "has_security env path po wait s = (r, s')"
  have "st_objects (snd (check_security env handle path po s1)) = st_objects s1" for handle s1
    using reads_checks(4) by (simp add: reads_def)
  moreover have "st_objects (snd (open_existing env path wait s)) = st_objects s"
    using reads_open(1) by (simp add: reads_def)
  ultimately show "st_objects s = st_objects s'"
    using * by (auto simp: has_security_def split: prod.splits sum.splits option.splits) (metis snd_conv)+
qed

lemma quiet_plain_directory [simp]: "steps (=) (is_plain_directory env path wait)"
proof (rule stepsI)
  fix s r s'
  assume *: "is_plain_directory env path wait s = (r, s')"
  have "st_objects (snd (check_shape env handle path Directory s1)) = st_objects s1" for handle s1
    using reads_checks(2) by (simp add: reads_def)
  moreover have "st_objects (snd (open_existing env path wait s)) = st_objects s"
    using reads_open(1) by (simp add: reads_def)
  ultimately show "st_objects s = st_objects s'"
    using * by (auto simp: is_plain_directory_def split: prod.splits sum.splits option.splits) (metis snd_conv)+
qed

lemma quiet_filter_io: "(\<And>x. steps (=) (f x)) \<Longrightarrow> steps (=) (filter_io f xs)"
proof (induction xs)
  case (Cons x xs)
  show ?case
  proof (rule stepsI)
    fix s r s'
    assume "filter_io f (x # xs) s = (r, s')"
    then obtain k s1 ys where "f x s = (k, s1)" "filter_io f xs s1 = (ys, s')"
      by (auto split: prod.splits)
    then show "st_objects s = st_objects s'"
      using stepsD [OF Cons.prems] stepsD [OF Cons.IH [OF Cons.prems]] by metis
  qed
qed (simp add: steps_def)

lemma quiet_any_io: "(\<And>x. steps (=) (f x)) \<Longrightarrow> steps (=) (any_io f xs)"
proof (induction xs)
  case (Cons x xs)
  show ?case
  proof (rule stepsI)
    fix s r s'
    assume *: "any_io f (x # xs) s = (r, s')"
    obtain k s1 where f: "f x s = (k, s1)" by (cases "f x s")
    with * have "(k \<and> s1 = s') \<or> any_io f xs s1 = (r, s')" by (cases k) auto
    then show "st_objects s = st_objects s'"
      using stepsD [OF Cons.prems f] stepsD [OF Cons.IH [OF Cons.prems]] by auto
  qed
qed (simp add: steps_def)

lemma quiet_with_state [simp]: "steps (=) (with_state e line)"
proof (rule stepsI)
  fix s r s'
  assume w: "with_state e line s = (r, s')"
  let ?wait = "min (me_wait e) REFUSAL_READ_WAIT" and ?p = "me_paths e"
  let ?g = "\<lambda>(path, plain) s. if plain then has_security (me_win e) path (mc_configuration (me_custody e)) ?wait s else (False, s)"
  have g: "steps (=) (?g x)" for x
    using quiet_has_security by (cases x) (auto simp: steps_def)
  obtain root s1 where 1: "is_plain_directory (me_win e) (ip_product_root ?p) ?wait s = (root, s1)" by fastforce
  obtain pl s2 where 2: "(if root then is_plain_directory (me_win e) (ip_data_root ?p) ?wait s1 else (False, s1)) = (pl, s2)" by fastforce
  obtain ds s3 where 3: "filter_io ?g [(ip_product_root ?p, True), (ip_data_root ?p, root)] s2 = (ds, s3)" by fastforce
  let ?f = "\<lambda>name s. if pl then has_security (me_win e) (win_join (ip_data_root ?p) name) (mc_configuration (me_custody e)) ?wait s else (False, s)"
  have f: "steps (=) (?f name)" for name
    using g [of "(win_join (ip_data_root ?p) name, pl)"] by simp
  obtain fs s4 where 4: "filter_io ?f (REQUIRED @ [TEMPORARY]) s3 = (fs, s4)" by fastforce
  have "st_objects s1 = st_objects s2"
    using 2 stepsD [OF quiet_plain_directory] by (auto split: if_splits)
  moreover have "s' = s4"
    using w unfolding with_state_def Let_def by (simp only: 1 2 3 4 split_conv) simp
  ultimately show "st_objects s = st_objects s'"
    using stepsD [OF quiet_plain_directory 1] stepsD [OF quiet_filter_io [OF g] 3] stepsD [OF quiet_filter_io [OF f] 4] by simp
qed

lemma quiet_in_place [simp]: "steps (=) (in_place e code line)"
  using quiet_with_state [of e line] by (auto simp: steps_def in_place_def split: prod.splits) (metis snd_conv)

section \<open>What only reads\<close>

lemmas quiet_rules = nothing.bind nothing.catch nothing.lift nothing.map_err nothing.watch nothing.query nothing.within nothing.each
  nothing.cond nothing.opt nothing.pair

lemma quiet_cut_in_place [simp]: "steps (=) (cut_in_place e code render c)"
  by (cases c) (simp_all add: cut_in_place_def nothing.lift)

lemma quiet_reads [simp]: "reads m \<Longrightarrow> steps (=) m"
  by (rule nothing.reading)

lemma quiet_is_there [simp]: "steps (=) (is_there e path)"
  by (simp add: steps_def is_there_def split: fate.splits)

lemma quiet_counts [simp]: "steps (=) (counts e path)"
  using quiet_reads [OF reads_custody(1)] by (auto simp: steps_def counts_def split: prod.splits) (metis snd_conv)

lemma quiet_staged_record [simp]: "steps (=) (staged_record e)"
proof (rule stepsI)
  fix s r s'
  assume *: "staged_record e s = (r, s')"
  obtain x s1 where x: "read_checked_within (me_win e) (staged_record_path e) (mc_configuration (me_custody e)) (me_wait e) s = (x, s1)"
    by fastforce
  with * have "s' = s1"
    by (auto simp: staged_record_def split: sum.splits option.splits unread.splits)
  with stepsD [OF quiet_reads [OF reads_custody(4)] x] show "st_objects s = st_objects s'" by simp
qed

lemma quiet_data_root_record [simp]: "steps (=) (data_root_record e)"
  unfolding data_root_record_def Let_def by (intro quiet_rules) simp

lemma quiet_check_data_directories [simp]: "steps (=) (check_data_directories e console)"
  unfolding check_data_directories_def Let_def by (intro quiet_rules) simp

lemma quiet_root_entries [simp]: "steps (=) (check_root_entries e staged)" "steps (=) (data_root_names e)"
  unfolding check_root_entries_def data_root_names_def by (intro quiet_rules; simp)+

lemma quiet_check_case [simp]: "steps (=) (check_case e)"
  unfolding check_case_def Let_def by (intro quiet_rules; simp)

lemma quiet_check_file [simp]: "steps (=) (check_file e path name)"
  unfolding check_file_def Let_def by (intro quiet_rules; simp)

lemma quiet_check_each [simp]: "steps (=) (check_each e names found)"
  by (induction names arbitrary: found) (auto simp: Let_def nothing.lift intro!: quiet_rules)

lemma quiet_check_what_is_there [simp]: "steps (=) (check_what_is_there e attempt)"
  unfolding check_what_is_there_def by (intro quiet_rules; simp)

lemma quiet_read_files [simp]: "steps (=) (read_files e files)"
  by (induction files) (auto simp: Let_def nothing.lift intro!: quiet_rules)

lemma quiet_read_each_file [simp]: "steps (=) (read_each_file e request attempt found)"
  unfolding read_each_file_def by (intro quiet_rules; simp)

lemma quiet_names_again [simp]: "steps (=) (check_names_again e found)"
  unfolding check_names_again_def by (intro quiet_rules; simp)

lemma quiet_fs [simp]: "steps (=) (fs_read_file env path)" "steps (=) (fs_read_to_string env path)" "steps (=) (fs_exists env path)"
  unfolding fs_read_file_def fs_read_to_string_def
  by (intro quiet_rules; simp)+ (simp add: steps_def fs_exists_def split: fate.splits)

lemma quiet_installed_load [simp]: "steps (=) (installed_load env libs config)"
proof -
  have "steps (=) (\<lambda>s. case fs_exists env path s of (there, s1) \<Rightarrow> (guard there x, s1))" for path and x :: enrollment_error
    using quiet_fs(3) [of env path] by (auto simp: steps_def split: prod.splits) (metis snd_conv)
  then show ?thesis
    unfolding installed_load_def load_identity_def Let_def by (intro quiet_rules; simp)
qed

lemma quiet_check_staged [simp]: "steps (=) (check_staged e record)"
  unfolding check_staged_def Let_def read_staged_def by (intro quiet_rules; simp)

section \<open>The three directories\<close>

abbreviation data_dir :: "string \<Rightarrow> string" where "data_dir pd \<equiv> ip_data_root (paths_under pd)"
abbreviation staging_dir :: "string \<Rightarrow> string" where "staging_dir pd \<equiv> staging (paths_under pd)"
abbreviation legacy_dir :: "string \<Rightarrow> string" where "legacy_dir pd \<equiv> legacy (paths_under pd)"

lemma dirs:
  "data_dir pd = win_join pd ''CyberGuard'' @ [bslash] @ ''agent''"
  "staging_dir pd = win_join pd ''CyberGuard'' @ [bslash] @ ''agent.migrating''"
  "legacy_dir pd = win_join pd ''CyberGuard'' @ [bslash] @ ''agent.legacy''"
  by (simp_all add: paths_under_def staging_def legacy_def win_join_def Let_def)

text \<open>None of the three holds anything of another.\<close>

lemma dirs_apart:
  assumes "below r"
  shows "\<not> inside (staging_dir pd) (data_dir pd @ r)" "\<not> inside (staging_dir pd) (legacy_dir pd @ r)"
    "\<not> inside (data_dir pd) (staging_dir pd @ r)" "\<not> inside (data_dir pd) (legacy_dir pd @ r)"
    "\<not> inside (legacy_dir pd) (data_dir pd @ r)" "\<not> inside (legacy_dir pd) (staging_dir pd @ r)"
  using assms by (cases r; simp add: dirs inside_lower below_def ascii_lower_def; auto)+

lemma below_simps [simp]: "below []" "below (bslash # r)"
  by (simp_all add: below_def)

lemma inside_join [simp]: "inside dir dir" "inside dir (win_join dir name)" "inside dir (win_join (win_join dir sub) name)"
  using inside_append [of "[]" dir] inside_append [of "bslash # name" dir] inside_append [of "bslash # sub @ bslash # name" dir]
  by (simp_all add: win_join_def)

section \<open>What changes the staging directory only\<close>

lemmas outside_rules = outside.bind outside.catch outside.lift outside.map_err outside.watch outside.query outside.within outside.each
  outside.cond outside.opt outside.pair outside.quiet

lemma close_directories_outside: "steps (kept_outside dir) (close_directories e)"
  unfolding close_directories_def close_def
  by (intro outside_rules set_security_outside; simp)

lemma restrict_files_outside: "steps (kept_outside dir) (restrict_files e found)"
  unfolding restrict_files_def restrict_file_def check_links_def Let_def
  by (intro outside_rules set_security_outside; simp)

lemma fs_remove_dir_all_outside:
  assumes "inside dir path"
  shows "steps (kept_outside dir) (fs_remove_dir_all env path)"
proof (rule stepsI)
  fix s r s'
  assume *: "fs_remove_dir_all env path s = (r, s')"
  have inner: "same_path (ob_path x) path \<Longrightarrow> inside dir (ob_path x)" "under path (ob_path x) \<Longrightarrow> inside dir (ob_path x)" for x
    using inside_trans [OF assms] unfolding inside_def by blast+
  have "steps (kept_outside dir) (win_call env render (remove_tree path))" "steps (kept_outside dir) (win_call env render (remove_some n path))"
    for n and render :: "u32 \<Rightarrow> string"
    unfolding remove_tree_def remove_some_def by (intro outside.call filter_outside; auto dest: inner dest!: in_set_takeD)+
  note this [THEN stepsD]
  with * outside.same show "kept_outside dir (st_objects s) (st_objects s')"
    by (auto simp: fs_remove_dir_all_def split: if_splits fate.splits)
qed

lemma delete_interrupted_outside:
  "steps (kept_outside (staging (me_paths e))) (delete_interrupted_staging e)"
  unfolding delete_interrupted_staging_def Let_def
  by (intro outside_rules fs_remove_dir_all_outside; simp)

lemma with_file_name_join: "list_all (\<lambda>c. \<not> separator c) name \<Longrightarrow> with_file_name (win_join dir name) other = win_join dir other"
  by (simp add: with_file_name_def win_join_def separator_def list_all_iff dropWhile_append)

lemma rewrite_outside: "steps (kept_outside (staging (me_paths e))) (rewrite e (staged_record_path e) record)"
proof -
  let ?s = "staging (me_paths e)"
  have "with_file_name (staged_record_path e) RECORD_TEMPORARY = win_join ?s RECORD_TEMPORARY"
    unfolding staged_record_path_def by (rule with_file_name_join) (simp add: separator_def)
  moreover have "\<not> same_path (win_join ?s RECORD_TEMPORARY) (staged_record_path e)"
    by (simp add: staged_record_path_def win_join_def eq_ignore_ascii_case_def)
  ultimately show ?thesis
    unfolding rewrite_def by (intro outside_rules replace_outside) (simp_all add: staged_record_path_def)
qed

lemma clear_staged_outside: "steps (kept_outside (staging (me_paths e))) (clear_staged e)"
  unfolding clear_staged_def clear_entry_def fs_is_dir_def Let_def
  by (intro outside.bind outside.map_err outside.within outside.each outside.cond outside.lift outside.query fs_remove_dir_all_outside
      steps_at_outside [OF delete_file_call_at] outside.reading reads_custody; simp)

lemma create_new_outside:
  assumes "inside dir path"
  shows "steps (kept_outside dir) (create_new_file env path sddl bs)" "steps (kept_outside dir) (create_new_directory env path sddl)"
  using steps_at_outside [OF create_new_file_at assms] steps_at_outside [OF create_new_directory_at assms] by simp_all

lemma record_and_stage_outside: "steps (kept_outside (staging (me_paths e))) (record_and_stage e request attempt found v)"
  unfolding record_and_stage_def write_record_first_def stage_file_def Let_def
  by (intro outside.bind outside.map_err outside.each outside.cond outside.lift outside.watch outside.pair create_new_outside
      rewrite_outside clear_staged_outside outside.quiet quiet_check_staged; simp add: staged_record_path_def)

section \<open>The console's files\<close>

text \<open>Files with their bytes in a directory.\<close>

definition holds :: "(string \<times> bytes) list \<Rightarrow> string \<Rightarrow> wobject list \<Rightarrow> bool" where
  "holds files dir obs \<longleftrightarrow>
     content dir obs \<noteq> None \<and> list_all (\<lambda>(name, bs). map_option snd (content (win_join dir name) obs) = Some bs) files"

text \<open>A directory that is not there has nothing below it.\<close>

definition rooted :: "string \<Rightarrow> wobject list \<Rightarrow> bool" where
  "rooted dir obs \<longleftrightarrow> (content dir obs = None \<longrightarrow> (\<forall>ob \<in> set obs. \<not> inside dir (ob_path ob)))"

text \<open>
  The abstract machine of a migration: the console's installation is in
  place, or between the renames, or replaced; its transitions are the first
  rename, the reversal and the second rename.
\<close>

datatype phase = Console | Between | Replaced

inductive migrates :: "phase \<Rightarrow> phase \<Rightarrow> bool" where
  first_rename: "migrates Console Between"
| reversal: "migrates Between Console"
| second_rename: "migrates Between Replaced"

inductive_cases migrates_ReplacedE: "migrates Replaced ph"

text \<open>Where the phase has the console's files, and which directories it has.\<close>

definition represents :: "string \<Rightarrow> (string \<times> bytes) list \<Rightarrow> wobject list \<Rightarrow> phase \<Rightarrow> bool" where
  "represents pd files obs ph \<longleftrightarrow>
     rooted (data_dir pd) obs \<and> rooted (legacy_dir pd) obs
     \<and> (case ph of
          Console \<Rightarrow> content (legacy_dir pd) obs = None \<and> holds files (data_dir pd) obs
        | Between \<Rightarrow> content (data_dir pd) obs = None \<and> holds files (legacy_dir pd) obs
        | Replaced \<Rightarrow> content (data_dir pd) obs \<noteq> None \<and> holds files (legacy_dir pd) obs)"

text \<open>Every change is a sequence of transitions; once replaced, nothing changes but the staging directory.\<close>

definition lawful :: "string \<Rightarrow> (string \<times> bytes) list \<Rightarrow> wobject list \<Rightarrow> wobject list \<Rightarrow> bool" where
  "lawful pd files obs obs' \<longleftrightarrow>
     (\<forall>ph. represents pd files obs ph \<longrightarrow> (\<exists>ph'. migrates\<^sup>*\<^sup>* ph ph' \<and> represents pd files obs' ph'))
     \<and> (represents pd files obs Replaced \<longrightarrow> kept_outside (staging_dir pd) obs obs')"

lemma replaced_stays: "migrates\<^sup>*\<^sup>* Replaced ph \<Longrightarrow> ph = Replaced"
  by (induction rule: rtranclp_induct) (auto elim: migrates_ReplacedE)

lemma lawful_replaced: "lawful pd files obs obs' \<Longrightarrow> represents pd files obs Replaced \<Longrightarrow> represents pd files obs' Replaced"
  unfolding lawful_def by (blast dest: replaced_stays)

lemma lawful_trans:
  assumes "lawful pd files a b" "lawful pd files b c"
  shows "lawful pd files a c"
proof -
  have "\<exists>ph'. migrates\<^sup>*\<^sup>* ph ph' \<and> represents pd files c ph'" if "represents pd files a ph" for ph
    using assms that unfolding lawful_def by (meson rtranclp_trans)
  moreover have "kept_outside (staging_dir pd) a c" if "represents pd files a Replaced"
    using assms that lawful_replaced [OF assms(1) that] outside.trans unfolding lawful_def by blast
  ultimately show ?thesis
    unfolding lawful_def by blast
qed

interpretation kept: store_relation "lawful pd files" for pd files
proof
  show "lawful pd files obs obs" for pd files obs
    by (auto simp: lawful_def outside.same)
qed (rule lawful_trans)

lemma content_None: "content p obs = None \<longleftrightarrow> (\<forall>ob \<in> set obs. \<not> same_path (ob_path ob) p)"
  by (simp add: content_def find_object_None)

lemma rooted_outside:
  assumes "kept_outside s obs obs'" "rooted dir obs" "\<And>r. below r \<Longrightarrow> \<not> inside s (dir @ r)"
  shows "rooted dir obs'"
proof -
  have "inside dir p \<Longrightarrow> \<not> inside s p" for p
    using assms(3) [OF inside_below [of dir p]] moved_path [of dir p dir "drop (length dir) p"]
      inside_same [of s p "dir @ drop (length dir) p"] by (auto simp: eq_ignore_ascii_case_def)
  with assms(1) have same: "content p obs' = content p obs" if "inside dir p" for p
    using that by (auto simp: kept_outside_def)
  show ?thesis
    unfolding rooted_def
  proof (intro impI ballI notI)
    fix ob
    assume none: "content dir obs' = None" and ob: "ob \<in> set obs'" "inside dir (ob_path ob)"
    from ob(1) have "content (ob_path ob) obs' \<noteq> None"
      by (auto simp: content_None eq_ignore_ascii_case_def)
    then obtain ob' where "ob' \<in> set obs" "same_path (ob_path ob') (ob_path ob)"
      using same [OF ob(2)] by (auto simp: content_None)
    moreover have "content dir obs = None"
      using none same inside_join(1) by simp
    ultimately show False
      using assms(2) ob(2) inside_same same_path_sym unfolding rooted_def by blast
  qed
qed

lemma holds_outside:
  assumes "kept_outside s obs obs'" "holds files dir obs" "\<And>r. below r \<Longrightarrow> \<not> inside s (dir @ r)"
  shows "holds files dir obs'"
proof -
  have "content (dir @ r) obs' = content (dir @ r) obs" if "below r" for r
    using assms(1) assms(3) [OF that] by (simp add: kept_outside_def)
  from this [of "[]"] this [of "bslash # _"] assms(2) show ?thesis
    by (auto simp: holds_def win_join_def list_all_iff)
qed

lemma content_outside:
  "kept_outside (staging_dir pd) obs obs' \<Longrightarrow> content (data_dir pd) obs' = content (data_dir pd) obs"
  "kept_outside (staging_dir pd) obs obs' \<Longrightarrow> content (legacy_dir pd) obs' = content (legacy_dir pd) obs"
  using dirs_apart(1,2) [of "[]" pd] by (simp_all add: kept_outside_def)

lemma represents_outside:
  assumes "kept_outside (staging_dir pd) obs obs'" "represents pd files obs ph"
  shows "represents pd files obs' ph"
  using assms(2) rooted_outside [OF assms(1) _ dirs_apart(1)] rooted_outside [OF assms(1) _ dirs_apart(2)]
    holds_outside [OF assms(1) _ dirs_apart(1)] holds_outside [OF assms(1) _ dirs_apart(2)] content_outside [OF assms(1)]
  by (cases ph) (simp_all add: represents_def)

lemma staging_kept: "steps (kept_outside (staging_dir pd)) m \<Longrightarrow> steps (lawful pd files) m"
  by (erule steps_mono) (auto simp: lawful_def intro: represents_outside)

lemma move_holds:
  assumes "\<forall>ob \<in> set obs. \<not> inside b (ob_path ob)"
  shows "holds files b (move_tree a b obs) \<longleftrightarrow> holds files a obs"
  using find_move_to [OF assms below_simps(1), of a] find_move_to [OF assms below_simps(2), of _ a]
  by (simp add: holds_def win_join_def)

lemma holds_there: "holds files dir obs \<Longrightarrow> content dir obs \<noteq> None"
  by (simp add: holds_def)

text \<open>The three renames are the three transitions.\<close>

lemma move_out:
  assumes "represents pd files obs Console"
  shows "represents pd files (move_tree (data_dir pd) (legacy_dir pd) obs) Between"
proof -
  have *: "\<forall>ob \<in> set obs. \<not> inside (legacy_dir pd) (ob_path ob)" "holds files (data_dir pd) obs"
    using assms by (auto simp: represents_def rooted_def)
  have h: "holds files (legacy_dir pd) (move_tree (data_dir pd) (legacy_dir pd) obs)"
    using move_holds [OF *(1)] *(2) by simp
  have "\<forall>ob \<in> set (move_tree (data_dir pd) (legacy_dir pd) obs). \<not> inside (data_dir pd) (ob_path ob)"
    using moved_from [OF dirs_apart(4)] by blast
  then show ?thesis
    using h holds_there [OF h] by (auto simp: represents_def rooted_def content_None inside_def)
qed

lemma move_back:
  assumes "represents pd files obs Between"
  shows "represents pd files (move_tree (legacy_dir pd) (data_dir pd) obs) Console"
proof -
  have *: "\<forall>ob \<in> set obs. \<not> inside (data_dir pd) (ob_path ob)" "holds files (legacy_dir pd) obs"
    using assms by (auto simp: represents_def rooted_def)
  have h: "holds files (data_dir pd) (move_tree (legacy_dir pd) (data_dir pd) obs)"
    using move_holds [OF *(1)] *(2) by simp
  have "\<forall>ob \<in> set (move_tree (legacy_dir pd) (data_dir pd) obs). \<not> inside (legacy_dir pd) (ob_path ob)"
    using moved_from [OF dirs_apart(5)] by blast
  then show ?thesis
    using h holds_there [OF h] by (auto simp: represents_def rooted_def content_None inside_def)
qed

lemma move_in:
  assumes "represents pd files obs Between" "content (staging_dir pd) obs \<noteq> None"
  shows "represents pd files (move_tree (staging_dir pd) (data_dir pd) obs) Replaced"
proof -
  let ?moved = "move_tree (staging_dir pd) (data_dir pd) obs"
  have *: "\<forall>ob \<in> set obs. \<not> inside (data_dir pd) (ob_path ob)" "holds files (legacy_dir pd) obs"
    using assms(1) by (auto simp: represents_def rooted_def)
  have "content (legacy_dir pd @ r) ?moved = content (legacy_dir pd @ r) obs" if "below r" for r
    using find_move_else [OF dirs_apart(2) [OF that] dirs_apart(4) [OF that]] by (simp add: content_def)
  from this [of "[]"] this [of "bslash # _"] *(2) have h: "holds files (legacy_dir pd) ?moved"
    by (auto simp: holds_def win_join_def list_all_iff)
  moreover have "content (data_dir pd) ?moved \<noteq> None"
    using find_move_to [OF *(1) below_simps(1), of "staging_dir pd"] assms(2) by simp
  ultimately show ?thesis
    using holds_there [OF h] by (auto simp: represents_def rooted_def)
qed

lemma rename_lawful:
  assumes "(a, b) \<in> {(data_dir pd, legacy_dir pd), (staging_dir pd, data_dir pd), (legacy_dir pd, data_dir pd)}"
    and "content a obs \<noteq> None" "content b obs = None"
  shows "lawful pd files obs (move_tree a b obs)"
proof -
  have ph: "ph = (if b = legacy_dir pd then Console else Between)" if "represents pd files obs ph" for ph
    using assms that dirs_apart(5) [of "[]" pd] by (cases ph) (auto simp: represents_def holds_def)
  have "\<exists>ph'. migrates ph ph' \<and> represents pd files (move_tree a b obs) ph'" if "represents pd files obs ph" for ph
    using ph [OF that] that assms dirs_apart(5) [of "[]" pd] move_out move_back move_in
    by (auto intro: migrates.intros split: if_splits)
  then show ?thesis
    using ph unfolding lawful_def by (metis phase.distinct(3,5) r_into_rtranclp)
qed

lemma rename_kept:
  assumes "(a, b) \<in> {(data_dir pd, legacy_dir pd), (staging_dir pd, data_dir pd), (legacy_dir pd, data_dir pd)}"
  shows "steps (lawful pd files) (custody_rename env a b wait)"
proof -
  have "steps (lawful pd files) (rename_call env a b)"
  proof (rule stepsI)
    fix s r s'
    assume *: "rename_call env a b s = (r, s')"
    show "lawful pd files (st_objects s) (st_objects s')"
    proof (cases "object_at a s = None \<or> object_at b s \<noteq> None")
      case True
      with * kept.same show ?thesis by (auto simp: rename_call_def split: if_splits)
    next
      case False
      then have "win_call env id (move_tree a b) s = (r, s')" "content a (st_objects s) \<noteq> None" "content b (st_objects s) = None"
        using * by (auto simp: rename_call_def content_def object_at_def split: if_splits)
      with win_call_cases [OF this(1)] rename_lawful [OF assms this(2,3)] kept.same show ?thesis
        by auto
    qed
  qed
  then show ?thesis
    unfolding custody_rename_def by (intro kept.within kept.map_err)
qed

section \<open>Every start keeps the console's files\<close>

lemmas kept_rules = kept.matching kept.injection kept.bind kept.catch kept.lift kept.map_err kept.watch kept.cond kept.opt kept.pair

abbreviation keeps :: "string \<Rightarrow> (string \<times> bytes) list \<Rightarrow> (store \<Rightarrow> 'r \<times> store) \<Rightarrow> bool" where
  "keeps pd files \<equiv> steps (lawful pd files)"

lemma rewrite_keeps: "me_paths e = paths_under pd \<Longrightarrow> keeps pd files (rewrite e (staged_record_path e) r)"
  using staging_kept rewrite_outside [of e r] by simp

lemma reverse_keeps:
  assumes "me_paths e = paths_under pd"
  shows "keeps pd files (reverse e record cause)"
  unfolding reverse_def Let_def
  by (intro kept_rules; simp add: assms rename_kept rewrite_keeps kept.quiet)

lemma commit_keeps:
  assumes "me_paths e = paths_under pd"
  shows "keeps pd files (commit e record found)"
  unfolding commit_def Let_def
  by (intro kept_rules; simp add: assms rename_kept rewrite_keeps kept.quiet reverse_keeps)

lemma route_keeps:
  assumes "me_paths e = paths_under pd" "steps (=) lock"
  shows "keeps pd files (route e request attempt lock)"
proof -
  have outer: "keeps pd files (close_directories e)" "keeps pd files (delete_interrupted_staging e)" "keeps pd files (restrict_files e found)"
    "keeps pd files (record_and_stage e request attempt found v)" for found v
    using staging_kept [OF close_directories_outside] staging_kept [OF restrict_files_outside]
      staging_kept [OF delete_interrupted_outside [of e, unfolded assms(1)]]
      staging_kept [OF record_and_stage_outside [of e, unfolded assms(1)]] by simp_all
  have refused: "keeps pd files (case stop of StopRefused code line \<Rightarrow> in_place e code line | Crashed \<Rightarrow> io_lift (Inl Crashed))" for stop
    by (cases stop) (simp_all add: kept.quiet kept.lift)
  show ?thesis
    unfolding route_def
    by (intro kept_rules; simp add: outer refused commit_keeps [OF assms(1)] kept.quiet assms(2))
qed

lemma counts_there:
  assumes "counts e path s = (True, s')"
  shows "content path (st_objects s) \<noteq> None"
proof -
  from assms obtain s1 where "check_if_exists_within (me_win e) path Directory (mc_configuration (me_custody e)) (me_wait e) s = (Inr True, s1)"
    by (auto simp: counts_def split: prod.splits)
  then obtain handle s2 where "open_existing (me_win e) path (me_wait e) s = (Inr (Some handle), s2)"
    by (auto simp: check_if_exists_within_def store split: option.splits)
  from bounded_Inr [OF this [unfolded open_existing_def]] have "object_at path s = Some handle"
    by (auto simp: store open_raw_def split: fate.splits if_splits)
  then show ?thesis
    by (simp add: content_def object_at_def)
qed

lemma prepare_cases:
  assumes "prepare e request lock s = (r, s')"
  obtains s1 where "st_objects s1 = st_objects s"
    "(between_the_renames e request lock s1 = (r, s') \<or> committed e request s1 = (r, s')) \<and> content (legacy (me_paths e)) (st_objects s) \<noteq> None
     \<or> beside_a_console_layout e request lock s1 = (r, s') \<or> plain e request s1 = (r, s')
     \<or> (\<exists>q. request = Some q \<and> route e q Fresh lock s1 = (r, s'))
     \<or> request = None \<and> io_bind (check_data_directories e True) (\<lambda>_. io_lift (Inr ConsoleLayout)) s1 = (r, s')
     \<or> r = Inl (other_combination e) \<and> s' = s1"
proof -
  let ?p = "me_paths e"
  obtain d s1 where 1: "is_there e (ip_data_root ?p) s = (d, s1)" by fastforce
  obtain c s2 where 2: "(if d then any_io (\<lambda>name. is_there e (win_join (ip_data_root ?p) name)) IDENTITY_FILES s1 else (False, s1)) = (c, s2)" by fastforce
  obtain g s3 where 3: "counts e (staging ?p) s2 = (g, s3)" by fastforce
  obtain l s4 where 4: "counts e (legacy ?p) s3 = (l, s4)" by fastforce
  have "st_objects s1 = st_objects s2"
    using 2 stepsD [OF quiet_any_io [OF quiet_is_there]] by (auto split: if_splits)
  then have same: "st_objects s4 = st_objects s" "st_objects s3 = st_objects s"
    using stepsD [OF quiet_is_there 1] stepsD [OF quiet_counts 3] stepsD [OF quiet_counts 4] by simp_all
  have "l \<Longrightarrow> content (legacy ?p) (st_objects s) \<noteq> None"
    using counts_there 4 same(2) by metis
  with assms show thesis
    unfolding prepare_def Let_def
    by (intro that [OF same(1)], simp only: 1 2 3 4 split_conv) (auto split: if_splits option.splits)
qed

lemma prepare_keeps:
  assumes "me_paths e = paths_under pd" "steps (=) lock"
  shows "keeps pd files (prepare e request lock)"
proof (rule stepsI)
  fix s r s'
  assume "prepare e request lock s = (r, s')"
  then show "lawful pd files (st_objects s) (st_objects s')"
  proof (rule prepare_cases)
    fix s1
    have "keeps pd files (between_the_renames e request lock)"
      unfolding between_the_renames_def Let_def
      by (intro kept_rules; simp add: assms(1) rename_kept reverse_keeps kept.quiet assms(2))
    moreover have "keeps pd files (beside_a_console_layout e request lock)"
      unfolding beside_a_console_layout_def
      by (intro kept_rules; simp add: route_keeps [OF assms] kept.quiet)
    moreover have "keeps pd files (committed e request)" "keeps pd files (plain e request)"
      "keeps pd files (io_bind (check_data_directories e True) (\<lambda>_. io_lift (Inr ConsoleLayout)))"
      unfolding committed_def plain_def by (intro kept_rules; simp add: kept.quiet)+
    moreover assume "st_objects s1 = st_objects s"
      "(between_the_renames e request lock s1 = (r, s') \<or> committed e request s1 = (r, s')) \<and> content (legacy (me_paths e)) (st_objects s) \<noteq> None
       \<or> beside_a_console_layout e request lock s1 = (r, s') \<or> plain e request s1 = (r, s')
       \<or> (\<exists>q. request = Some q \<and> route e q Fresh lock s1 = (r, s'))
       \<or> request = None \<and> io_bind (check_data_directories e True) (\<lambda>_. io_lift (Inr ConsoleLayout)) s1 = (r, s')
       \<or> r = Inl (other_combination e) \<and> s' = s1"
    ultimately show ?thesis
      by (auto dest: stepsD stepsD [OF route_keeps [OF assms]] intro: kept.same simp flip: \<open>st_objects s1 = st_objects s\<close>)
  qed
qed

text \<open>Starts one after the other, each in an environment of its own.\<close>

fun run_starts :: "(migration_env \<times> request option \<times> (stop, unit) io) list \<Rightarrow> store \<Rightarrow> store" where
  "run_starts [] s = s"
| "run_starts ((e, request, lock) # starts) s = run_starts starts (snd (prepare e request lock s))"

definition starts_at :: "string \<Rightarrow> migration_env \<times> request option \<times> (stop, unit) io \<Rightarrow> bool" where
  "starts_at pd = (\<lambda>(e, _, lock). me_paths e = paths_under pd \<and> steps (=) lock)"

lemma run_starts_lawful: "list_all (starts_at pd) starts \<Longrightarrow> lawful pd files (st_objects s) (st_objects (run_starts starts s))"
proof (induction starts arbitrary: s)
  case (Cons start starts)
  obtain e request lock where start: "start = (e, request, lock)" by (cases start)
  then have "lawful pd files (st_objects s) (st_objects (snd (prepare e request lock s)))"
    using prepare_keeps [of e pd lock files request] Cons.prems by (auto simp: starts_at_def steps_def)
  with Cons start show ?case
    using lawful_trans by auto
qed (simp add: kept.same)


lemma console_represents: "represents run_root [(CERT, as_bytes ''pem''), (KEY, console_key), (IDENTITY, as_bytes ''{}'')] console_objects Console"
proof -
  have "\<forall>ob \<in> set console_objects. \<not> inside (legacy_dir run_root) (ob_path ob)"
    by (simp add: console_objects_def console_object_def legacy_def inside_def under_def eq_ignore_ascii_case_def win_join_def ascii_lower_def
        paths_under_def Let_def)
  then show ?thesis
    by (simp add: represents_def rooted_def holds_def content_def console_find object_simps)
qed

lemma run_starts_at: "starts_at run_root (run_env, request, io_lift (Inr ()))"
  by (simp add: starts_at_def run_env_simps nothing.lift)


section \<open>What a commit installs\<close>

lemma io_catch_fails: "io_catch m h s = (Inr x, s') \<Longrightarrow> (\<And>e s1 y s2. h e s1 \<noteq> (Inr y, s2)) \<Longrightarrow> m s = (Inr x, s')"
  by (auto simp: io_catch_def split: prod.splits sum.splits)

lemma in_place_fails [simp]: "in_place e code line s \<noteq> (Inr x, s')"
  by (simp add: in_place_def split: prod.splits)

lemma cut_in_place_fails [simp]: "cut_in_place e code render c s \<noteq> (Inr x, s')"
  by (cases c) (simp_all add: cut_in_place_def io_lift_def)

lemma reverse_fails: "reverse e record cause s \<noteq> (Inr x, s')"
  by (auto simp: reverse_def io_match_def io_lift_def Let_def split: prod.splits sum.splits injected.splits if_splits)

lemma read_unshared_bytes:
  assumes "read_unshared env path limit wait s = (Inr (bs, i), s')"
  shows "map_option snd (content path (st_objects s)) = Some bs"
proof -
  from bounded_Inr [OF assms [unfolded read_unshared_def]] obtain handle s1 s2 where
    *: "open_raw env path (tick s) = (Inr (Some handle), s1)" "read_to_end env handle path s2 = (Inr bs, s')"
    by (auto simp: store io_lift_def ok_or_Inr)
  then have "object_at path s = Some handle" "bs = ob_bytes handle"
    by (auto simp: open_raw_def read_to_end_def io_map_err_def win_query_def object_at_def split: fate.splits if_splits prod.splits)
  then show ?thesis
    by (simp add: content_def object_at_def)
qed

lemma check_each_names:
  "check_each e names found s = (Inr found', s') \<Longrightarrow> map fst (ck_files found') = map fst (ck_files found) @ names"
proof (induction names arbitrary: found s)
  case (Cons name names)
  then obtain found1 s1 where "check_each e names found1 s1 = (Inr found', s')" "map fst (ck_files found1) = map fst (ck_files found) @ [name]"
    by (auto simp: Let_def store split: option.splits if_splits)
  with Cons.IH show ?case by simp
qed (simp add: store)

lemma required_names_all: "required_names e names = Inr () \<Longrightarrow> set REQUIRED \<subseteq> set names"
  by (auto simp: required_names_def find_None_iff split: option.splits)

lemma check_what_is_there_names:
  assumes "check_what_is_there e attempt s = (Inr found, s')"
  shows "set REQUIRED \<subseteq> fst ` set (ck_files found)"
proof -
  from assms [unfolded check_what_is_there_def] obtain sorted s1 where
    *: "check_each e sorted \<lparr>ck_files = [], ck_enrolling_account = None\<rparr> s1 = (Inr found, s')"
    and "set REQUIRED \<subseteq> set sorted"
    by (auto simp: store dest!: io_catch_fails required_names_all)
  with check_each_names [OF *] show ?thesis
    by (metis append_Nil checked.select_convs(1) list.map(1) list.set_map)
qed

lemma read_files_contents:
  assumes "read_files e files s = (Inr contents, s')"
  shows "map fst contents = filter (\<lambda>name. name \<noteq> TEMPORARY) (map fst files)
    \<and> (\<forall>(name, bs) \<in> set contents. map_option snd (content (win_join (ip_data_root (me_paths e)) name) (st_objects s)) = Some bs)"
  using assms
proof (induction files arbitrary: s contents)
  case (Cons x files)
  obtain name i where x: "x = (name, i)" by (cases x)
  show ?case
  proof (cases "name = TEMPORARY")
    case False
    with Cons.prems x obtain s1 bs s2 rest where
      r: "read_unshared (me_win e) (win_join (ip_data_root (me_paths e)) name) READ_LIMIT (me_wait e) s1 = (Inr (bs, i), s2)"
      and rest: "read_files e files s2 = (Inr rest, s')" "contents = (name, bs) # rest" "st_objects s1 = st_objects s"
      by (auto simp: Let_def store watch_at_def split: if_splits dest!: io_catch_fails)
    have "st_objects s2 = st_objects s"
      using stepsD [OF nothing.reading [OF reads_custody(6)] r] rest(3) by simp
    with Cons.IH [OF rest(1)] read_unshared_bytes [OF r] rest(2,3) False x show ?thesis by auto
  qed (use Cons x in auto)
qed (simp add: store)

lemma taken_content:
  assumes "read_files e (ck_files found) s = (Inr contents, s')" "set REQUIRED \<subseteq> fst ` set (ck_files found)" "name \<in> set REQUIRED"
  shows "map_option snd (content (win_join (ip_data_root (me_paths e)) name) (st_objects s)) = Some (taken contents name)"
proof -
  have "TEMPORARY \<notin> set REQUIRED"
    by (simp add: REQUIRED_def)
  then have "name \<noteq> TEMPORARY" "name \<in> set (map fst (ck_files found))"
    using assms(2,3) by auto
  then have "name \<in> set (map fst contents)"
    using read_files_contents [OF assms(1)] by simp
  then obtain bs where "map_of contents name = Some bs"
    by (metis list.set_map map_of_eq_None_iff option.exhaust)
  with read_files_contents [OF assms(1)] map_of_SomeD show ?thesis
    by (fastforce simp: taken_def)
qed

lemma create_new_file_bytes:
  assumes "create_new_file env path sddl bs s = (Inr (), s')"
  shows "map_option snd (content path (st_objects s')) = Some bs"
proof -
  from assms [unfolded create_new_file_def] obtain d s1 where
    c: "create_file_call env path d s = (Inr (), s1)" and w: "write_and_sync env path bs s1 = (Inr (), s')"
    by (auto simp: store)
  from create_untouched [OF c] obtain ob where "find_object path (st_objects s1) = Some ob" by auto
  with write_untouched [OF w] show ?thesis
    by (auto simp: content_def)
qed

lemma create_new_file_else:
  "create_new_file env path sddl bs s = (r, s') \<Longrightarrow> \<not> same_path p path \<Longrightarrow> content p (st_objects s') = content p (st_objects s)"
  using stepsD [OF create_new_file_at] by (fastforce simp: untouched_def content_def)

lemma record_and_stage_files:
  assumes "record_and_stage e request attempt found v s = (Inr record, s')" "me_paths e = paths_under pd"
  shows "holds [(CERT, vf_certificate v), (KEY, vf_sealed_key v), (IDENTITY, vf_identity v)] (win_join (staging_dir pd) IDENTITY_DIRECTORY) (st_objects s')"
proof -
  let ?dir = "win_join (staging_dir pd) IDENTITY_DIRECTORY"
  from assms obtain s1 s2 s3 s4 s5 where
    d: "create_new_directory (me_win e) ?dir (mc_identity_directory_sddl (me_custody e)) s1 = (Inr (), s2)"
    and c: "create_new_file (me_win e) (win_join ?dir CERT) (mc_identity_file_sddl (me_custody e)) (vf_certificate v) s2 = (Inr (), s3)"
      "create_new_file (me_win e) (win_join ?dir KEY) (mc_identity_file_sddl (me_custody e)) (vf_sealed_key v) s3 = (Inr (), s4)"
      "create_new_file (me_win e) (win_join ?dir IDENTITY) (mc_identity_file_sddl (me_custody e)) (vf_identity v) s4 = (Inr (), s5)"
    and ch: "check_staged e record s5 = (Inr (), s')"
    by (auto simp: record_and_stage_def stage_file_def Let_def store watch_at_def)
  have apart: "\<not> same_path (win_join ?dir CERT) (win_join ?dir KEY)" "\<not> same_path (win_join ?dir CERT) (win_join ?dir IDENTITY)"
    "\<not> same_path (win_join ?dir KEY) (win_join ?dir IDENTITY)" "\<not> same_path ?dir (win_join ?dir CERT)" "\<not> same_path ?dir (win_join ?dir KEY)"
    "\<not> same_path ?dir (win_join ?dir IDENTITY)"
    by (auto simp: win_join_def eq_ignore_ascii_case_def ascii_lower_def dest: arg_cong [of _ _ length])
  have "content ?dir (st_objects s2) \<noteq> None"
    using d by (auto simp: create_new_directory_def create_directory_call_def store content_def new_directory_def split: if_splits dest!: win_call_Inr)
  then show ?thesis
    using c [THEN create_new_file_bytes] c [THEN create_new_file_else] apart stepsD [OF quiet_check_staged ch]
    by (simp add: holds_def)
qed

lemma rename_done:
  assumes "custody_rename env a b wait s = (Inr (), s')"
  shows "st_objects s' = move_tree a b (st_objects s)" "content b (st_objects s) = None"
  using bounded_Inr [OF assms [unfolded custody_rename_def]]
  by (auto simp: store rename_call_def content_def object_at_def split: if_splits dest!: win_call_Inr)

lemma io_match_completes:
  fixes m :: "(injected, unit) io"
  assumes "io_match m (\<lambda>r. case r of Inr _ \<Rightarrow> io_lift (Inr ()) | Inl Crash \<Rightarrow> io_lift (Inl c) | Inl (Failure reason) \<Rightarrow> g reason) s = (Inr (), s')"
    and "\<And>reason s1. g reason s1 \<noteq> (Inr (), s')"
  shows "m s = (Inr (), s')"
  using assms by (cases "m s") (auto simp: io_match_def io_lift_def split: sum.splits injected.splits)

lemma commit_completes:
  assumes "commit e record found s = (Inr (), s')"
  obtains s1 where "io_bind (watch_at e FirstRename) (\<lambda>_. failing (io_bind (check_names_again e found)
      (\<lambda>_. custody_rename (me_win e) (ip_data_root (me_paths e)) (legacy (me_paths e)) (me_wait e)))) s = (Inr (), s1)"
    "custody_rename (me_win e) (staging (me_paths e)) (ip_data_root (me_paths e)) (me_wait e) s1 = (Inr (), s')"
proof -
  from assms [unfolded commit_def Let_def io_bind_Inr] obtain x s1 where
    1: "io_catch (io_bind (watch_at e FirstRename) (\<lambda>_. failing (io_bind (check_names_again e found)
        (\<lambda>_. custody_rename (me_win e) (ip_data_root (me_paths e)) (legacy (me_paths e)) (me_wait e))))) (cut_in_place e 5 identity_line) s = (Inr x, s1)"
    and 2: "io_match (io_bind (watch_at e SecondRename) (\<lambda>_. failing
        (custody_rename (me_win e) (staging (me_paths e)) (ip_data_root (me_paths e)) (me_wait e)))) (\<lambda>second.
           case second of
             Inr _ \<Rightarrow> io_lift (Inr ())
           | Inl Crash \<Rightarrow> io_lift (Inl Crashed)
           | Inl (Failure cause) \<Rightarrow>
               io_match (io_bind (watch_at e RecordReversal) (\<lambda>_. failing (rewrite e (staged_record_path e) (record\<lparr>mr_reversal_pending := True\<rparr>)))) (\<lambda>recorded.
                 case recorded of
                   Inr _ \<Rightarrow> reverse e (record\<lparr>mr_reversal_pending := True\<rparr>) (''the commit failed ('' @ cause @ '')'')
                 | Inl Crash \<Rightarrow> io_lift (Inl Crashed)
                 | Inl (Failure reason) \<Rightarrow>
                     io_lift (Inl (both_directories e (''the commit failed ('' @ cause @ ''), and its reversal could not be recorded ('' @ reason
                       @ ''); the next start completes it''))))) s1 = (Inr (), s')"
    by blast
  have "io_bind (watch_at e SecondRename) (\<lambda>_. failing
        (custody_rename (me_win e) (staging (me_paths e)) (ip_data_root (me_paths e)) (me_wait e))) s1 = (Inr (), s')"
    by (rule io_match_completes [OF 2])
      (auto simp: io_match_def io_lift_def reverse_fails split: prod.splits sum.splits injected.splits)
  with io_catch_fails [OF 1 cut_in_place_fails] show thesis
    by (auto simp: store watch_at_def intro: that)
qed

lemma commit_moves:
  assumes "commit e record found s = (Inr (), s')" "me_paths e = paths_under pd"
    and "rooted (legacy_dir pd) (st_objects s)" "below r"
  shows "content (data_dir pd @ r) (st_objects s') = content (staging_dir pd @ r) (st_objects s)"
    "content (legacy_dir pd @ r) (st_objects s') = content (data_dir pd @ r) (st_objects s)"
proof -
  from commit_completes [OF assms(1), unfolded assms(2)] obtain s2 where
    0: "io_bind (watch_at e FirstRename) (\<lambda>_. failing (
          io_bind (check_names_again e found) (\<lambda>_. custody_rename (me_win e) (data_dir pd) (legacy_dir pd) (me_wait e)))) s = (Inr (), s2)"
    and 2: "custody_rename (me_win e) (staging_dir pd) (data_dir pd) (me_wait e) s2 = (Inr (), s')"
    by blast
  from 0 obtain s1 where
    1: "custody_rename (me_win e) (data_dir pd) (legacy_dir pd) (me_wait e) s1 = (Inr (), s2)" "st_objects s1 = st_objects s"
    by (auto simp: store watch_at_def dest!: stepsD [OF quiet_names_again])
  have objects: "st_objects s2 = move_tree (data_dir pd) (legacy_dir pd) (st_objects s)"
    "st_objects s' = move_tree (staging_dir pd) (data_dir pd) (st_objects s2)"
    using rename_done [OF 1(1)] rename_done [OF 2] 1(2) by simp_all
  have no: "\<forall>ob \<in> set (st_objects s). \<not> inside (legacy_dir pd) (ob_path ob)"
    "\<forall>ob \<in> set (st_objects s2). \<not> inside (data_dir pd) (ob_path ob)"
    using rename_done(2) [OF 1(1)] 1(2) assms(3) moved_from [OF dirs_apart(4)] unfolding rooted_def objects by auto
  show "content (data_dir pd @ r) (st_objects s') = content (staging_dir pd @ r) (st_objects s)"
    using find_move_to [OF no(2) assms(4), of "staging_dir pd"] find_move_else [OF dirs_apart(3,6) [OF assms(4)]]
    by (simp add: objects content_def)
  show "content (legacy_dir pd @ r) (st_objects s') = content (data_dir pd @ r) (st_objects s)"
    using find_move_to [OF no(1) assms(4), of "data_dir pd"] find_move_else [OF dirs_apart(2,4) [OF assms(4)]]
    by (simp add: objects content_def)
qed

lemma verified_content:
  assumes "check_what_is_there e attempt s = (Inr found, s1)" "read_each_file e request attempt found s1 = (Inr v, s')" "me_paths e = paths_under pd"
  shows "list_all (\<lambda>(name, bs). map_option snd (content (win_join (data_dir pd) name) (st_objects s)) = Some bs)
    [(CERT, vf_certificate v), (KEY, vf_sealed_key v), (IDENTITY, vf_identity v)]"
proof -
  from assms(2) [unfolded read_each_file_def io_bind_Inr] obtain contents s2 where
    r: "read_files e (ck_files found) s1 = (Inr contents, s2)"
    and "vf_certificate v = taken contents CERT" "vf_sealed_key v = taken contents KEY" "vf_identity v = taken contents IDENTITY"
    by (auto simp: store)
  with taken_content [OF r check_what_is_there_names [OF assms(1)]] stepsD [OF quiet_check_what_is_there assms(1)] assms(3) show ?thesis
    by (simp add: REQUIRED_def)
qed

lemma route_completes:
  assumes "route e request attempt lock s = (Inr result, s')"
  obtains s1 s2 s3 s4 s5 s6 s7 s8 found v r where "lock s = (Inr (), s1)" "close_directories e s1 = (Inr (), s2)"
    "s3 = s2 \<or> delete_interrupted_staging e s2 = (Inr (), s3)"
    "check_what_is_there e attempt s3 = (Inr found, s4)" "read_each_file e request attempt found s4 = (Inr v, s5)"
    "restrict_files e found s5 = (Inr (), s6)" "record_and_stage e request attempt found v s6 = (Inr r, s7)"
    "commit e r found s7 = (Inr (), s8)" "check_data_directories e False s8 = (Inr (), s')" "result = Committed"
proof -
  have "io_catch lock (\<lambda>stop. case stop of StopRefused code line \<Rightarrow> in_place e code line | Crashed \<Rightarrow> io_lift (Inl Crashed)) s0 = (Inr x, s1)
      \<Longrightarrow> lock s0 = (Inr x, s1)" for s0 x s1
    by (erule io_catch_fails) (simp add: io_lift_def split: stop.split)
  with assms show thesis
    unfolding route_def io_bind_Inr
    by (auto simp: store split: if_splits dest!: io_catch_fails [OF _ cut_in_place_fails] intro: that)
qed

definition installs :: "string \<Rightarrow> wobject list \<Rightarrow> wobject list \<Rightarrow> bool" where
  "installs pd obs obs' \<longleftrightarrow>
     list_all (\<lambda>name. map_option snd (content (win_join (win_join (data_dir pd) IDENTITY_DIRECTORY) name) obs')
         = map_option snd (content (win_join (data_dir pd) name) obs) \<and> content (win_join (data_dir pd) name) obs \<noteq> None) IDENTITY_FILES
     \<and> (\<forall>r. below r \<longrightarrow> content (legacy_dir pd @ r) obs' = content (data_dir pd @ r) obs)"

lemma route_installs:
  assumes "route e request attempt lock s = (Inr result, s')" "me_paths e = paths_under pd" "steps (=) lock" "rooted (legacy_dir pd) (st_objects s)"
  shows "installs pd (st_objects s) (st_objects s') \<and> result = Committed"
proof -
  let ?staged = "kept_outside (staging_dir pd)"
  from route_completes [OF assms(1)] obtain s1 s2 s3 s4 s5 s6 s7 s8 found v r where
    r: "lock s = (Inr (), s1)" "close_directories e s1 = (Inr (), s2)" "s3 = s2 \<or> delete_interrupted_staging e s2 = (Inr (), s3)"
    "check_what_is_there e attempt s3 = (Inr found, s4)" "read_each_file e request attempt found s4 = (Inr v, s5)"
    "restrict_files e found s5 = (Inr (), s6)" "record_and_stage e request attempt found v s6 = (Inr r, s7)"
    "commit e r found s7 = (Inr (), s8)" "check_data_directories e False s8 = (Inr (), s')" "result = Committed" .
  have same: "st_objects s1 = st_objects s" "st_objects s4 = st_objects s3" "st_objects s5 = st_objects s3" "st_objects s' = st_objects s8"
    using stepsD [OF assms(3) r(1)] stepsD [OF quiet_check_what_is_there r(4)] stepsD [OF quiet_read_each_file r(5)]
      stepsD [OF quiet_check_data_directories r(9)] by simp_all
  have "?staged (st_objects s) (st_objects s2)" "?staged (st_objects s2) (st_objects s3)"
    using stepsD [OF close_directories_outside r(2), of "staging_dir pd"] same(1) r(3) outside.same
      stepsD [OF delete_interrupted_outside [of e, unfolded assms(2)]] by auto
  then have before: "?staged (st_objects s) (st_objects s3)"
    by (rule outside.trans)
  have "?staged (st_objects s3) (st_objects s7)"
    using outside.trans stepsD [OF restrict_files_outside r(6), of "staging_dir pd"]
      stepsD [OF record_and_stage_outside [of e, unfolded assms(2)] r(7)] same(3) by auto
  with before have all: "?staged (st_objects s) (st_objects s7)"
    by (rule outside.trans)
  have moved: "content (data_dir pd @ p) (st_objects s') = content (staging_dir pd @ p) (st_objects s7)"
    "content (legacy_dir pd @ p) (st_objects s') = content (data_dir pd @ p) (st_objects s7)" if "below p" for p
    using commit_moves [OF r(8) assms(2) _ that] rooted_outside [OF all assms(4) dirs_apart(2)] same(4) by simp_all
  have data: "content (data_dir pd @ p) (st_objects s7) = content (data_dir pd @ p) (st_objects s)"
    "content (data_dir pd @ p) (st_objects s3) = content (data_dir pd @ p) (st_objects s)" if "below p" for p
    using all before dirs_apart(1) [OF that] by (simp_all add: kept_outside_def)
  show ?thesis
    using record_and_stage_files [OF r(7) assms(2)] verified_content [OF r(4,5) assms(2)] moved data r(10)
    by (auto simp: installs_def holds_def IDENTITY_FILES_def win_join_def)
qed

text \<open>
  Claim C11. A start with arguments that succeeds on a console layout has
  committed: the identity directory of the data root holds the certificate, the
  sealed key and the identity of the console, byte for byte, whatever was read,
  restricted and staged in between, and the legacy directory holds the whole
  console directory, every object with the bytes and the file information it
  had.
\<close>

theorem commit_installs_identity:
  assumes "prepare e (Some q) lock s = (Inr result, s')" "me_paths e = paths_under pd" "steps (=) lock"
    and "represents pd files (st_objects s) Console"
  shows "installs pd (st_objects s) (st_objects s') \<and> result = Committed"
proof -
  have legacy: "content (legacy (me_paths e)) (st_objects s) = None" "rooted (legacy_dir pd) (st_objects s)"
    using assms(2,4) by (simp_all add: represents_def)
  from prepare_cases [OF assms(1)] legacy obtain s1 where s1: "st_objects s1 = st_objects s"
    and "beside_a_console_layout e (Some q) lock s1 = (Inr result, s') \<or> route e q Fresh lock s1 = (Inr result, s')"
    by (auto simp: plain_def store guard_def)
  then obtain s2 attempt where "route e q attempt lock s2 = (Inr result, s')" "st_objects s2 = st_objects s"
    by (auto simp: beside_a_console_layout_def store split: option.splits if_splits
        dest!: io_catch_fails stepsD [OF quiet_staged_record])
  with route_installs [OF this(1) assms(2,3)] legacy(2) show ?thesis by simp
qed

theorem commit_installs_identity_witness:
  "\<exists>s'. prepare run_env (Some run_request) (io_lift (Inr ())) (at_op console_objects 0) = (Inr Committed, s')
     \<and> installs run_root console_objects (st_objects s')"
proof -
  obtain k where k: "prepare run_env (Some run_request) (io_lift (Inr ())) (at_op console_objects 0) = (Inr Committed, at_op installed_objects k)"
    using prepare_run by blast
  have "installs run_root (st_objects (at_op console_objects 0)) (st_objects (at_op installed_objects k)) \<and> Committed = Committed"
    using console_represents by (intro commit_installs_identity [OF k]) (auto simp: run_env_simps nothing.lift at_op_simps)
  with k show ?thesis
    by (auto simp: at_op_simps)
qed

end
