(* ===== verification/Migration_Copies.thy ===== *)
theory Migration_Copies
  imports Migration_Props
begin

text \<open>
  What the pass over the old copies may change (\<open>service/migration.rs\<close>), and
  which start arguments ask for which migration.
\<close>

section \<open>The record is read back\<close>

lemma each_some_map: "(\<And>x. f (g x) = Some x) \<Longrightarrow> each_some f (map g xs) = Some xs"
  by (induction xs) simp_all

lemma record_roundtrip: "read_record (record_json r) = Some r"
proof -
  have "each_some of_str (map JStr xs) = Some xs" for xs
    by (rule each_some_map) simp
  moreover have "each_some (\<lambda>(k, j). map_option (Pair k) (of_str j)) (map (\<lambda>(k, v). (k, JStr v)) fs) = Some fs" for fs :: "(string \<times> string) list"
    by (rule each_some_map) auto
  ultimately show ?thesis
    by (cases r; cases "mr_enrolling_account r"; cases "mr_choice r")
      (simp_all add: read_record_def record_json_def field_def field_opt_def nullable_def)
qed

section \<open>Deleting one object\<close>

definition gone :: "string \<Rightarrow> wobject list \<Rightarrow> wobject list \<Rightarrow> bool" where
  "gone q obs obs' \<longleftrightarrow> (\<forall>p. content p obs' = content p obs \<or> (same_path p q \<and> content p obs' = None))"

interpretation gone: store_relation "gone q" for q
  by unfold_locales (auto simp: gone_def, metis+)

lemma remove_gone: "gone q obs (remove_object q obs)"
  by (auto simp: gone_def content_def store)

lemma delete_through_gone: "steps (gone (ob_path handle)) (delete_through env handle path wait)"
proof -
  have call: "steps (gone q) (win_call env render (remove_object q))" for q and render :: "u32 \<Rightarrow> 'e"
    by (intro gone.call remove_gone)
  have "steps (gone q) (\<lambda>s. case win_call env id (remove_object q) s of
         (Inr _, s1) \<Rightarrow> (Inr (), s1)
       | (Inl e, s1) \<Rightarrow>
           if e \<noteq> 87 \<and> e \<noteq> 1 \<and> e \<noteq> 50 then (Inl (failure ''delete'' path e), s1)
           else win_call env (failure ''delete'' path) (remove_object q) s1)" for q
  proof (rule stepsI)
    fix s r s'
    assume *: "(case win_call env id (remove_object q) s of
         (Inr _, s1) \<Rightarrow> (Inr (), s1)
       | (Inl e, s1) \<Rightarrow>
           if e \<noteq> 87 \<and> e \<noteq> 1 \<and> e \<noteq> 50 then (Inl (failure ''delete'' path e), s1)
           else win_call env (failure ''delete'' path) (remove_object q) s1) = (r, s')"
    obtain x s1 where x: "win_call env id (remove_object q) s = (x, s1)" by fastforce
    with * have "s' = s1 \<or> win_call env (failure ''delete'' path) (remove_object q) s1 = (r, s')"
      by (auto split: sum.splits if_splits)
    with stepsD [OF call x] stepsD [OF call] gone.trans show "gone q (st_objects s) (st_objects s')"
      by blast
  qed
  then show ?thesis
    unfolding delete_through_def by (intro gone.within)
qed

section \<open>The pass over the old copies\<close>

text \<open>A file of the legacy directory that the record names under its file id and that has one link.\<close>

definition recorded_copy :: "string \<Rightarrow> migration_record \<Rightarrow> wobject list \<Rightarrow> string \<Rightarrow> bool" where
  "recorded_copy pd record obs p \<longleftrightarrow>
     (\<exists>name known info bs. same_path p (win_join (legacy_dir pd) name) \<and> content p obs = Some (info, bs)
        \<and> known_name name = Some known \<and> map_of (mr_files record) known = Some (file_id_text (file_id_of info)) \<and> fi_links info = 1)"

definition pruned :: "string \<Rightarrow> migration_record \<Rightarrow> wobject list \<Rightarrow> wobject list \<Rightarrow> bool" where
  "pruned pd record obs obs' \<longleftrightarrow>
     (\<forall>p. content p obs' = content p obs
        \<or> (mr_choice record = Remove \<and> content p obs' = None \<and> (same_path p (legacy_dir pd) \<or> recorded_copy pd record obs p))
        \<or> same_path p (record_path (paths_under pd)) \<or> same_path p (win_join (data_dir pd) RECORD_TEMPORARY))"

interpretation pruned: store_relation "pruned pd r" for pd r
proof
  show "pruned pd r obs obs" for pd r obs
    by (simp add: pruned_def)
  show "pruned pd r a c" if "pruned pd r a b" "pruned pd r b c" for pd r a b c
    using that unfolding pruned_def recorded_copy_def by metis
qed

lemma gone_pruned: "gone q a b \<Longrightarrow> mr_choice r = Remove \<Longrightarrow> (\<And>p. same_path p q \<Longrightarrow> same_path p (legacy_dir pd) \<or> recorded_copy pd r a p) \<Longrightarrow> pruned pd r a b"
  by (auto simp: gone_def pruned_def)

lemma set_security_pruned: "steps (pruned pd r) (set_security env handle path sddl wait)"
  unfolding set_security_def Let_def
  by (intro pruned.within pruned.bind pruned.lift pruned.call) (simp add: pruned_def set_object_kept)

lemma open_waiting_Inr:
  assumes "open_waiting env path wait s = (Inr handle, s1)"
  shows "find_object path (st_objects s) = Some handle" "st_objects s1 = st_objects s"
  using bounded_Inr [OF assms [unfolded open_waiting_def]] stepsD [OF quiet_reads [OF reads_open(2)] assms]
  by (auto simp: store ok_or_Inr open_raw_def object_at_def split: fate.splits if_splits)

lemma quiet_check_copy [simp]: "steps (=) (check_copy e handle path name r)"
  unfolding check_copy_def by (intro quiet_rules; simp)

lemma check_copy_Inr:
  assumes "check_copy e handle path name r s = (Inr u, s1)"
  obtains known where "known_name name = Some known" "map_of (mr_files r) known = Some (file_id_text (file_id_of (ob_info handle)))"
    "fi_links (ob_info handle) = 1" "st_objects s1 = st_objects s"
  using assms
  by (auto simp: check_copy_def store file_information_def win_query_Inr result bind_eq_Some_conv)

lemma find_same: "same_path p q \<Longrightarrow> content p obs = content q obs"
  by (simp add: content_def find_object_def eq_ignore_ascii_case_def)

text \<open>An object opened, checked and deleted through its handle.\<close>

lemma checked_delete_pruned:
  assumes "mr_choice r = Remove" "\<And>handle. steps (=) (check handle)"
    and "\<And>handle s1 u s2 p. find_object path (st_objects s1) = Some handle \<Longrightarrow> check handle s1 = (Inr u, s2) \<Longrightarrow> same_path p path
      \<Longrightarrow> same_path p (legacy_dir pd) \<or> recorded_copy pd r (st_objects s1) p"
  shows "steps (pruned pd r) (io_bind (open_waiting env path wait) (\<lambda>handle. io_bind (check handle) (\<lambda>_. delete_through env handle path wait)))"
proof (rule stepsI)
  fix s x s'
  assume "io_bind (open_waiting env path wait) (\<lambda>handle. io_bind (check handle) (\<lambda>_. delete_through env handle path wait)) s = (x, s')"
  then show "pruned pd r (st_objects s) (st_objects s')"
  proof (cases rule: io_bind_cases)
    case (failed err)
    then show ?thesis
      by (auto dest: stepsD [OF pruned.reading [OF reads_open(2)]])
  next
    case (on handle s1)
    note handle = open_waiting_Inr [OF on(1)]
    from on(2) show ?thesis
    proof (cases rule: io_bind_cases)
      case (failed err)
      then show ?thesis
        using stepsD [OF assms(2) failed(2)] handle(2) pruned.same [of pd r "st_objects s"] by simp
    next
      case (on u s2)
      have s2: "st_objects s2 = st_objects s"
        using stepsD [OF assms(2) on(1)] handle(2) by simp
      have "same_path (ob_path handle) path"
        using handle(1) by (simp add: find_object_def find_Some_iff) blast
      then have "same_path p (legacy_dir pd) \<or> recorded_copy pd r (st_objects s) p" if "same_path p (ob_path handle)" for p
        using assms(3) [OF _ on(1), of p] handle that by (simp add: eq_ignore_ascii_case_def)
      with stepsD [OF delete_through_gone on(2)] assms(1) s2 show ?thesis
        by (intro gone_pruned) auto
    qed
  qed
qed

lemma remove_copy_pruned:
  assumes "mr_choice r = Remove"
  shows "steps (pruned pd r) (remove_copy e (win_join (legacy_dir pd) name) name r)"
  unfolding remove_copy_def
proof (rule checked_delete_pruned [OF assms quiet_check_copy])
  fix handle s1 u s2 p
  assume *: "find_object (win_join (legacy_dir pd) name) (st_objects s1) = Some handle" "same_path p (win_join (legacy_dir pd) name)"
    and c: "check_copy e handle (win_join (legacy_dir pd) name) name r s1 = (Inr u, s2)"
  have "content p (st_objects s1) = Some (ob_info handle, ob_bytes handle)"
    using * find_same [OF *(2)] by (simp add: content_def)
  moreover obtain known where "known_name name = Some known" "map_of (mr_files r) known = Some (file_id_text (file_id_of (ob_info handle)))"
    "fi_links (ob_info handle) = 1"
    using check_copy_Inr [OF c] .
  ultimately show "same_path p (legacy_dir pd) \<or> recorded_copy pd r (st_objects s1) p"
    using *(2) unfolding recorded_copy_def by blast
qed

lemmas pruned_rules = pruned.matching pruned.injection pruned.bind pruned.catch pruned.lift pruned.map_err pruned.watch pruned.cond pruned.opt pruned.pair
  pruned.best

lemma copy_each_pruned:
  assumes "me_paths e = paths_under pd"
  shows "steps (pruned pd r) (copy_each e r names report)"
proof (induction names arbitrary: report)
  case (Cons name names)
  have "steps (pruned pd r) (restrict_copy e path name r)" for path
    unfolding restrict_copy_def by (intro pruned_rules set_security_pruned; simp add: pruned.quiet)
  moreover have "steps (pruned pd r) (if mr_choice r \<noteq> Remove then copy_each e r names report' else io_match (remove_copy e (win_join (legacy_dir pd) name) name r) (\<lambda>x.
      copy_each e r names (if is_ok x then report'\<lparr>cr_removed := cr_removed report' @ [name]\<rparr> else not_reached name report')))" for report'
    using Cons.IH remove_copy_pruned by (cases "mr_choice r") (auto intro: pruned.matching)
  ultimately show ?case
    unfolding copy_each.simps Let_def assms by (intro pruned.matching pruned.injection pruned.lift Cons.IH)
qed (simp add: pruned.lift)

lemma restrict_legacy_pruned: "steps (pruned pd r) (restrict_legacy_directory e)"
  unfolding restrict_legacy_directory_def Let_def by (intro pruned_rules set_security_pruned; simp add: pruned.quiet)

lemma remove_legacy_pruned:
  assumes "mr_choice r = Remove" "me_paths e = paths_under pd"
  shows "steps (pruned pd r) (remove_legacy_directory e)"
  unfolding remove_legacy_directory_def Let_def assms(2)
  by (intro pruned.bind pruned.watch pruned.map_err checked_delete_pruned [OF assms(1)]) simp_all

lemma rewrite_pruned:
  assumes "me_paths e = paths_under pd"
  shows "steps (pruned pd r) (rewrite e (record_path (paths_under pd)) r')"
proof -
  let ?path = "record_path (paths_under pd)" and ?temporary = "win_join (data_dir pd) RECORD_TEMPORARY"
  have names: "with_file_name ?path RECORD_TEMPORARY = ?temporary" "\<not> same_path ?temporary ?path"
    unfolding record_path_def by (rule with_file_name_join) (simp_all add: separator_def win_join_def eq_ignore_ascii_case_def)
  have "steps (pruned pd r) (replace_keeping_security env ?path ?temporary bs po)" for env bs po
  proof (rule stepsI)
    fix s x s'
    assume "replace_keeping_security env ?path ?temporary bs po s = (x, s')"
    from replace_frame [OF this names(2)] show "pruned pd r (st_objects s) (st_objects s')"
      by (auto simp: pruned_def content_def)
  qed
  then show ?thesis
    unfolding rewrite_def names(1) by (intro pruned.bind pruned.lift pruned.within)
qed

lemma copies_pruned:
  assumes "me_paths e = paths_under pd" "data_root_record e s = (Inr (Some r), s1)" "copies e s = (x, s')"
  shows "pruned pd r (st_objects s) (st_objects s')"
proof -
  have emptied: "steps (pruned pd r) (remove_emptied e r restricted report)" for restricted report
  proof (cases "restricted \<and> mr_choice r = Remove")
    case True
    then show ?thesis
      unfolding remove_emptied_def or_not_reached_def
      by (simp, intro pruned_rules remove_legacy_pruned [OF _ assms(1)]; simp add: pruned.quiet)
  qed (auto simp: remove_emptied_def pruned.lift)
  have rewritten: "steps (pruned pd r) (rewrite_not_reached e r report)" for report
    unfolding rewrite_not_reached_def assms(1) by (intro pruned_rules rewrite_pruned assms(1))
  have there: "steps (pruned pd r) (\<lambda>s. case counts e path s of (there, s1) \<Rightarrow> (Inr there, s1))" for path
    using quiet_counts [of e path] by (intro pruned.quiet) (auto simp: steps_def split: prod.splits, metis snd_conv)
  have restricted: "steps (pruned pd r) (or_not_reached name (restrict_legacy_directory e) report)" for name report
    unfolding or_not_reached_def by (intro pruned_rules restrict_legacy_pruned)
  have "st_objects s1 = st_objects s"
    using stepsD [OF quiet_data_root_record assms(2)] by simp
  moreover have "pruned pd r (st_objects s1) (st_objects s')"
    using assms(3) unfolding copies_def Let_def
    by (simp add: io_bind_def [of "io_map_err _ _"] io_map_err_def assms(2) io_bind_def [of "io_lift _"] io_lift_def)
      (erule stepsD [rotated], intro pruned_rules there restricted emptied rewritten copy_each_pruned assms(1); simp add: pruned.quiet)
  ultimately show ?thesis by simp
qed


text \<open>A data root with its record, and one old copy.\<close>

definition old_record :: migration_record where
  "old_record = run_record\<lparr>mr_files := [(CERT, file_id_text \<lparr>id_volume = 7, id_index = 9\<rparr>)]\<rparr>"

definition copies_env :: migration_env where
  "copies_env = run_env\<lparr>me_libs := sample_libs\<lparr>lb_json_parse := (\<lambda>_. Inr (record_json old_record))\<rparr>\<rparr>"

definition old_objects :: "wobject list" where
  "old_objects =
     [console_object (win_join (legacy run_paths) CERT) 0x80 (as_bytes ''pem''), console_object (legacy run_paths) 0x10 [],
      console_object (record_path run_paths) 0x80 (as_bytes ''{}'')]"

lemma copies_env_simps [run]: "me_win copies_env = sample_env" "me_paths copies_env = run_paths" "me_wait copies_env = 1"
  "me_custody copies_env = migration_custody_system" "watch_at copies_env p s = (Inr (), s)"
  by (simp_all add: copies_env_def run_env_def watch_at_def)

lemma old_find [run]:
  "find_object (record_path run_paths) old_objects = Some (console_object (record_path run_paths) 0x80 (as_bytes ''{}''))"
  "find_object (legacy run_paths) old_objects = Some (console_object (legacy run_paths) 0x10 [])"
  "find_object (win_join (legacy run_paths) CERT) old_objects = Some (console_object (win_join (legacy run_paths) CERT) 0x80 (as_bytes ''pem''))"
  "names_in (legacy run_paths) old_objects = [CERT]" "list_all (\<lambda>ob. ob_security ob = sample_descriptor) old_objects"
  by (simp_all add: old_objects_def find_object_def names_in_def console_object_def record_path_def paths_under_def Let_def win_join_def legacy_def under_def
      eq_ignore_ascii_case_def ascii_lower_def)

lemma old_record_read: "\<exists>k. data_root_record copies_env (at_op old_objects 0) = (Inr (Some old_record), at_op old_objects k)"
proof -
  have "lb_json_parse (me_libs copies_env) t = Inr (record_json old_record)" for t
    by (simp add: copies_env_def)
  then show ?thesis
    by (simp add: data_root_record_def record_from_slice_def texts_run record_roundtrip Let_def run run_ops)
qed

abbreviation record_object :: wobject where
  "record_object \<equiv> console_object (record_path run_paths) 0x80 (as_bytes ''{}'')"

definition emptied_objects :: "wobject list" where
  "emptied_objects = [console_object (legacy run_paths) 0x10 [], record_object]"

lemma emptied_find [run]:
  "remove_object (win_join (legacy run_paths) CERT) old_objects = emptied_objects" "remove_object (legacy run_paths) emptied_objects = [record_object]"
  "find_object (legacy run_paths) emptied_objects = Some (console_object (legacy run_paths) 0x10 [])" "names_in (legacy run_paths) emptied_objects = []"
  by (simp_all add: old_objects_def emptied_objects_def remove_object_def find_object_def names_in_def console_object_def record_path_def paths_under_def
      Let_def win_join_def legacy_def under_def eq_ignore_ascii_case_def ascii_lower_def)

lemma old_record_simps: "mr_choice old_record = Remove" "mr_copies_not_reached old_record = []"
  "map_of (mr_files old_record) CERT = Some (file_id_text \<lparr>id_volume = 7, id_index = 9\<rparr>)" "known_name CERT = Some CERT"
  by (simp_all add: old_record_def run_record_def known_name_def REQUIRED_def eq_ignore_ascii_case_def)

lemma old_steps:
  "\<exists>k. restrict_legacy_directory copies_env (at_op old_objects n) = (Inr (), at_op old_objects k)"
  "\<exists>k. restrict_copy copies_env (win_join (legacy run_paths) CERT) CERT old_record (at_op old_objects n) = (Inr (), at_op old_objects k)"
  "\<exists>k. remove_copy copies_env (win_join (legacy run_paths) CERT) CERT old_record (at_op old_objects n) = (Inr (), at_op emptied_objects k)"
  "\<exists>k. remove_legacy_directory copies_env (at_op emptied_objects n) = (Inr (), at_op [record_object] k)"
  by (simp_all add: restrict_legacy_directory_def restrict_copy_def remove_copy_def check_copy_def remove_legacy_directory_def delete_through_def Let_def
      guard_def old_record_simps run run_ops)

lemma old_copies: "\<exists>r k. copies copies_env (at_op old_objects 0) = (Inr r, at_op [record_object] k)"
proof -
  obtain a where a: "data_root_record copies_env (at_op old_objects 0) = (Inr (Some old_record), at_op old_objects a)"
    using old_record_read by blast
  obtain b where b: "counts copies_env (legacy run_paths) (at_op old_objects a) = (True, at_op old_objects b)"
    by (simp add: counts_def run run_ops)
  obtain c where c: "restrict_legacy_directory copies_env (at_op old_objects b) = (Inr (), at_op old_objects c)"
    using old_steps(1) by blast
  obtain d where d: "restrict_copy copies_env (win_join (legacy run_paths) CERT) CERT old_record (at_op old_objects (Suc (Suc c))) = (Inr (), at_op old_objects d)"
    using old_steps(2) by blast
  obtain f where f: "remove_copy copies_env (win_join (legacy run_paths) CERT) CERT old_record (at_op old_objects d) = (Inr (), at_op emptied_objects f)"
    using old_steps(3) by blast
  obtain g where g: "remove_legacy_directory copies_env (at_op emptied_objects (Suc (Suc f))) = (Inr (), at_op [record_object] g)"
    using old_steps(4) by blast
  show ?thesis
    by (simp add: copies_def or_not_reached_def io_match_def remove_emptied_def rewrite_not_reached_def custody_entries_def Let_def
        a b c d f g old_record_simps run)
qed


section \<open>The start arguments\<close>

definition choice_argument :: "choice \<Rightarrow> string" where
  "choice_argument ch = ''--migrate-legacy='' @ (case ch of Remove \<Rightarrow> ''remove'' | Keep \<Rightarrow> ''keep'')"

definition anchor_argument :: "string \<Rightarrow> string" where
  "anchor_argument f = ''--trust-anchor-sha256='' @ f"

lemma choice_not_anchor: "choice_argument ch \<noteq> anchor_argument f" "anchor_argument f = anchor_argument g \<longleftrightarrow> f = g" "choice_argument ch = choice_argument d \<longleftrightarrow> ch = d"
  by (auto simp: choice_argument_def anchor_argument_def split: choice.splits)

lemma parse_step:
  "parse_arguments (a # rest) c fs = Inr x \<longleftrightarrow>
     (\<exists>ch. a = choice_argument ch \<and> c = None \<and> parse_arguments rest (Some ch) fs = Inr x)
     \<or> (\<exists>f. a = anchor_argument f \<and> is_fingerprint f \<and> parse_arguments rest c (insort_insert f fs) = Inr x)"
proof (cases "strip_prefix a ''--migrate-legacy=''")
  case (Some v)
  then have a: "a = ''--migrate-legacy='' @ v"
    by (simp add: rust_str)
  have "(\<exists>ch. a = choice_argument ch \<and> P ch) \<longleftrightarrow> (v = ''remove'' \<and> P Remove) \<or> (v = ''keep'' \<and> P Keep)" "a \<noteq> anchor_argument f" for P f
    unfolding a by (auto simp: choice_argument_def anchor_argument_def split: choice.splits) (metis choice.exhaust choice.simps(3,4))+
  with Some show ?thesis
    by auto
next
  case None
  then have "a \<noteq> choice_argument ch" for ch
    by (auto simp: choice_argument_def strip_prefix_def split: if_splits)
  then show ?thesis
  proof (cases "strip_prefix a ''--trust-anchor-sha256=''")
    case (Some f)
    then have "a = anchor_argument f"
      by (simp add: rust_str anchor_argument_def)
    with Some None \<open>\<And>ch. a \<noteq> choice_argument ch\<close> show ?thesis
      by (auto simp: choice_not_anchor)
  next
    case outer: None
    then have "a \<noteq> anchor_argument f" for f
      by (auto simp: anchor_argument_def strip_prefix_def split: if_splits)
    with outer None \<open>\<And>ch. a \<noteq> choice_argument ch\<close> show ?thesis
      by simp
  qed
qed

definition is_choice :: "string \<Rightarrow> bool" where
  "is_choice a \<longleftrightarrow> (\<exists>ch. a = choice_argument ch)"

definition is_anchor :: "string \<Rightarrow> bool" where
  "is_anchor a \<longleftrightarrow> (\<exists>f. a = anchor_argument f \<and> is_fingerprint f)"

definition anchors_of :: "string list \<Rightarrow> string list" where
  "anchors_of arguments = map (drop 22) (filter (\<lambda>a. \<not> is_choice a) arguments)"

lemma argument_simps: "is_choice (choice_argument ch)" "\<not> is_choice (anchor_argument f)" "is_anchor (anchor_argument f) \<longleftrightarrow> is_fingerprint f"
  "drop 22 (anchor_argument f) = f"
  using choice_not_anchor(1) [of _ f] choice_not_anchor(1) [of _ f, symmetric]
  by (auto simp: is_choice_def is_anchor_def choice_not_anchor) (simp add: anchor_argument_def)

text \<open>
  The arguments that are accepted: each is a choice or an anchor's
  fingerprint, with one choice at most, and the fingerprints are collected in
  their order.
\<close>

lemma parse_arguments_Inr:
  "parse_arguments arguments c fs = Inr (c', fs') \<longleftrightarrow>
     list_all (\<lambda>a. is_choice a \<or> is_anchor a) arguments
     \<and> (filter is_choice arguments = [] \<and> c' = c \<or> (\<exists>ch. filter is_choice arguments = [choice_argument ch] \<and> c = None \<and> c' = Some ch))
     \<and> fs' = fold insort_insert (anchors_of arguments) fs"
proof (induction arguments arbitrary: c fs)
  case (Cons a rest)
  consider (choice) ch where "a = choice_argument ch" | (anchor) f where "a = anchor_argument f" "is_fingerprint f"
    | (neither) "\<not> is_choice a" "\<not> is_anchor a"
    unfolding is_choice_def is_anchor_def by blast
  then show ?case
  proof cases
    case choice
    then show ?thesis
      unfolding parse_step by (simp add: Cons.IH argument_simps choice_not_anchor anchors_of_def) blast
  next
    case anchor
    then have "parse_arguments (a # rest) c fs = Inr (c', fs') \<longleftrightarrow> parse_arguments rest c (insort_insert f fs) = Inr (c', fs')"
      unfolding parse_step using choice_not_anchor(1) [of _ f, symmetric] by (simp add: choice_not_anchor(2))
    with anchor show ?thesis
      by (simp add: Cons.IH argument_simps anchors_of_def)
  next
    case neither
    then have "parse_arguments (a # rest) c fs \<noteq> Inr (c', fs')"
      unfolding parse_step is_choice_def is_anchor_def by blast
    with neither show ?thesis by simp
  qed
qed (auto simp: anchors_of_def)

lemma fold_insort_insert: "fold insort_insert xs [] = sorted_list_of_set (set xs)" for xs :: "string list"
proof -
  have "sorted (fold insort_insert xs ys) \<and> distinct (fold insort_insert xs ys) \<and> set (fold insort_insert xs ys) = set xs \<union> set ys"
    if "sorted ys" "distinct ys" for ys :: "string list"
    using that by (induction xs arbitrary: ys) (auto simp: sorted_insort_insert distinct_insort_insert set_insort_insert)
  from this [of "[]"] show ?thesis
    by (intro sorted_distinct_set_unique) auto
qed

text \<open>
  Start arguments ask for a migration exactly when every one of them
  is a choice, to remove or to keep, or the fingerprint of a trust anchor, with
  exactly one choice and at least one fingerprint. The request is that choice
  and the set of the fingerprints, whatever their order and however often one
  is repeated; and only a start without arguments asks for none.
\<close>

lemma start_arguments_exact:
  "(parse_start_arguments arguments = Inr (Some q) \<longleftrightarrow>
      list_all (\<lambda>a. is_choice a \<or> is_anchor a) arguments \<and> filter is_choice arguments = [choice_argument (rq_choice q)]
      \<and> rq_fingerprints q = sorted_list_of_set (set (anchors_of arguments)) \<and> anchors_of arguments \<noteq> [])
   \<and> (parse_start_arguments arguments = Inr None \<longleftrightarrow> arguments = [])"
proof (cases "arguments = []")
  case False
  have "fold insort_insert (anchors_of arguments) [] = [] \<longleftrightarrow> anchors_of arguments = []"
    by (simp add: fold_insort_insert)
  with False show ?thesis
    by (cases q) (auto simp: parse_start_arguments_def result ok_or_Inr parse_arguments_Inr fold_insort_insert choice_not_anchor split: prod.splits)
qed (simp add: parse_start_arguments_def)

end
