(* ===== verification/Instance_Lock.thy ===== *)
theory Instance_Lock
  imports Rust_Result Agent_Errors
begin

text \<open>
  The per-host instance lock (\<open>instance_lock.rs\<close>): what the process's token
  may do, and the calls that build the private namespace and the mutex whose
  open handle is the lock. The calls of several processes interleave, and a
  process may end at any point. What a call that fails answers, the token and
  the comparison of SIDs are Windows'.
\<close>

unbundle bit_operations_syntax

section \<open>Outcomes\<close>

definition STDERR_ANOTHER_INSTANCE :: string where
  "STDERR_ANOTHER_INSTANCE = ''cg-agent: another CyberGuard agent instance is running on this host''"

definition STDERR_CONTROLS_ETW :: string where
  "STDERR_CONTROLS_ETW =
     ''cg-agent: instance lock failed: this token controls ETW sessions but is not an elevated administrator's or SYSTEM's''"

definition stderr_lock_failed :: "string \<Rightarrow> u32 \<Rightarrow> string" where
  "stderr_lock_failed at_step code = ''cg-agent: instance lock failed: '' @ at_step @ '': Win32 error '' @ dec (unat code)"

datatype lock_outcome =
    Acquired
  | Held
  | ControlsEtwOutsideModel
  | Unprivileged
  | LockFailed string u32

fun lock_exit_code :: "lock_outcome \<Rightarrow> u8 option" where
  "lock_exit_code Acquired = None"
| "lock_exit_code Unprivileged = None"
| "lock_exit_code Held = Some 10"
| "lock_exit_code ControlsEtwOutsideModel = Some 1"
| "lock_exit_code (LockFailed _ _) = Some 1"

fun lock_stderr_line :: "lock_outcome \<Rightarrow> string option" where
  "lock_stderr_line Acquired = None"
| "lock_stderr_line Unprivileged = None"
| "lock_stderr_line Held = Some STDERR_ANOTHER_INSTANCE"
| "lock_stderr_line ControlsEtwOutsideModel = Some STDERR_CONTROLS_ETW"
| "lock_stderr_line (LockFailed at_step code) = Some (stderr_lock_failed at_step code)"

section \<open>The token\<close>

datatype token_class = CanCreate | ControlsEtw | Ordinary

datatype well_known_sid = BuiltinAdministrators | BuiltinPerfLoggingUsers | LocalService | NetworkService

text \<open>
  What Windows answers about a token: the SIDs and attributes of its groups,
  its privileges as identifiers of a low and a high part, the well-known SIDs,
  the equality of SIDs, and the identifier of \<open>SeSystemProfilePrivilege\<close>.
\<close>

record token_answers =
  ta_open :: "(u32, unit) result"
  ta_well_known :: "well_known_sid \<Rightarrow> bytes option"
  ta_equal_sid :: "bytes \<Rightarrow> bytes \<Rightarrow> bool"
  ta_groups :: "(u32, (bytes \<times> u32) list) result"
  ta_profile_privilege :: "(u32 \<times> i32) option"
  ta_privileges :: "(u32, (u32 \<times> i32) list) result"

definition SE_GROUP_ENABLED :: u32 where "SE_GROUP_ENABLED = 4"

definition has_enabled_group :: "token_answers \<Rightarrow> well_known_sid \<Rightarrow> bool" where
  "has_enabled_group token sid_type =
     (case ta_well_known token sid_type of
        None \<Rightarrow> False
      | Some target \<Rightarrow>
          (case ta_groups token of
             Inl _ \<Rightarrow> False
           | Inr groups \<Rightarrow>
               list_ex (\<lambda>(sid, attributes). attributes AND SE_GROUP_ENABLED \<noteq> 0 \<and> ta_equal_sid token sid target) groups))"

definition has_privilege :: "token_answers \<Rightarrow> bool" where
  "has_privilege token =
     (case ta_profile_privilege token of
        None \<Rightarrow> False
      | Some luid \<Rightarrow>
          (case ta_privileges token of
             Inl _ \<Rightarrow> False
           | Inr privileges \<Rightarrow> list_ex (\<lambda>entry. fst entry = fst luid \<and> snd entry = snd luid) privileges))"

definition classify_token :: "token_answers \<Rightarrow> token_class" where
  "classify_token token =
     (if has_enabled_group token BuiltinAdministrators then CanCreate
      else if has_enabled_group token BuiltinPerfLoggingUsers \<or> has_enabled_group token LocalService
        \<or> has_enabled_group token NetworkService \<or> has_privilege token
      then ControlsEtw
      else Ordinary)"

section \<open>The calls\<close>

text \<open>
  Where a process is: the next call of \<open>acquire\<close>, its decision, or past the
  lock. While it closes its handles it carries the outcome it has decided on.
\<close>

datatype lock_phase =
    Outside
  | AtToken
  | AtBoundary
  | AtAdministratorsSid
  | AtAddSid
  | AtSecurityDescriptor
  | AtCreateNamespace
  | AtOpenNamespace
  | AtCreateMutex
  | AtCloseMutex
  | AtCloseNamespace lock_outcome
  | Decided lock_outcome
  | AtDropNamespace

text \<open>
  The environment of a process: its token and, call by call, the error that
  the call fails with, if it fails. The host has the open handles of the
  processes on the namespace and on the mutex: each object exists while one of
  them is open.
\<close>

record lock_env =
  le_token :: token_answers
  le_boundary :: "u32 option"
  le_administrators_error :: u32
  le_add_sid :: "u32 option"
  le_descriptor :: "u32 option"
  le_create_namespace :: "u32 option"
  le_open_namespace :: "u32 option"
  le_no_namespace :: u32
  le_create_mutex :: "u32 option"

type_synonym pid = nat

record host =
  ho_phase :: "pid \<Rightarrow> lock_phase"
  ho_namespaces :: "pid list"
  ho_mutexes :: "pid list"

definition ERROR_ALREADY_EXISTS :: u32 where "ERROR_ALREADY_EXISTS = 183"

definition goto :: "pid \<Rightarrow> lock_phase \<Rightarrow> host \<Rightarrow> host" where
  "goto p phase h = h\<lparr>ho_phase := (ho_phase h)(p := phase)\<rparr>"

definition lock_fails :: "string \<Rightarrow> u32 \<Rightarrow> lock_phase" where
  "lock_fails at_step code = Decided (LockFailed at_step code)"

definition acquire_step :: "lock_env \<Rightarrow> pid \<Rightarrow> host \<Rightarrow> host" where
  "acquire_step e p h =
     (case ta_open (le_token e) of
        Inl code \<Rightarrow> goto p (lock_fails ''open process token'' code) h
      | Inr _ \<Rightarrow>
          (case classify_token (le_token e) of
             CanCreate \<Rightarrow> goto p AtBoundary h
           | ControlsEtw \<Rightarrow> goto p (Decided ControlsEtwOutsideModel) h
           | Ordinary \<Rightarrow> goto p (Decided Unprivileged) h))"

definition boundary_step :: "lock_env \<Rightarrow> pid \<Rightarrow> host \<Rightarrow> host" where
  "boundary_step e p h =
     (case ho_phase h p of
        AtBoundary \<Rightarrow>
          goto p (case le_boundary e of None \<Rightarrow> AtAdministratorsSid | Some code \<Rightarrow> lock_fails ''create boundary descriptor'' code) h
      | AtAdministratorsSid \<Rightarrow>
          goto p (case ta_well_known (le_token e) BuiltinAdministrators of
                    None \<Rightarrow> lock_fails ''build Administrators SID'' (le_administrators_error e)
                  | Some _ \<Rightarrow> AtAddSid) h
      | AtAddSid \<Rightarrow>
          goto p (case le_add_sid e of None \<Rightarrow> AtSecurityDescriptor | Some code \<Rightarrow> lock_fails ''add SID to boundary descriptor'' code) h
      | _ \<Rightarrow> h)"

definition namespace_step :: "lock_env \<Rightarrow> pid \<Rightarrow> host \<Rightarrow> host" where
  "namespace_step e p h =
     (case ho_phase h p of
        AtSecurityDescriptor \<Rightarrow>
          goto p (case le_descriptor e of None \<Rightarrow> AtCreateNamespace | Some code \<Rightarrow> lock_fails ''parse namespace security descriptor'' code) h
      | AtCreateNamespace \<Rightarrow>
          (case (if le_create_namespace e = None \<and> ho_namespaces h \<noteq> [] then Some ERROR_ALREADY_EXISTS else le_create_namespace e) of
             None \<Rightarrow> goto p AtCreateMutex (h\<lparr>ho_namespaces := p # ho_namespaces h\<rparr>)
           | Some code \<Rightarrow>
               if code \<noteq> ERROR_ALREADY_EXISTS then goto p (lock_fails ''create private namespace'' code) h
               else goto p AtOpenNamespace h)
      | AtOpenNamespace \<Rightarrow>
          (case (if le_open_namespace e = None \<and> ho_namespaces h = [] then Some (le_no_namespace e) else le_open_namespace e) of
             None \<Rightarrow> goto p AtCreateMutex (h\<lparr>ho_namespaces := p # ho_namespaces h\<rparr>)
           | Some code \<Rightarrow> goto p (lock_fails ''open private namespace'' code) h)
      | _ \<Rightarrow> h)"

definition mutex_step :: "lock_env \<Rightarrow> pid \<Rightarrow> host \<Rightarrow> host" where
  "mutex_step e p h =
     (case ho_phase h p of
        AtCreateMutex \<Rightarrow>
          (case le_create_mutex e of
             Some code \<Rightarrow> goto p (AtCloseNamespace (LockFailed ''create mutex'' code)) h
           | None \<Rightarrow>
               goto p (if ho_mutexes h \<noteq> [] then AtCloseMutex else Decided Acquired) (h\<lparr>ho_mutexes := p # ho_mutexes h\<rparr>))
      | AtCloseMutex \<Rightarrow> goto p (AtCloseNamespace Held) (h\<lparr>ho_mutexes := remove1 p (ho_mutexes h)\<rparr>)
      | AtCloseNamespace outcome \<Rightarrow> goto p (Decided outcome) (h\<lparr>ho_namespaces := remove1 p (ho_namespaces h)\<rparr>)
      | _ \<Rightarrow> h)"

text \<open>The next call of \<open>acquire\<close>.\<close>

definition lock_step :: "lock_env \<Rightarrow> pid \<Rightarrow> host \<Rightarrow> host" where
  "lock_step e p h =
     (case ho_phase h p of
        AtToken \<Rightarrow> acquire_step e p h
      | AtBoundary \<Rightarrow> boundary_step e p h
      | AtAdministratorsSid \<Rightarrow> boundary_step e p h
      | AtAddSid \<Rightarrow> boundary_step e p h
      | AtSecurityDescriptor \<Rightarrow> namespace_step e p h
      | AtCreateNamespace \<Rightarrow> namespace_step e p h
      | AtOpenNamespace \<Rightarrow> namespace_step e p h
      | AtCreateMutex \<Rightarrow> mutex_step e p h
      | AtCloseMutex \<Rightarrow> mutex_step e p h
      | AtCloseNamespace _ \<Rightarrow> mutex_step e p h
      | _ \<Rightarrow> h)"

text \<open>The drop of the guard closes the mutex, then the namespace.\<close>

definition drop_step :: "pid \<Rightarrow> host \<Rightarrow> host" where
  "drop_step p h =
     (case ho_phase h p of
        Decided Acquired \<Rightarrow> goto p AtDropNamespace (h\<lparr>ho_mutexes := remove1 p (ho_mutexes h)\<rparr>)
      | AtDropNamespace \<Rightarrow> goto p Outside (h\<lparr>ho_namespaces := remove1 p (ho_namespaces h)\<rparr>)
      | _ \<Rightarrow> h)"

text \<open>The kernel closes the handles of a process that ends.\<close>

definition process_ends :: "pid \<Rightarrow> host \<Rightarrow> host" where
  "process_ends p h =
     goto p Outside (h\<lparr>ho_namespaces := removeAll p (ho_namespaces h), ho_mutexes := removeAll p (ho_mutexes h)\<rparr>)"

definition holds_lock :: "host \<Rightarrow> pid \<Rightarrow> bool" where
  "holds_lock h p \<longleftrightarrow> ho_phase h p = Decided Acquired"

text \<open>\<open>acquire\<close>, its calls one after the other with no other process between them.\<close>

definition acquire :: "lock_env \<Rightarrow> pid \<Rightarrow> host \<Rightarrow> host" where
  "acquire e p h = (lock_step e p ^^ 11) (goto p AtToken h)"

definition acquired_outcome :: "pid \<Rightarrow> host \<Rightarrow> lock_outcome option" where
  "acquired_outcome p h = (case ho_phase h p of Decided outcome \<Rightarrow> Some outcome | _ \<Rightarrow> None)"

section \<open>Processes side by side\<close>

text \<open>
  Any number of processes, their calls interleaved in any order, with any
  answers of Windows; a process starts, makes its next call, drops the lock
  or ends, at any moment.
\<close>

inductive lock_moves :: "host \<Rightarrow> host \<Rightarrow> bool" where
  starts: "ho_phase h p = Outside \<or> (ho_phase h p = Decided outcome \<and> outcome \<noteq> Acquired) \<Longrightarrow> lock_moves h (goto p AtToken h)"
| calls: "lock_moves h (lock_step e p h)"
| drops: "lock_moves h (drop_step p h)"
| ends: "lock_moves h (process_ends p h)"

definition quiet_host :: host where
  "quiet_host = \<lparr>ho_phase = (\<lambda>_. Outside), ho_namespaces = [], ho_mutexes = []\<rparr>"

section \<open>The handles of a process\<close>

fun has_mutex :: "lock_phase \<Rightarrow> bool" where
  "has_mutex AtCloseMutex = True"
| "has_mutex (Decided outcome) = (outcome = Acquired)"
| "has_mutex _ = False"

fun has_namespace :: "lock_phase \<Rightarrow> bool" where
  "has_namespace AtCreateMutex = True"
| "has_namespace AtCloseMutex = True"
| "has_namespace (AtCloseNamespace _) = True"
| "has_namespace (Decided outcome) = (outcome = Acquired)"
| "has_namespace AtDropNamespace = True"
| "has_namespace _ = False"

definition lock_inv :: "host \<Rightarrow> bool" where
  "lock_inv h \<longleftrightarrow>
     distinct (ho_mutexes h) \<and> distinct (ho_namespaces h)
     \<and> (\<forall>p. p \<in> set (ho_mutexes h) \<longleftrightarrow> has_mutex (ho_phase h p))
     \<and> (\<forall>p. p \<in> set (ho_namespaces h) \<longleftrightarrow> has_namespace (ho_phase h p))
     \<and> (\<forall>p q. holds_lock h p \<longrightarrow> holds_lock h q \<longrightarrow> p = q)
     \<and> (\<forall>p outcome. ho_phase h p = AtCloseNamespace outcome \<longrightarrow> outcome \<noteq> Acquired)"

lemma lock_inv_D:
  assumes "lock_inv h"
  shows "distinct (ho_mutexes h)" "distinct (ho_namespaces h)" "p \<in> set (ho_mutexes h) \<longleftrightarrow> has_mutex (ho_phase h p)"
    "p \<in> set (ho_namespaces h) \<longleftrightarrow> has_namespace (ho_phase h p)" "holds_lock h p \<Longrightarrow> holds_lock h q \<Longrightarrow> p = q"
    "ho_phase h p = AtCloseNamespace outcome \<Longrightarrow> outcome \<noteq> Acquired"
  using assms by (auto simp: lock_inv_def)

text \<open>A move of one process to a phase, with the handles that the phase has.\<close>

lemma lock_inv_goto:
  assumes "lock_inv h" "distinct ms" "distinct ns" "\<And>q. q \<noteq> p \<Longrightarrow> q \<in> set ms \<longleftrightarrow> q \<in> set (ho_mutexes h)"
    and "\<And>q. q \<noteq> p \<Longrightarrow> q \<in> set ns \<longleftrightarrow> q \<in> set (ho_namespaces h)" "p \<in> set ms \<longleftrightarrow> has_mutex phase" "p \<in> set ns \<longleftrightarrow> has_namespace phase"
    and "phase = Decided Acquired \<Longrightarrow> ho_mutexes h = [] \<or> holds_lock h p" "\<And>outcome. phase = AtCloseNamespace outcome \<Longrightarrow> outcome \<noteq> Acquired"
  shows "lock_inv (goto p phase (h\<lparr>ho_namespaces := ns, ho_mutexes := ms\<rparr>))"
proof -
  note inv = lock_inv_D [OF assms(1)]
  have alone: "q = p" if "phase = Decided Acquired" "ho_phase h q = Decided Acquired" for q
    using assms(8) [OF that(1)] inv(3) [of q] inv(5) [of q p] that(2) by (auto simp: holds_lock_def)
  show ?thesis
    using assms(2-7,9) inv alone by (auto simp: lock_inv_def goto_def holds_lock_def)
qed

lemma lock_inv_keep:
  assumes "lock_inv h" "has_mutex phase = has_mutex (ho_phase h p)" "has_namespace phase = has_namespace (ho_phase h p)"
    and "phase = Decided Acquired \<Longrightarrow> ho_phase h p = Decided Acquired" "\<And>outcome. phase = AtCloseNamespace outcome \<Longrightarrow> outcome \<noteq> Acquired"
  shows "lock_inv (goto p phase h)"
  using lock_inv_goto [OF assms(1), of "ho_mutexes h" "ho_namespaces h" p phase] lock_inv_D [OF assms(1)] assms(2-)
  by (auto simp: holds_lock_def)

lemma acquire_step_inv: "lock_inv h \<Longrightarrow> ho_phase h p = AtToken \<Longrightarrow> lock_inv (acquire_step e p h)"
  by (auto simp: acquire_step_def lock_fails_def intro!: lock_inv_keep split: sum.split token_class.split)

lemma boundary_step_inv: "lock_inv h \<Longrightarrow> lock_inv (boundary_step e p h)"
  by (auto simp: boundary_step_def lock_fails_def intro!: lock_inv_keep split: lock_phase.split option.split)

lemma namespace_step_inv:
  assumes "lock_inv h"
  shows "lock_inv (namespace_step e p h)"
proof -
  have keep: "lock_inv (goto p phase h)"
    if "\<not> has_mutex (ho_phase h p)" "\<not> has_namespace (ho_phase h p)" "\<not> has_mutex phase" "\<not> has_namespace phase" for phase
    using that by (intro lock_inv_keep [OF assms]) auto
  have new: "lock_inv (goto p AtCreateMutex (h\<lparr>ho_namespaces := p # ho_namespaces h\<rparr>))"
    if "ho_phase h p = AtCreateNamespace \<or> ho_phase h p = AtOpenNamespace"
    using lock_inv_goto [OF assms, of "ho_mutexes h" "p # ho_namespaces h" p AtCreateMutex] lock_inv_D [OF assms] that by auto
  show ?thesis
  proof (cases "ho_phase h p")
    case AtSecurityDescriptor
    then show ?thesis
      by (auto simp: namespace_step_def lock_fails_def keep split: option.split)
  next
    case AtCreateNamespace
    with new show ?thesis
      by (auto simp: namespace_step_def lock_fails_def keep split: option.split)
  next
    case AtOpenNamespace
    with new show ?thesis
      by (auto simp: namespace_step_def lock_fails_def keep split: option.split)
  qed (use assms in \<open>simp_all add: namespace_step_def\<close>)
qed

lemma mutex_step_inv:
  assumes "lock_inv h"
  shows "lock_inv (mutex_step e p h)"
proof -
  note inv = lock_inv_D [OF assms]
  show ?thesis
  proof (cases "ho_phase h p")
    case AtCreateMutex
    then have "lock_inv (goto p (if ho_mutexes h \<noteq> [] then AtCloseMutex else Decided Acquired) (h\<lparr>ho_mutexes := p # ho_mutexes h\<rparr>))"
      using lock_inv_goto [OF assms, of "p # ho_mutexes h" "ho_namespaces h" p "if ho_mutexes h \<noteq> [] then AtCloseMutex else Decided Acquired"] inv
      by auto
    moreover have "lock_inv (goto p (AtCloseNamespace (LockFailed at_step code)) h)" for at_step code
      using AtCreateMutex by (intro lock_inv_keep [OF assms]) auto
    ultimately show ?thesis
      using AtCreateMutex by (auto simp: mutex_step_def split: option.split)
  next
    case AtCloseMutex
    then show ?thesis
      using lock_inv_goto [OF assms, of "remove1 p (ho_mutexes h)" "ho_namespaces h" p "AtCloseNamespace Held"] inv
      by (auto simp: mutex_step_def)
  next
    case (AtCloseNamespace outcome)
    then show ?thesis
      using lock_inv_goto [OF assms, of "ho_mutexes h" "remove1 p (ho_namespaces h)" p "Decided outcome"] inv
      by (auto simp: mutex_step_def)
  qed (use assms in \<open>simp_all add: mutex_step_def\<close>)
qed

lemma drop_step_inv:
  assumes "lock_inv h"
  shows "lock_inv (drop_step p h)"
proof -
  note inv = lock_inv_D [OF assms]
  have "lock_inv (goto p AtDropNamespace (h\<lparr>ho_mutexes := remove1 p (ho_mutexes h)\<rparr>))" if "ho_phase h p = Decided Acquired"
    using lock_inv_goto [OF assms, of "remove1 p (ho_mutexes h)" "ho_namespaces h" p AtDropNamespace] inv that by auto
  moreover have "lock_inv (goto p Outside (h\<lparr>ho_namespaces := remove1 p (ho_namespaces h)\<rparr>))" if "ho_phase h p = AtDropNamespace"
    using lock_inv_goto [OF assms, of "ho_mutexes h" "remove1 p (ho_namespaces h)" p Outside] inv that by auto
  ultimately show ?thesis
    using assms by (auto simp: drop_step_def split: lock_phase.split lock_outcome.split)
qed

lemma lock_inv_moves: "lock_moves h h' \<Longrightarrow> lock_inv h \<Longrightarrow> lock_inv h'"
proof (induction rule: lock_moves.induct)
  case (starts h p outcome)
  then show ?case
    by (auto intro!: lock_inv_keep)
next
  case (calls h e p)
  then show ?case
    by (auto simp: lock_step_def intro!: acquire_step_inv boundary_step_inv namespace_step_inv mutex_step_inv split: lock_phase.split)
next
  case (ends h p)
  then show ?case
    unfolding process_ends_def by (intro lock_inv_goto) (auto simp: lock_inv_D(1,2) distinct_removeAll)
qed (rule drop_step_inv)

lemma reached_inv: "lock_moves\<^sup>*\<^sup>* quiet_host h \<Longrightarrow> lock_inv h"
proof (induction rule: rtranclp_induct)
  case base
  show ?case
    by (simp add: lock_inv_def quiet_host_def holds_lock_def)
qed (rule lock_inv_moves)

section \<open>The calls end\<close>

fun calls_left :: "lock_phase \<Rightarrow> nat" where
  "calls_left AtToken = 10"
| "calls_left AtBoundary = 9"
| "calls_left AtAdministratorsSid = 8"
| "calls_left AtAddSid = 7"
| "calls_left AtSecurityDescriptor = 6"
| "calls_left AtCreateNamespace = 5"
| "calls_left AtOpenNamespace = 4"
| "calls_left AtCreateMutex = 3"
| "calls_left AtCloseMutex = 2"
| "calls_left (AtCloseNamespace _) = 1"
| "calls_left _ = 0"

lemma goto_phase [simp]: "ho_phase (goto p phase h) q = (if q = p then phase else ho_phase h q)"
  by (simp add: goto_def)

lemmas lock_steps = lock_step_def acquire_step_def boundary_step_def namespace_step_def mutex_step_def lock_fails_def

lemma lock_step_decided: "ho_phase h p = Decided outcome \<Longrightarrow> lock_step e p h = h"
  by (simp add: lock_step_def)

lemma lock_step_phase:
  assumes "0 < calls_left (ho_phase h p)"
  shows "(\<exists>outcome. ho_phase (lock_step e p h) p = Decided outcome)
    \<or> (0 < calls_left (ho_phase (lock_step e p h) p) \<and> calls_left (ho_phase (lock_step e p h) p) < calls_left (ho_phase h p))"
  using assms by (cases "ho_phase h p") (auto simp: lock_steps split: sum.split token_class.split option.split)

lemma lock_steps_decide:
  "(\<exists>outcome. ho_phase h p = Decided outcome) \<or> (0 < calls_left (ho_phase h p) \<and> calls_left (ho_phase h p) \<le> n) \<Longrightarrow>
   \<exists>outcome. ho_phase ((lock_step e p ^^ n) h) p = Decided outcome"
proof (induction n arbitrary: h)
  case (Suc n)
  then have "(\<exists>outcome. ho_phase (lock_step e p h) p = Decided outcome)
      \<or> (0 < calls_left (ho_phase (lock_step e p h) p) \<and> calls_left (ho_phase (lock_step e p h) p) \<le> n)"
    using lock_step_phase [of h p e] lock_step_decided [of h p] by fastforce
  with Suc.IH show ?case
    by (simp add: funpow_swap1)
qed auto

text \<open>\<open>acquire\<close> always comes to an outcome.\<close>

lemma acquire_decides: "\<exists>outcome. acquired_outcome p (acquire e p h) = Some outcome"
  using lock_steps_decide [of "goto p AtToken h" p 11 e] by (auto simp: acquire_def acquired_outcome_def)

section \<open>One instance\<close>

text \<open>
  Claim C21. At most one process of the host holds the instance lock, at every
  moment of every interleaving of any number of starts, drops and ends of
  processes, whichever calls fail: as long as one process holds it, no other
  comes to hold it.
\<close>

theorem one_instance:
  assumes "lock_moves\<^sup>*\<^sup>* quiet_host h" "holds_lock h p" "holds_lock h q"
  shows "p = q"
  using lock_inv_D(5) [OF reached_inv [OF assms(1)] assms(2,3)] .

lemma calls_moves: "lock_moves\<^sup>*\<^sup>* h ((lock_step e p ^^ n) h)"
  by (induction n) (auto intro: rtranclp.rtrancl_into_rtrancl lock_moves.calls)

lemma acquire_moves: "ho_phase h p = Outside \<Longrightarrow> lock_moves\<^sup>*\<^sup>* h (acquire e p h)"
  unfolding acquire_def by (rule converse_rtranclp_into_rtranclp [OF lock_moves.starts calls_moves]) simp

text \<open>A token that may create the lock, and calls that do not fail.\<close>

definition may_create :: "lock_env \<Rightarrow> bool" where
  "may_create e \<longleftrightarrow>
     is_ok (ta_open (le_token e)) \<and> classify_token (le_token e) = CanCreate \<and> le_boundary e = None \<and> le_add_sid e = None
     \<and> le_descriptor e = None \<and> le_create_namespace e = None \<and> le_open_namespace e = None \<and> le_create_mutex e = None"

lemma administrators_sid: "classify_token token = CanCreate \<Longrightarrow> \<exists>sid. ta_well_known token BuiltinAdministrators = Some sid"
  by (auto simp: classify_token_def has_enabled_group_def split: if_splits option.splits)

lemma acquire_free:
  assumes "may_create e" "ho_mutexes h = []"
  shows "ho_phase (acquire e p h) p = Decided Acquired"
proof -
  obtain sid where sid: "ta_well_known (le_token e) BuiltinAdministrators = Some sid"
    using administrators_sid assms(1) by (auto simp: may_create_def)
  obtain u where u: "ta_open (le_token e) = Inr u"
    using assms(1) by (cases "ta_open (le_token e)") (auto simp: may_create_def)
  show ?thesis
    using assms sid u
    by (cases "ho_namespaces h = []")
      (simp_all add: acquire_def may_create_def lock_steps eval_nat_numeral goto_def ERROR_ALREADY_EXISTS_def)
qed

text \<open>
  No lock is stale. When the process that holds the lock ends,
  however it ends, its handles are closed with it: the next start whose token
  may create the lock and whose calls do not fail acquires it, whatever other
  starts are in progress, as long as none of them has the mutex open.
\<close>

lemma lock_not_stale:
  assumes "lock_moves\<^sup>*\<^sup>* quiet_host h" "\<And>r. has_mutex (ho_phase h r) \<Longrightarrow> r = q" "may_create e"
  shows "holds_lock (acquire e p (process_ends q h)) p"
proof -
  have "set (ho_mutexes (process_ends q h)) = {}"
    using lock_inv_D(3) [OF reached_inv [OF assms(1)]] assms(2) by (auto simp: process_ends_def goto_def)
  with acquire_free [OF assms(3)] show ?thesis
    by (simp add: holds_lock_def)
qed

text \<open>An elevated administrator's token, and calls that succeed.\<close>

definition administrator :: token_answers where
  "administrator = \<lparr>ta_open = Inr (), ta_well_known = (\<lambda>w. Some (if w = BuiltinAdministrators then [1] else [2])), ta_equal_sid = (=),
     ta_groups = Inr [([3], 4), ([1], 7)], ta_profile_privilege = Some (11, 0), ta_privileges = Inr []\<rparr>"

definition willing :: lock_env where
  "willing = \<lparr>le_token = administrator, le_boundary = None, le_administrators_error = 0, le_add_sid = None, le_descriptor = None,
     le_create_namespace = None, le_open_namespace = None, le_no_namespace = 3, le_create_mutex = None\<rparr>"

lemma willing_may_create: "may_create willing"
  by (simp add: may_create_def willing_def administrator_def classify_token_def has_enabled_group_def SE_GROUP_ENABLED_def)

abbreviation one_holds :: host where
  "one_holds \<equiv> acquire willing 1 quiet_host"

lemma lock_step_other: "q \<noteq> p \<Longrightarrow> ho_phase (lock_step e p h) q = ho_phase h q"
  by (auto simp: lock_steps split: lock_phase.split sum.split token_class.split option.split)

lemma acquire_other: "q \<noteq> p \<Longrightarrow> ho_phase (acquire e p h) q = ho_phase h q"
proof -
  have "ho_phase ((lock_step e p ^^ n) h) q = ho_phase h q" if "q \<noteq> p" for n h
    using that by (induction n) (auto simp: lock_step_other)
  then show "q \<noteq> p \<Longrightarrow> ho_phase (acquire e p h) q = ho_phase h q"
    by (simp add: acquire_def)
qed

lemma one_holds: "lock_moves\<^sup>*\<^sup>* quiet_host one_holds" "holds_lock one_holds 1"
  using acquire_moves acquire_free [OF willing_may_create] by (auto simp: quiet_host_def holds_lock_def)

lemma others_outside: "q \<noteq> 1 \<Longrightarrow> ho_phase one_holds q = Outside"
  by (simp add: acquire_other) (simp add: quiet_host_def)

theorem one_instance_witness: "holds_lock one_holds 1 \<and> \<not> holds_lock (acquire willing 2 one_holds) 2"
proof -
  have reached: "lock_moves\<^sup>*\<^sup>* quiet_host (acquire willing 2 one_holds)"
    using one_holds(1) acquire_moves [of one_holds 2 willing] others_outside [of 2] by (auto intro: rtranclp_trans)
  have "holds_lock (acquire willing 2 one_holds) 1"
    using one_holds(2) by (simp add: holds_lock_def acquire_other)
  with one_instance [OF reached this, of 2] one_holds(2) show ?thesis
    by auto
qed

text \<open>
  A start may be told that another instance holds the lock when none does:
  the second start has opened the mutex of the first, the first drops the lock,
  and the third finds the mutex that only the second has open.
\<close>

definition left_open :: host where
  "left_open = drop_step 1 (drop_step 1 ((lock_step willing 2 ^^ 8) (goto 2 AtToken one_holds)))"

lemma left_open_moves: "lock_moves\<^sup>*\<^sup>* quiet_host left_open"
proof -
  have "lock_moves one_holds (goto 2 AtToken one_holds)"
    using others_outside [of 2] by (intro lock_moves.starts) simp
  with one_holds(1) have "lock_moves\<^sup>*\<^sup>* quiet_host ((lock_step willing 2 ^^ 8) (goto 2 AtToken one_holds))"
    by (blast intro: calls_moves rtranclp_trans rtranclp.rtrancl_into_rtrancl)
  then show ?thesis
    unfolding left_open_def by (blast intro: lock_moves.drops rtranclp.rtrancl_into_rtrancl)
qed

lemma willing_token: "ta_open (le_token willing) = Inr ()" "classify_token (le_token willing) = CanCreate"
  "ta_well_known (le_token willing) BuiltinAdministrators = Some [1]"
  using willing_may_create by (simp_all add: may_create_def) (simp_all add: willing_def administrator_def)

lemma willing_steps:
  "ho_phase h p = AtToken \<Longrightarrow> lock_step willing p h = goto p AtBoundary h"
  "ho_phase h p = AtBoundary \<Longrightarrow> lock_step willing p h = goto p AtAdministratorsSid h"
  "ho_phase h p = AtAdministratorsSid \<Longrightarrow> lock_step willing p h = goto p AtAddSid h"
  "ho_phase h p = AtAddSid \<Longrightarrow> lock_step willing p h = goto p AtSecurityDescriptor h"
  "ho_phase h p = AtSecurityDescriptor \<Longrightarrow> lock_step willing p h = goto p AtCreateNamespace h"
  "ho_phase h p = AtCreateNamespace \<Longrightarrow> ho_namespaces h = [] \<Longrightarrow> lock_step willing p h = goto p AtCreateMutex (h\<lparr>ho_namespaces := [p]\<rparr>)"
  "ho_phase h p = AtCreateNamespace \<Longrightarrow> ho_namespaces h \<noteq> [] \<Longrightarrow> lock_step willing p h = goto p AtOpenNamespace h"
  "ho_phase h p = AtOpenNamespace \<Longrightarrow> ho_namespaces h \<noteq> [] \<Longrightarrow> lock_step willing p h = goto p AtCreateMutex (h\<lparr>ho_namespaces := p # ho_namespaces h\<rparr>)"
  "ho_phase h p = AtCreateMutex \<Longrightarrow> lock_step willing p h
     = goto p (if ho_mutexes h \<noteq> [] then AtCloseMutex else Decided Acquired) (h\<lparr>ho_mutexes := p # ho_mutexes h\<rparr>)"
  "ho_phase h p = AtCloseMutex \<Longrightarrow> lock_step willing p h = goto p (AtCloseNamespace Held) (h\<lparr>ho_mutexes := remove1 p (ho_mutexes h)\<rparr>)"
  "ho_phase h p = AtCloseNamespace outcome \<Longrightarrow> lock_step willing p h = goto p (Decided outcome) (h\<lparr>ho_namespaces := remove1 p (ho_namespaces h)\<rparr>)"
  by (simp_all add: lock_steps willing_token ERROR_ALREADY_EXISTS_def) (simp_all add: willing_def)

lemma goto_record: "goto p phase \<lparr>ho_phase = f, ho_namespaces = ns, ho_mutexes = ms\<rparr> = \<lparr>ho_phase = f(p := phase), ho_namespaces = ns, ho_mutexes = ms\<rparr>"
  by (simp add: goto_def)

lemma one_holds_is: "one_holds = \<lparr>ho_phase = (\<lambda>_. Outside)(1 := Decided Acquired), ho_namespaces = [1], ho_mutexes = [1]\<rparr>"
  by (simp add: acquire_def quiet_host_def eval_nat_numeral willing_steps lock_step_decided goto_record)

lemma left_open_is: "left_open = \<lparr>ho_phase = (\<lambda>_. Outside)(2 := AtCloseMutex), ho_namespaces = [2], ho_mutexes = [2]\<rparr>"
  unfolding left_open_def one_holds_is by (simp add: eval_nat_numeral willing_steps drop_step_def goto_record fun_eq_iff)

lemma held_by_a_start:
  "\<exists>h h'. lock_moves\<^sup>*\<^sup>* quiet_host h \<and> (\<forall>p. \<not> holds_lock h p) \<and> ho_phase h 3 = AtToken
     \<and> lock_moves\<^sup>*\<^sup>* h h' \<and> (\<forall>p. \<not> holds_lock h' p) \<and> ho_phase h' 3 = Decided Held"
proof -
  let ?h = "goto 3 AtToken left_open"
  have "lock_moves left_open ?h"
    by (intro lock_moves.starts) (simp add: left_open_is)
  then have "lock_moves\<^sup>*\<^sup>* quiet_host ?h"
    using left_open_moves by (rule rtranclp.rtrancl_into_rtrancl [rotated])
  moreover have "(lock_step willing 3 ^^ 10) ?h = \<lparr>ho_phase = (\<lambda>_. Outside)(2 := AtCloseMutex, 3 := Decided Held), ho_namespaces = [2], ho_mutexes = [2]\<rparr>"
    by (simp add: left_open_is eval_nat_numeral willing_steps goto_record)
  ultimately show ?thesis
    using calls_moves [of ?h 10 willing 3]
    by (intro exI [of _ ?h] exI [of _ "(lock_step willing 3 ^^ 10) ?h"]) (auto simp: left_open_is holds_lock_def)
qed

end
