(* ===== verification/Capture_Session.thy ===== *)
theory Capture_Session
  imports Hygiene Instance_Lock
begin

text \<open>
  The capture session (\<open>etw/session.rs\<close>, \<open>etw/events_lost_impl.rs\<close>): its
  start with or without the instance lock, the stop by name, the wait for the
  pump thread, and the callbacks that read the records of the two providers.
  ferrisetw and the tracing calls of Windows are parameters.
\<close>

section \<open>Sessions by name\<close>

definition SESSION_NAME :: string where
  "SESSION_NAME = ''CGAgent-KernelProcess''"

text \<open>
  The trace sessions of the host by their name, each with the process that
  created it. A session outlives its process.
\<close>

type_synonym trace_sessions = "string \<rightharpoonup> pid"

text \<open>
  \<open>ControlTraceW\<close> with \<open>EVENT_TRACE_CONTROL_STOP\<close>: it fails with the code that
  Windows refuses it with, if it does.
\<close>

definition control_trace_stop :: "u32 option \<Rightarrow> string \<Rightarrow> trace_sessions \<Rightarrow> u32 \<times> trace_sessions" where
  "control_trace_stop refused session_name s =
     (case refused of
        Some code \<Rightarrow> (code, s)
      | None \<Rightarrow> if s session_name = None then (4201, s) else (0, s(session_name := None)))"

definition stop_session :: "u32 option \<Rightarrow> string \<Rightarrow> trace_sessions \<Rightarrow> (u32, bool) result \<times> trace_sessions" where
  "stop_session refused session_name s =
     (let (status, s') = control_trace_stop refused session_name s
      in (if status = 0 then Inr True else if status = 4201 then Inr False else Inl status, s'))"

definition reclaim_zombie :: "u32 option \<Rightarrow> string \<Rightarrow> trace_sessions \<Rightarrow> (u32, bool) result \<times> trace_sessions" where
  "reclaim_zombie refused session_name s = stop_session refused session_name s"

section \<open>The start\<close>

datatype trace_error =
    IoError "i32 option" string
  | AlreadyExist
  | InvalidHandle
  | InvalidTraceName

definition open_error_of :: "(i32 \<Rightarrow> string) \<Rightarrow> trace_error \<Rightarrow> open_error" where
  "open_error_of os_text err =
     (case err of
        IoError (Some raw) _ \<Rightarrow> from_win32 os_text (win32_from_os_error raw)
      | IoError None message \<Rightarrow> OpenFailed 0 message
      | AlreadyExist \<Rightarrow> from_win32 os_text 183
      | InvalidHandle \<Rightarrow> from_win32 os_text 6
      | InvalidTraceName \<Rightarrow> OpenFailed 0 ''invalid ETW session name'')"

text \<open>What the pump thread reports of \<open>trace.start()\<close>, or that it ended without a report.\<close>

datatype pump_report = Reported "(trace_error, unit) result" | EndedBeforeReport

record capture_env =
  ce_os_text :: "i32 \<Rightarrow> string"
  ce_reclaim_refused :: "u32 option"
  ce_spawn :: "(string, unit) result"
  ce_trace_start :: "pid \<Rightarrow> trace_sessions \<Rightarrow> pump_report \<times> trace_sessions"
  ce_stop_refused :: "u32 option"
  ce_hygiene :: "(string, unit) result"

record etw_session =
  es_ring :: event_ring
  es_cache :: created_time_cache
  es_discards :: network_discards
  es_excluded :: "u32 option"
  es_pump :: bool
  es_hygiene :: "hygiene_state option"

definition network_records_discarded :: "etw_session \<Rightarrow> u64" where
  "network_records_discarded es = discards_total (es_discards es)"

definition first_network_discard :: "etw_session \<Rightarrow> discard_sample option" where
  "first_network_discard es = discards_first (es_discards es)"

definition stop_after_failed_start :: "capture_env \<Rightarrow> trace_sessions \<Rightarrow> trace_sessions" where
  "stop_after_failed_start e s = snd (stop_session (ce_stop_refused e) SESSION_NAME s)"

definition failed_start :: "capture_env \<Rightarrow> start_mode \<Rightarrow> open_error \<Rightarrow> trace_sessions \<Rightarrow> (open_error, 'a) result \<times> trace_sessions" where
  "failed_start e mode raw s =
     (Inl (with_lock_mode mode raw), if must_stop_after_failed_start mode raw then stop_after_failed_start e s else s)"

definition session_start ::
    "capture_env \<Rightarrow> usize \<Rightarrow> u32 option \<Rightarrow> start_mode \<Rightarrow> pid \<Rightarrow> trace_sessions \<Rightarrow> (open_error, etw_session) result \<times> trace_sessions" where
  "session_start e ring_capacity excluded_pid mode p s =
     (let s1 = (if mode = Locked then snd (reclaim_zombie (ce_reclaim_refused e) SESSION_NAME s) else s);
          ring = ring_new ring_capacity;
          cache = cache_new;
          discards = discards_new
      in case ce_spawn e of
           Inl err \<Rightarrow> (Inl (OpenFailed 0 (''could not spawn the ETW pump thread: '' @ err)), s1)
         | Inr _ \<Rightarrow>
             (case ce_trace_start e p s1 of
                (Reported (Inr _), s2) \<Rightarrow>
                  (Inr \<lparr>es_ring = ring, es_cache = cache, es_discards = discards, es_excluded = excluded_pid, es_pump = True,
                        es_hygiene = (case ce_hygiene e of Inr _ \<Rightarrow> Some (hygiene_spawn cache) | Inl _ \<Rightarrow> None)\<rparr>, s2)
              | (Reported (Inl err), s2) \<Rightarrow> failed_start e mode (open_error_of (ce_os_text e) err) s2
              | (EndedBeforeReport, s2) \<Rightarrow>
                  failed_start e mode (OpenFailed 0 ''the ETW pump thread ended before reporting the session start'') s2))"

definition session_open ::
    "capture_env \<Rightarrow> usize \<Rightarrow> start_mode \<Rightarrow> pid \<Rightarrow> trace_sessions \<Rightarrow> (open_error, etw_session) result \<times> trace_sessions" where
  "session_open e ring_capacity mode = session_start e ring_capacity None mode"

definition open_excluding ::
    "capture_env \<Rightarrow> usize \<Rightarrow> u32 \<Rightarrow> start_mode \<Rightarrow> pid \<Rightarrow> trace_sessions
     \<Rightarrow> (open_error, etw_session) result \<times> trace_sessions" where
  "open_excluding e ring_capacity excluded_pid mode = session_start e ring_capacity (Some excluded_pid) mode"

section \<open>The stop\<close>

definition PUMP_JOIN_TIMEOUT :: duration where
  "PUMP_JOIN_TIMEOUT = secs 5"

text \<open>
  The loop that waits for the pump thread. A sleep that begins at \<open>now\<close> ends at
  \<open>wake now\<close>, and never before its ten milliseconds have passed.
\<close>

function pump_wait :: "(instant \<Rightarrow> bool) \<Rightarrow> (instant \<Rightarrow> instant) \<Rightarrow> instant \<Rightarrow> instant \<Rightarrow> instant" where
  "pump_wait finished wake deadline now =
     (if \<not> finished now \<and> now < deadline
      then pump_wait finished wake deadline (max (wake now) (now + millis 10))
      else now)"
  by pat_completeness auto
termination
  by (relation "measure (\<lambda>(finished, wake, deadline, now). deadline - now)") (auto simp: millis_def max_def)

declare pump_wait.simps [simp del]

record stop_env =
  sp_refused :: "u32 option"
  sp_finished :: "instant \<Rightarrow> bool"
  sp_wake :: "instant \<Rightarrow> instant"

definition session_stop :: "stop_env \<Rightarrow> instant \<Rightarrow> etw_session \<Rightarrow> trace_sessions \<Rightarrow> instant \<times> etw_session \<times> trace_sessions" where
  "session_stop e now es s =
     (let es1 = es\<lparr>es_hygiene := None\<rparr>
      in if \<not> es_pump es then (now, es1, s)
         else (pump_wait (sp_finished e) (sp_wake e) (now + PUMP_JOIN_TIMEOUT) now,
               es1\<lparr>es_pump := False\<rparr>,
               snd (stop_session (sp_refused e) SESSION_NAME s)))"

section \<open>The callbacks\<close>

text \<open>A record as the schema of its event describes it: each property, read at the type asked for, if it can be.\<close>

record event_properties =
  ep_u32 :: "string \<Rightarrow> u32 option"
  ep_i32 :: "string \<Rightarrow> i32 option"
  ep_text :: "string \<Rightarrow> string option"
  ep_bytes :: "string \<Rightarrow> bytes option"

record event_record =
  ev_id :: u16
  ev_timestamp :: i64
  ev_schema :: "event_properties option"

definition unwrap_or :: "'a \<Rightarrow> 'a option \<Rightarrow> 'a" where
  "unwrap_or d v = (case v of Some x \<Rightarrow> x | None \<Rightarrow> d)"

definition process_record :: "activity_id \<Rightarrow> i64 \<Rightarrow> event_properties \<Rightarrow> raw_process_record" where
  "process_record activity timestamp properties =
     \<lparr>rp_activity_id = activity,
      rp_pid = unwrap_or 0 (ep_u32 properties ''ProcessID''),
      rp_parent_pid = unwrap_or 0 (ep_u32 properties ''ParentProcessID''),
      rp_image_file_name = unwrap_or [] (ep_text properties ''ImageName''),
      rp_command_line = unwrap_or [] (ep_text properties ''CommandLine''),
      rp_subject_user_sid = unwrap_or [] (ep_text properties ''UserSID''),
      rp_filetime_100ns = timestamp,
      rp_exit_status = (case activity of Terminate \<Rightarrow> ep_i32 properties ''ExitCode'' | Launch \<Rightarrow> None)\<rparr>"

definition dispatch_callback ::
    "string \<Rightarrow> instant \<Rightarrow> event_record \<Rightarrow> event_ring \<Rightarrow> created_time_cache \<Rightarrow> created_time_cache \<times> event_ring" where
  "dispatch_callback uuid now ev ring cache =
     (case (if ev_id ev = 1 then Some Launch else if ev_id ev = 2 then Some Terminate else None) of
        None \<Rightarrow> (cache, ring)
      | Some activity \<Rightarrow>
          (case ev_schema ev of
             None \<Rightarrow> (cache, ring)
           | Some properties \<Rightarrow> dispatch_record uuid now (process_record activity (ev_timestamp ev) properties) cache ring))"

definition network_callback ::
    "string \<Rightarrow> instant \<Rightarrow> event_record \<Rightarrow> u32 option \<Rightarrow> event_ring \<Rightarrow> created_time_cache \<Rightarrow> network_discards
     \<Rightarrow> event_ring \<times> network_discards" where
  "network_callback uuid now ev excluded_pid ring cache discards =
     (if connection_direction (ev_id ev) = None then (ring, discards_record (ev_id ev) (replicate 5 0) discards)
      else case ev_schema ev of
        None \<Rightarrow> (ring, discards_record (ev_id ev) (replicate 5 0) discards)
      | Some properties \<Rightarrow>
          let field = (\<lambda>name. unwrap_or [] (ep_bytes properties name))
          in dispatch_network_record uuid now
               \<lparr>rn_event_id = ev_id ev, rn_pid = field ''PID'', rn_saddr = field ''saddr'', rn_daddr = field ''daddr'',
                rn_sport = field ''sport'', rn_dport = field ''dport'', rn_filetime_100ns = ev_timestamp ev\<rparr>
               excluded_pid cache ring discards)"

text \<open>The closures that the start hands to the two providers, on the session's shared state.\<close>

definition on_process :: "string \<Rightarrow> instant \<Rightarrow> event_record \<Rightarrow> etw_session \<Rightarrow> etw_session" where
  "on_process uuid now ev es =
     (let (cache, ring) = dispatch_callback uuid now ev (es_ring es) (es_cache es)
      in es\<lparr>es_cache := cache, es_ring := ring\<rparr>)"

definition on_network :: "string \<Rightarrow> instant \<Rightarrow> event_record \<Rightarrow> etw_session \<Rightarrow> etw_session" where
  "on_network uuid now ev es =
     (let (ring, discards) = network_callback uuid now ev (es_excluded es) (es_ring es) (es_cache es) (es_discards es)
      in es\<lparr>es_ring := ring, es_discards := discards\<rparr>)"

section \<open>The callbacks are the dispatch steps\<close>

text \<open>
  A record without a schema, or of another event, is dispatched like one whose
  properties are all empty: the decoding refuses it and it is counted.
\<close>

definition network_raw :: "event_record \<Rightarrow> raw_network_record" where
  "network_raw ev =
     (let field = (\<lambda>name. if connection_direction (ev_id ev) = None then []
                     else case ev_schema ev of None \<Rightarrow> [] | Some properties \<Rightarrow> unwrap_or [] (ep_bytes properties name))
      in \<lparr>rn_event_id = ev_id ev, rn_pid = field ''PID'', rn_saddr = field ''saddr'', rn_daddr = field ''daddr'',
          rn_sport = field ''sport'', rn_dport = field ''dport'', rn_filetime_100ns = ev_timestamp ev\<rparr>)"

lemma decode_nothing: "decode_pid [] = None" "decode_connection event_id [] saddr daddr sport dport = None"
  by (simp_all add: decode_pid_def decode_connection_def split: option.split)

lemma network_callback_dispatch:
  "network_callback uuid now ev ex ring cache discards = dispatch_network_record uuid now (network_raw ev) ex cache ring discards"
  by (auto simp: network_callback_def network_raw_def dispatch_network_record_def raw_lengths_def Let_def decode_nothing
      eval_nat_numeral split: option.split)

datatype session_event = ProcessEvent string instant event_record | NetworkEvent string instant event_record | Sweep "(u32 \<times> u64) list"

fun session_handle :: "session_event \<Rightarrow> etw_session \<Rightarrow> etw_session" where
  "session_handle (ProcessEvent uuid now ev) es = on_process uuid now ev es"
| "session_handle (NetworkEvent uuid now ev) es = on_network uuid now ev es"
| "session_handle (Sweep gone) es = es\<lparr>es_cache := snd (sweep_evict gone (es_cache es))\<rparr>"

fun dispatch_steps :: "session_event \<Rightarrow> capture_step list" where
  "dispatch_steps (ProcessEvent uuid now ev) =
     (case ((if ev_id ev = 1 then Some Launch else if ev_id ev = 2 then Some Terminate else None), ev_schema ev) of
        (Some activity, Some properties) \<Rightarrow> [ProcessRecord uuid now (process_record activity (ev_timestamp ev) properties)]
      | _ \<Rightarrow> [])"
| "dispatch_steps (NetworkEvent uuid now ev) = [NetworkRecord uuid now (network_raw ev)]"
| "dispatch_steps (Sweep gone) = [SweepEvict gone]"

definition shared_state :: "etw_session \<Rightarrow> capture_state" where
  "shared_state es = \<lparr>cs_cache = es_cache es, cs_ring = es_ring es, cs_discards = es_discards es\<rparr>"

lemma session_handle_excluded: "es_excluded (session_handle ev es) = es_excluded es"
  by (cases ev) (simp_all add: on_process_def on_network_def split_beta Let_def)

lemma session_handle_shared: "shared_state (session_handle ev es) = capture_run (es_excluded es) (dispatch_steps ev) (shared_state es)"
proof (cases ev)
  case (ProcessEvent uuid now r)
  then show ?thesis
    by (auto simp: on_process_def dispatch_callback_def shared_state_def capture_run_def split_beta Let_def split: option.split)
qed (simp_all add: on_network_def network_callback_dispatch shared_state_def capture_run_def split_beta Let_def)

lemma session_events_shared:
  "shared_state (fold session_handle evs es) = capture_run (es_excluded es) (concat (map dispatch_steps evs)) (shared_state es)"
  by (induction evs arbitrary: es) (simp_all add: session_handle_shared session_handle_excluded capture_run_def)

section \<open>What a start does to the sessions\<close>

text \<open>
  ferrisetw's start: it creates the session of the agent's name unless one
  exists, which it then reports and leaves alone; a start that fails may leave
  the session it created behind. The pump thread may end before it reports.
\<close>

definition trace_start_ok :: "capture_env \<Rightarrow> bool" where
  "trace_start_ok e \<longleftrightarrow>
     (\<forall>p s. (\<forall>name. name \<noteq> SESSION_NAME \<longrightarrow> snd (ce_trace_start e p s) name = s name)
       \<and> (s SESSION_NAME = None \<longrightarrow>
            snd (ce_trace_start e p s) SESSION_NAME \<in> {None, Some p}
            \<and> (fst (ce_trace_start e p s) = Reported (Inr ()) \<longrightarrow> snd (ce_trace_start e p s) SESSION_NAME = Some p))
       \<and> (s SESSION_NAME \<noteq> None \<longrightarrow>
            snd (ce_trace_start e p s) SESSION_NAME = s SESSION_NAME
            \<and> fst (ce_trace_start e p s) \<in> {Reported (Inl AlreadyExist), EndedBeforeReport}))"

lemma trace_start_exists:
  assumes "trace_start_ok e" "s SESSION_NAME = Some q" "ce_trace_start e p s = (report, s')"
  shows "s' = s" "report = Reported (Inl AlreadyExist) \<or> report = EndedBeforeReport"
proof -
  have "s' name = s name" for name
    using assms by (cases "name = SESSION_NAME") (auto simp: trace_start_ok_def dest!: spec [of _ p] spec [of _ s])
  then show "s' = s"
    by (rule ext)
  show "report = Reported (Inl AlreadyExist) \<or> report = EndedBeforeReport"
    using assms by (auto simp: trace_start_ok_def dest!: spec [of _ p] spec [of _ s])
qed

lemma trace_start_absent:
  assumes "trace_start_ok e" "s SESSION_NAME = None" "ce_trace_start e p s = (report, s')"
  shows "s' SESSION_NAME = None \<or> s' SESSION_NAME = Some p" "report = Reported (Inr ()) \<Longrightarrow> s' SESSION_NAME = Some p"
  using assms by (auto simp: trace_start_ok_def dest!: spec [of _ p] spec [of _ s])

lemma stop_session_stops: "snd (stop_session None name s) name = None"
  by (simp add: stop_session_def control_trace_stop_def)

lemma stop_session_cases: "snd (stop_session refused name s) = s \<or> snd (stop_session refused name s) = s(name := None)"
  by (auto simp: stop_session_def control_trace_stop_def split: option.split)

text \<open>The sessions after the reclaim that only a start with the lock makes.\<close>

definition after_reclaim :: "capture_env \<Rightarrow> start_mode \<Rightarrow> trace_sessions \<Rightarrow> trace_sessions" where
  "after_reclaim e mode s = (if mode = Locked then snd (reclaim_zombie (ce_reclaim_refused e) SESSION_NAME s) else s)"

lemma after_reclaim_simps [simp]:
  "after_reclaim e Unlocked s = s"
  "ce_reclaim_refused e = None \<Longrightarrow> after_reclaim e Locked s SESSION_NAME = None"
  by (simp_all add: after_reclaim_def reclaim_zombie_def stop_session_stops)

lemma session_start_cases:
  assumes "session_start e cap ex mode p s = (r, s')"
  obtains (spawn) err where "ce_spawn e = Inl err" "r = Inl (OpenFailed 0 (''could not spawn the ETW pump thread: '' @ err))"
      "s' = after_reclaim e mode s"
    | (started) es where "ce_trace_start e p (after_reclaim e mode s) = (Reported (Inr ()), s')" "r = Inr es"
        "shared_state es = capture_init cap" "es_excluded es = ex" "es_pump es"
    | (failed) raw report s2 where "ce_trace_start e p (after_reclaim e mode s) = (report, s2)" "report \<noteq> Reported (Inr ())"
        "(\<exists>err. report = Reported (Inl err) \<and> raw = open_error_of (ce_os_text e) err)
         \<or> (report = EndedBeforeReport \<and> raw = OpenFailed 0 ''the ETW pump thread ended before reporting the session start'')"
        "r = Inl (with_lock_mode mode raw)"
        "s' = (if must_stop_after_failed_start mode raw then stop_after_failed_start e s2 else s2)"
proof (cases "ce_spawn e")
  case (Inl err)
  with assms spawn show thesis
    by (simp add: session_start_def after_reclaim_def)
next
  case (Inr u)
  obtain report s2 where start: "ce_trace_start e p (after_reclaim e mode s) = (report, s2)"
    by fastforce
  show thesis
  proof (cases report)
    case (Reported res)
    show thesis
    proof (cases res)
      case (Inl err)
      with Reported start \<open>ce_spawn e = Inr u\<close> assms failed [of report s2 "open_error_of (ce_os_text e) err"] show thesis
        by (simp add: session_start_def after_reclaim_def [symmetric] failed_start_def)
    next
      case (Inr v)
      with Reported start \<open>ce_spawn e = Inr u\<close> assms show thesis
        by (intro started) (auto simp: session_start_def after_reclaim_def [symmetric] shared_state_def capture_init_def)
    qed
  next
    case EndedBeforeReport
    with start Inr assms failed [of report s2] show thesis
      by (simp add: session_start_def after_reclaim_def [symmetric] failed_start_def)
  qed
qed

text \<open>
  A start without the instance lock never disturbs a running session
  of the agent's name: the sessions of the host stay as they are, the start
  fails, and when the tracing library reports that the session exists the
  failure is one of privilege, exit code 9.
\<close>

lemma unlocked_start:
  assumes "trace_start_ok e" "s SESSION_NAME = Some q" "session_start e cap ex Unlocked p s = (r, s')"
  shows "s' = s \<and> (\<exists>err. r = Inl err
    \<and> (ce_spawn e = Inr () \<and> fst (ce_trace_start e p s) = Reported (Inl AlreadyExist) \<longrightarrow> etw_exit_code (etw_error_from err) = 9))"
  using assms(3)
proof (cases rule: session_start_cases)
  case (spawn err)
  then show ?thesis
    by simp
next
  case (started es)
  then show ?thesis
    using trace_start_exists(2) [where s = s and p = p, OF assms(1,2)] by fastforce
next
  case (failed raw report s2)
  then have start: "ce_trace_start e p s = (report, s2)"
    by simp
  have "s2 = s"
    by (rule trace_start_exists(1) [where s = s, OF assms(1,2) start])
  moreover have "\<not> is_privilege raw" "report = Reported (Inl AlreadyExist) \<Longrightarrow> with_lock_mode Unlocked raw = PrivilegeNotHeld"
    using failed(3) trace_start_exists(2) [where s = s, OF assms(1,2) start] by (auto simp: open_error_of_def from_win32_def with_lock_mode_def)
  ultimately show ?thesis
    using failed start by (auto simp: must_stop_after_failed_start_def)
qed

lemma failed_start_none:
  assumes "trace_start_ok e" "ce_reclaim_refused e = None" "ce_stop_refused e = None"
    and "session_start e cap ex mode p s = (Inl err, s')"
    and "mode = Locked \<or> (s SESSION_NAME = None
      \<and> fst (ce_trace_start e p s) \<in> {Reported (Inl cause) | cause. is_privilege (open_error_of (ce_os_text e) cause)})"
  shows "s' SESSION_NAME = None"
  using assms(4)
proof (cases rule: session_start_cases)
  case (spawn err')
  with assms(2,5) show ?thesis
    by (cases mode) auto
next
  case (failed raw report s2)
  then have "must_stop_after_failed_start mode raw"
    using assms(5) by (cases mode) (auto simp: must_stop_after_failed_start_def)
  then show ?thesis
    using failed assms(3) stop_session_stops by (simp add: stop_after_failed_start_def)
qed simp


section \<open>What a stop does\<close>

lemma session_stop_sessions:
  "es_pump es \<Longrightarrow> sp_refused e = None \<Longrightarrow> snd (snd (session_stop e now es s)) SESSION_NAME = None"
  by (simp add: session_stop_def Let_def stop_session_stops)

lemma session_start_pump: "session_start e cap ex mode p s = (Inr es, s') \<Longrightarrow> es_pump es"
  by (erule session_start_cases) auto

text \<open>A start that succeeds found no session of the name, and made one.\<close>

lemma session_start_owned:
  assumes "trace_start_ok e" "session_start e cap ex mode p s = (Inr es, s')"
  shows "s' SESSION_NAME = Some p" "fst (ce_trace_start e p (after_reclaim e mode s)) = Reported (Inr ())"
proof -
  from assms(2) have start: "ce_trace_start e p (after_reclaim e mode s) = (Reported (Inr ()), s')"
    by (cases rule: session_start_cases) auto
  then show "fst (ce_trace_start e p (after_reclaim e mode s)) = Reported (Inr ())"
    by simp
  have "after_reclaim e mode s SESSION_NAME = None"
    using trace_start_exists(2) [where s = "after_reclaim e mode s", OF assms(1) _ start] by fastforce
  then show "s' SESSION_NAME = Some p"
    using trace_start_absent(2) [where s = "after_reclaim e mode s", OF assms(1) _ start] by simp
qed

lemma pump_wait_bounds:
  assumes "\<And>t. wake t \<le> t + late" "millis 10 \<le> late"
  shows "now \<le> pump_wait finished wake deadline now
    \<and> pump_wait finished wake deadline now \<le> max now (deadline + late)
    \<and> (finished (pump_wait finished wake deadline now) \<or> deadline \<le> pump_wait finished wake deadline now)"
  using assms(1)
proof (induction finished wake deadline now rule: pump_wait.induct)
  case (1 finished wake deadline now)
  show ?case
  proof (cases "\<not> finished now \<and> now < deadline")
    case True
    let ?next = "max (wake now) (now + millis 10)"
    have "?next \<le> now + late"
      using 1(2) [of now] assms(2) by simp
    moreover have "pump_wait finished wake deadline now = pump_wait finished wake deadline ?next"
      using True by (subst pump_wait.simps) simp
    ultimately show ?thesis
      using True 1(1) [OF True 1(2)] by auto
  next
    case False
    then have "pump_wait finished wake deadline now = now"
      by (subst pump_wait.simps) auto
    with False show ?thesis
      by auto
  qed
qed

text \<open>
  A stop takes the session off the host, unless Windows refuses it, and ends
  within the five seconds and one late wake-up, whatever the pump thread does;
  a second stop changes nothing.
\<close>

lemma session_stop_ends:
  assumes "session_stop e now es s = (later, es', s')" "\<And>t. sp_wake e t \<le> t + late" "millis 10 \<le> late"
  shows "later \<le> now + PUMP_JOIN_TIMEOUT + late" "\<not> es_pump es'" "es_hygiene es' = None"
    "es_pump es \<Longrightarrow> sp_refused e = None \<Longrightarrow> s' SESSION_NAME = None"
    "session_stop e' t es' s'' = (t, es', s'')"
  using assms(1) pump_wait_bounds [of "sp_wake e" late now "sp_finished e" "now + PUMP_JOIN_TIMEOUT", OF assms(2,3)] stop_session_stops
  by (auto simp: session_stop_def Let_def split: if_splits)

section \<open>A host whose calls succeed\<close>

definition plain_start :: "pid \<Rightarrow> trace_sessions \<Rightarrow> pump_report \<times> trace_sessions" where
  "plain_start p s = (if s SESSION_NAME = None then (Reported (Inr ()), s(SESSION_NAME \<mapsto> p)) else (Reported (Inl AlreadyExist), s))"

text \<open>Without elevation \<open>StartTraceW\<close> makes the session and \<open>EnableTraceEx2\<close> is denied.\<close>

definition denied_start :: "pid \<Rightarrow> trace_sessions \<Rightarrow> pump_report \<times> trace_sessions" where
  "denied_start p s = (if s SESSION_NAME = None then (Reported (Inl (IoError (Some 0x80070005) [])), s(SESSION_NAME \<mapsto> p))
     else (Reported (Inl AlreadyExist), s))"

definition plain_env :: "(pid \<Rightarrow> trace_sessions \<Rightarrow> pump_report \<times> trace_sessions) \<Rightarrow> capture_env" where
  "plain_env start = \<lparr>ce_os_text = (\<lambda>_. []), ce_reclaim_refused = None, ce_spawn = Inr (), ce_trace_start = start, ce_stop_refused = None,
     ce_hygiene = Inr ()\<rparr>"

lemma plain_env_simps [simp]:
  "ce_reclaim_refused (plain_env start) = None" "ce_spawn (plain_env start) = Inr ()" "ce_trace_start (plain_env start) = start"
  "ce_stop_refused (plain_env start) = None" "ce_hygiene (plain_env start) = Inr ()"
  by (simp_all add: plain_env_def)

lemma plain_env_ok: "trace_start_ok (plain_env plain_start)" "trace_start_ok (plain_env denied_start)"
  by (auto simp: trace_start_ok_def plain_start_def denied_start_def)


end
