(* ===== verification/Logon_Thread.thy ===== *)
theory Logon_Thread
  imports Logon_Decode Agent_Errors Rust_Result
begin

text \<open>
  The Security-log subscription and its thread (\<open>logon/subscription.rs\<close>): how a
  record is rendered, how the thread waits, reads, reopens a failed
  subscription and stops, call by call, with records written at any moment.
  What the event-log calls answer is the environment's part of a step.
\<close>

section \<open>Rendering\<close>

definition CHANNEL :: string where "CHANNEL = ''Security''"

definition QUERY :: string where "QUERY = ''*[System[(EventID=4624 or EventID=4625)]]''"

definition VALUE_PATHS :: "string list" where
  "VALUE_PATHS =
     [''Event/System/EventID'', ''Event/System/Version'', ''Event/System/TimeCreated/@SystemTime'',
      ''Event/EventData/Data[@Name='' @ [CHR 39] @ ''TargetUserSid'' @ [CHR 39] @ '']'',
      ''Event/EventData/Data[@Name='' @ [CHR 39] @ ''TargetUserName'' @ [CHR 39] @ '']'',
      ''Event/EventData/Data[@Name='' @ [CHR 39] @ ''TargetDomainName'' @ [CHR 39] @ '']'',
      ''Event/EventData/Data[@Name='' @ [CHR 39] @ ''LogonType'' @ [CHR 39] @ '']'',
      ''Event/EventData/Data[@Name='' @ [CHR 39] @ ''AuthenticationPackageName'' @ [CHR 39] @ '']'',
      ''Event/EventData/Data[@Name='' @ [CHR 39] @ ''WorkstationName'' @ [CHR 39] @ '']'',
      ''Event/EventData/Data[@Name='' @ [CHR 39] @ ''IpAddress'' @ [CHR 39] @ '']'',
      ''Event/EventData/Data[@Name='' @ [CHR 39] @ ''ElevatedToken'' @ [CHR 39] @ '']'',
      ''Event/EventData/Data[@Name='' @ [CHR 39] @ ''Status'' @ [CHR 39] @ '']'',
      ''Event/EventData/Data[@Name='' @ [CHR 39] @ ''SubStatus'' @ [CHR 39] @ '']'']"

definition BATCH :: usize where "BATCH = 32"

definition POLL :: duration where "POLL = secs 1"

definition REOPEN_DELAY :: duration where "REOPEN_DELAY = secs 5"

text \<open>
  A rendered value by its type. A string may be a null pointer, and the
  conversion of a SID to text may fail.
\<close>

datatype evt_variant =
    VarNull
  | VarString "string option"
  | VarSid "string option"
  | VarUInt32 u32
  | VarHexInt32 u32
  | VarUInt16 u16
  | VarByte u8
  | VarFileTime u64
  | VarOther

fun text_of :: "evt_variant \<Rightarrow> string option" where
  "text_of (VarString t) = t"
| "text_of (VarSid t) = t"
| "text_of _ = None"

fun u32_of :: "evt_variant \<Rightarrow> u32 option" where
  "u32_of (VarUInt32 v) = Some v"
| "u32_of (VarHexInt32 v) = Some v"
| "u32_of (VarUInt16 v) = Some (ucast v)"
| "u32_of (VarByte v) = Some (ucast v)"
| "u32_of _ = None"

text \<open>
  A record of the log: what the size query and the rendering of its values
  answer, and the event id and the time that its handling takes.
\<close>

record log_record =
  lr_size :: "(u32, unit) result"
  lr_values :: "(u32, evt_variant list) result"
  lr_uuid :: string
  lr_now :: instant

definition ERROR_INSUFFICIENT_BUFFER :: u32 where "ERROR_INSUFFICIENT_BUFFER = 122"

definition values_record :: "evt_variant list \<Rightarrow> (u32 option, raw_logon_record) result" where
  "values_record values =
     (if length values < length VALUE_PATHS then Inl None
      else case values ! 2 of
        VarFileTime filetime \<Rightarrow>
          Inr \<lparr>rl_event_id = ucast (unwrap_or_0 (u32_of (values ! 0))), rl_version = ucast (unwrap_or_0 (u32_of (values ! 1))),
               rl_filetime_100ns = filetime,
               rl_target_user_sid = (if values ! 3 = VarNull then None else text_of (values ! 3)),
               rl_target_user_name = text_of (values ! 4), rl_target_domain_name = text_of (values ! 5),
               rl_logon_type = u32_of (values ! 6), rl_auth_package = text_of (values ! 7),
               rl_workstation = text_of (values ! 8), rl_ip_address = text_of (values ! 9),
               rl_elevated_token = text_of (values ! 10), rl_status = u32_of (values ! 11),
               rl_sub_status = u32_of (values ! 12)\<rparr>
      | _ \<Rightarrow> Inl None)"

definition render :: "log_record \<Rightarrow> (u32 option, raw_logon_record) result" where
  "render r =
     (case lr_size r of
        Inl code \<Rightarrow>
          if code \<noteq> ERROR_INSUFFICIENT_BUFFER then Inl (Some code)
          else and_then (map_err Some (lr_values r)) values_record
      | Inr _ \<Rightarrow> and_then (map_err Some (lr_values r)) values_record)"

section \<open>One record and one batch\<close>

definition handle_record :: "log_record \<Rightarrow> event_ring \<times> logon_counters \<Rightarrow> event_ring \<times> logon_counters" where
  "handle_record r = (\<lambda>(ring, counters).
     case render r of
       Inr raw \<Rightarrow> dispatch_logon_record (lr_uuid r) (lr_now r) raw ring counters
     | Inl code \<Rightarrow> (ring, record_unusable \<lparr>us_event_id = None, us_win32_code = code\<rparr> counters))"

section \<open>The thread\<close>

text \<open>
  The next call of the thread. A reopen, and the wait after one that failed,
  is followed by the monitor's check when it comes after a failed read, and
  by the next wait otherwise.
\<close>

datatype logon_pc = AtWait | AtReset | AtRead | AtDelay | AtReopen bool | AtReopenDelay bool | AtObserve | LogonEnded

record logon_thread =
  lt_pc :: logon_pc
  lt_subscription :: bool
  lt_monitor :: unusable_monitor
  lt_last_failure :: "instant option"
  lt_logged :: "instant list"
  lt_signal :: bool
  lt_stop :: bool
  lt_queue :: "log_record list"
  lt_ring :: event_ring
  lt_counters :: logon_counters

record logon_answers =
  la_now :: instant
  la_next :: "u32 option"
  la_returned :: usize
  la_subscribe :: "u32 option"

definition log_failure :: "instant \<Rightarrow> logon_thread \<Rightarrow> logon_thread" where
  "log_failure now t =
     (if (case lt_last_failure t of None \<Rightarrow> True | Some earlier \<Rightarrow> LOG_INTERVAL \<le> now - earlier)
      then t\<lparr>lt_last_failure := Some now, lt_logged := lt_logged t @ [now]\<rparr> else t)"

text \<open>
  One \<open>EvtNext\<close> call and the handling of what it returns. A closed
  subscription takes the records it had not delivered with it.
\<close>

definition drain_step :: "logon_answers \<Rightarrow> logon_thread \<Rightarrow> logon_thread" where
  "drain_step a t =
     (case la_next a of
        Some code \<Rightarrow>
          if la_returned a = 0 \<and> read_is_exhausted code then t\<lparr>lt_pc := AtObserve\<rparr>
          else (log_failure (la_now a) t)\<lparr>lt_subscription := False, lt_queue := [], lt_pc := AtDelay\<rparr>
      | None \<Rightarrow>
          let (ring, counters) = fold handle_record (take BATCH (lt_queue t)) (lt_ring t, lt_counters t)
          in t\<lparr>lt_queue := drop BATCH (lt_queue t), lt_ring := ring, lt_counters := counters\<rparr>)"

definition reopen_step :: "logon_answers \<Rightarrow> bool \<Rightarrow> logon_thread \<Rightarrow> logon_thread" where
  "reopen_step a observes t =
     (case la_subscribe a of
        None \<Rightarrow> t\<lparr>lt_subscription := True, lt_queue := [], lt_pc := (if observes then AtObserve else AtWait)\<rparr>
      | Some code \<Rightarrow> (log_failure (la_now a) t)\<lparr>lt_pc := AtReopenDelay observes\<rparr>)"

definition thread_step :: "logon_answers \<Rightarrow> logon_thread \<Rightarrow> logon_thread" where
  "thread_step a t =
     (case lt_pc t of
        AtWait \<Rightarrow>
          if lt_stop t then t\<lparr>lt_pc := LogonEnded\<rparr>
          else t\<lparr>lt_pc := (if lt_subscription t then AtReset else AtReopen False)\<rparr>
      | AtReset \<Rightarrow> t\<lparr>lt_signal := False, lt_pc := AtRead\<rparr>
      | AtRead \<Rightarrow> drain_step a t
      | AtDelay \<Rightarrow> t\<lparr>lt_pc := (if lt_stop t then LogonEnded else AtReopen True)\<rparr>
      | AtReopen observes \<Rightarrow> reopen_step a observes t
      | AtReopenDelay observes \<Rightarrow> t\<lparr>lt_pc := (if observes then AtObserve else AtWait)\<rparr>
      | AtObserve \<Rightarrow> t\<lparr>lt_monitor := snd (unusable_observe (lt_counters t) (la_now a) (lt_monitor t)), lt_pc := AtWait\<rparr>
      | LogonEnded \<Rightarrow> t)"

section \<open>Opening and stopping\<close>

record logon_env =
  lo_context :: "(u32, unit) result"
  lo_signal :: "(u32, unit) result"
  lo_subscribe :: "(u32, unit) result"
  lo_stop :: "(u32, unit) result"
  lo_spawn :: "(string, unit) result"

definition logon_thread_new :: "event_ring \<Rightarrow> logon_thread" where
  "logon_thread_new ring =
     \<lparr>lt_pc = AtWait, lt_subscription = True, lt_monitor = unusable_monitor_new, lt_last_failure = None, lt_logged = [],
      lt_signal = True, lt_stop = False, lt_queue = [], lt_ring = ring, lt_counters = logon_counters_new\<rparr>"

definition logon_open :: "(i32 \<Rightarrow> string) \<Rightarrow> logon_env \<Rightarrow> event_ring \<Rightarrow> (logon_error, logon_thread) result" where
  "logon_open os_text e ring =
     and_then (map_err (logon_from_win32 os_text) (lo_context e)) (\<lambda>_.
     and_then (map_err (logon_from_win32 os_text) (lo_signal e)) (\<lambda>_.
     and_then (map_err (logon_from_win32 os_text) (lo_subscribe e)) (\<lambda>_.
     and_then (map_err (logon_from_win32 os_text) (lo_stop e)) (\<lambda>_.
     and_then (map_err (\<lambda>err. LogonFailed 0 (''spawn the logon thread: '' @ err)) (lo_spawn e)) (\<lambda>_.
     Inr (logon_thread_new ring))))))"

text \<open>
  A stop sets the stop event, waits until the thread has ended and closes the
  subscription that it hands back.
\<close>

definition logon_request_stop :: "logon_thread \<Rightarrow> logon_thread" where
  "logon_request_stop t = t\<lparr>lt_stop := True\<rparr>"

definition logon_close :: "logon_thread \<Rightarrow> logon_thread" where
  "logon_close t = (if lt_pc t = LogonEnded then t\<lparr>lt_subscription := False, lt_queue := []\<rparr> else t)"

section \<open>The thread and the log side by side\<close>

text \<open>
  A record written to the log reaches an open subscription, which sets the
  signal. The reading call reports that there is no record left only when
  there is none, and otherwise delivers some or fails.
\<close>

definition log_writes :: "log_record \<Rightarrow> logon_thread \<Rightarrow> logon_thread" where
  "log_writes r t = (if lt_subscription t then t\<lparr>lt_queue := lt_queue t @ [r], lt_signal := True\<rparr> else t)"

definition next_ok :: "logon_answers \<Rightarrow> logon_thread \<Rightarrow> bool" where
  "next_ok a t \<longleftrightarrow>
     (lt_pc t = AtRead \<longrightarrow>
        (case la_next a of None \<Rightarrow> lt_queue t \<noteq> [] | Some code \<Rightarrow> read_is_exhausted code \<longrightarrow> lt_queue t = []))"

text \<open>
  The executions from an opened subscription: the state, the records written
  since the subscription was last opened, those of them handled, and all the
  records handled.
\<close>

inductive logon_exec :: "event_ring \<Rightarrow> logon_thread \<Rightarrow> log_record list \<Rightarrow> log_record list \<Rightarrow> log_record list \<Rightarrow> bool" for ring where
  opened: "logon_exec ring (logon_thread_new ring) [] [] []"
| written: "logon_exec ring t w h a \<Longrightarrow> logon_exec ring (log_writes r t) (if lt_subscription t then w @ [r] else w) h a"
| stepped: "logon_exec ring t w h a \<Longrightarrow> next_ok ans t \<Longrightarrow> t' = thread_step ans t \<Longrightarrow>
    got = (if lt_pc t = AtRead \<and> la_next ans = None then take BATCH (lt_queue t) else []) \<Longrightarrow>
    logon_exec ring t' (if lt_subscription t' \<and> \<not> lt_subscription t then [] else w)
      (if lt_subscription t' \<and> \<not> lt_subscription t then [] else h @ got) (a @ got)"
| stop_asked: "logon_exec ring t w h a \<Longrightarrow> logon_exec ring (logon_request_stop t) w h a"

lemma handled_once:
  assumes "logon_exec ring t w h a"
  shows "(lt_ring t, lt_counters t) = fold handle_record a (ring, logon_counters_new)"
  using assms
proof (induction rule: logon_exec.induct)
  case opened
  show ?case
    by (simp add: logon_thread_new_def)
next
  case (written t w h a r)
  then show ?case
    by (simp add: log_writes_def)
next
  case (stepped t w h a ans t' got)
  then show ?case
    by (cases "lt_pc t")
      (auto simp: thread_step_def drain_step_def reopen_step_def log_failure_def split_beta Let_def split: option.splits)
next
  case (stop_asked t w h a)
  then show ?case
    by (simp add: logon_request_stop_def)
qed

lemma log_failure_simps [simp]:
  "lt_subscription (log_failure now t) = lt_subscription t" "lt_queue (log_failure now t) = lt_queue t"
  "lt_signal (log_failure now t) = lt_signal t" "lt_pc (log_failure now t) = lt_pc t" "lt_stop (log_failure now t) = lt_stop t"
  by (simp_all add: log_failure_def)

text \<open>What is unread waits with the signal set, and the subscription is open where the thread reads.\<close>

lemma waits_signalled:
  assumes "logon_exec ring t w h a"
  shows "(lt_subscription t \<longrightarrow> w = h @ lt_queue t) \<and> (\<not> lt_subscription t \<longrightarrow> lt_queue t = [])
    \<and> (lt_pc t \<in> {AtReset, AtRead} \<longrightarrow> lt_subscription t) \<and> (lt_pc t \<in> {AtDelay} \<union> range AtReopen \<union> range AtReopenDelay \<longrightarrow> \<not> lt_subscription t)
    \<and> (lt_queue t \<noteq> [] \<and> lt_pc t \<notin> {AtReset, AtRead} \<longrightarrow> lt_signal t)"
  using assms
proof (induction rule: logon_exec.induct)
  case opened
  show ?case
    by (auto simp: logon_thread_new_def)
next
  case (written t w h a r)
  then show ?case
    by (auto simp: log_writes_def)
next
  case (stepped t w h a ans t' got)
  then show ?case
    by (cases "lt_pc t")
      (auto simp: thread_step_def drain_step_def reopen_step_def next_ok_def split_beta Let_def split: option.splits if_splits)
next
  case (stop_asked t w h a)
  then show ?case
    by (auto simp: logon_request_stop_def)
qed

text \<open>
  Claim C23. No record is lost between the log and the thread. In every
  execution, with records written at any moment, the records handled are
  dispatched one after the other in the order they were handled; the records
  written since the subscription was opened are those handled since then, in
  order, and those still to be read; and whenever the thread waits while one
  is still to be read, the signal it waits for is set.
\<close>

theorem logon_records_handled:
  assumes "logon_exec ring t w h a"
  shows "(lt_ring t, lt_counters t) = fold handle_record a (ring, logon_counters_new)
    \<and> (lt_subscription t \<longrightarrow> w = h @ lt_queue t) \<and> (lt_pc t = AtWait \<and> lt_queue t \<noteq> [] \<longrightarrow> lt_signal t)"
  using handled_once [OF assms] waits_signalled [OF assms] by auto

section \<open>Catching up\<close>

text \<open>A step with calls that succeed.\<close>

definition healthy_step :: "instant \<Rightarrow> logon_thread \<Rightarrow> logon_thread" where
  "healthy_step now t =
     thread_step \<lparr>la_now = now, la_next = (if lt_queue t = [] then Some 259 else None), la_returned = 0, la_subscribe = None\<rparr> t"

definition caught_up :: "logon_thread \<Rightarrow> bool" where
  "caught_up t \<longleftrightarrow> lt_pc t = AtWait \<and> lt_subscription t \<and> lt_queue t = []"

definition catches_up :: "instant \<Rightarrow> logon_thread \<Rightarrow> bool" where
  "catches_up now t \<longleftrightarrow> (\<exists>n. caught_up ((healthy_step now ^^ n) t))"

lemma catches_up_step: "catches_up now (healthy_step now t) \<Longrightarrow> catches_up now t"
  unfolding catches_up_def by (metis comp_apply funpow_Suc_right)

lemma catches_up_done: "caught_up t \<Longrightarrow> catches_up now t"
  unfolding catches_up_def by (metis funpow_0)

lemmas healthy = healthy_step_def thread_step_def drain_step_def reopen_step_def read_is_exhausted_def split_beta Let_def

lemma catches_up_observed: "lt_pc t = AtObserve \<Longrightarrow> lt_subscription t \<Longrightarrow> lt_queue t = [] \<Longrightarrow> catches_up now t"
  by (rule catches_up_step [OF catches_up_done]) (simp add: healthy caught_up_def)

lemma catches_up_reading:
  assumes "lt_pc t = AtRead" "lt_subscription t"
  shows "catches_up now t"
  using assms
proof (induction "length (lt_queue t)" arbitrary: t rule: less_induct)
  case less
  show ?case
  proof (cases "lt_queue t = []")
    case True
    with less.prems show ?thesis
      by (intro catches_up_step [OF catches_up_observed]) (simp_all add: healthy)
  next
    case False
    with less.prems show ?thesis
      by (intro catches_up_step [OF less.hyps]) (simp_all add: healthy BATCH_def)
  qed
qed

lemma catches_up_waiting:
  assumes "lt_pc t = AtWait" "\<not> lt_stop t"
  shows "catches_up now t"
proof (cases "lt_subscription t")
  case True
  with assms show ?thesis
    by (intro catches_up_step [OF catches_up_step [OF catches_up_reading]]) (simp_all add: healthy)
next
  case False
  with assms show ?thesis
    by (intro catches_up_step [OF catches_up_step [OF catches_up_done]]) (simp_all add: healthy caught_up_def)
qed

lemma ended_stopped: "logon_exec ring t w h a \<Longrightarrow> lt_pc t = LogonEnded \<Longrightarrow> lt_stop t"
proof (induction rule: logon_exec.induct)
  case (stepped t w h a ans t' got)
  then show ?case
    by (cases "lt_pc t") (auto simp: thread_step_def drain_step_def reopen_step_def split_beta Let_def split: option.splits if_splits)
qed (auto simp: logon_thread_new_def log_writes_def logon_request_stop_def split: if_splits)

text \<open>
  Claim C24. The thread recovers from every failure. From every state of every
  execution in which no stop was asked for, whatever reads and reopenings
  failed before, once the calls succeed again the thread comes to wait on an
  open subscription with no record unread.
\<close>

theorem logon_recovers:
  assumes "logon_exec ring t w h a" "\<not> lt_stop t"
  shows "\<exists>n. caught_up ((healthy_step now ^^ n) t)"
proof -
  note inv = waits_signalled [OF assms(1)]
  have observe: "catches_up now u" if "lt_pc u = AtObserve" "\<not> lt_stop u" for u
    using that by (intro catches_up_step [OF catches_up_waiting]) (simp_all add: healthy)
  have reopen: "catches_up now u" if "lt_pc u = AtReopen observes" "\<not> lt_stop u" for u observes
    using that observe [of "healthy_step now u"] catches_up_waiting [of "healthy_step now u" now]
    by (rule_tac catches_up_step) (cases observes; simp add: healthy)
  have "catches_up now t"
  proof (cases "lt_pc t")
    case AtReset
    then show ?thesis
      using inv by (intro catches_up_step [OF catches_up_reading]) (simp_all add: healthy)
  next
    case AtDelay
    then show ?thesis
      using assms(2) by (intro catches_up_step [OF reopen [of _ True]]) (simp_all add: healthy)
  next
    case (AtReopenDelay observes)
    then show ?thesis
      using assms(2) observe [of "healthy_step now t"] catches_up_waiting [of "healthy_step now t" now]
      by (rule_tac catches_up_step) (cases observes; simp add: healthy)
  next
    case LogonEnded
    with ended_stopped [OF assms(1)] assms(2) show ?thesis
      by simp
  qed (use assms(2) inv observe reopen catches_up_waiting catches_up_reading in auto)
  then show ?thesis
    by (simp add: catches_up_def)
qed

section \<open>Failures are logged rarely\<close>

fun spaced :: "duration \<Rightarrow> instant list \<Rightarrow> bool" where
  "spaced d (x # y # zs) = (x + d \<le> y \<and> spaced d (y # zs))"
| "spaced d _ = True"

lemma spaced_snoc: "spaced d (xs @ [y]) \<longleftrightarrow> spaced d xs \<and> (xs \<noteq> [] \<longrightarrow> last xs + d \<le> y)"
  by (induction xs rule: induct_list012) auto

definition log_spaced :: "logon_thread \<Rightarrow> bool" where
  "log_spaced t \<longleftrightarrow> spaced LOG_INTERVAL (lt_logged t)
     \<and> lt_last_failure t = (if lt_logged t = [] then None else Some (last (lt_logged t)))"

lemma log_failure_spaced: "log_spaced t \<Longrightarrow> log_spaced (log_failure now t)"
  by (auto simp: log_spaced_def log_failure_def spaced_snoc LOG_INTERVAL_def secs_def split: if_splits)

text \<open>The lines about failed reads and reopenings are at least a minute apart.\<close>

lemma failures_logged_rarely: "logon_exec ring t w h a \<Longrightarrow> log_spaced t"
proof (induction rule: logon_exec.induct)
  case (stepped t w h a ans t' got)
  then show ?case
    using log_failure_spaced [of t "la_now ans"]
    by (cases "lt_pc t")
      (auto simp: thread_step_def drain_step_def reopen_step_def log_spaced_def split_beta Let_def split: option.splits)
qed (auto simp: logon_thread_new_def log_writes_def logon_request_stop_def log_spaced_def)

section \<open>One record read\<close>

definition failed_logon :: log_record where
  "failed_logon = \<lparr>lr_size = Inl 122, lr_values = Inr [VarUInt16 4625], lr_uuid = ''u'', lr_now = 7\<rparr>"

abbreviation one_read :: logon_thread where
  "one_read \<equiv> (healthy_step 9 ^^ 3) (log_writes failed_logon (logon_thread_new (ring_new 4)))"

lemma one_written:
  "logon_exec (ring_new 4) (log_writes failed_logon (logon_thread_new (ring_new 4))) [failed_logon] [] []"
  using logon_exec.written [OF logon_exec.opened, of "ring_new 4" failed_logon] by (simp add: logon_thread_new_def)

lemma healthy_next_ok:
  "next_ok \<lparr>la_now = now, la_next = (if lt_queue t = [] then Some 259 else None), la_returned = 0, la_subscribe = None\<rparr> t"
  by (simp add: next_ok_def)

lemma healthy_exec:
  assumes "logon_exec ring t w h a" "lt_subscription (healthy_step now t) \<longrightarrow> lt_subscription t"
  shows "logon_exec ring (healthy_step now t) w
    (h @ (if lt_pc t = AtRead then take BATCH (lt_queue t) else [])) (a @ (if lt_pc t = AtRead then take BATCH (lt_queue t) else []))"
  using logon_exec.stepped [OF assms(1) healthy_next_ok [of now t] healthy_step_def refl] assms(2)
  by (cases "lt_queue t = []") (auto split: if_splits)

lemma one_read_exec: "logon_exec (ring_new 4) one_read [failed_logon] [failed_logon] [failed_logon]"
proof -
  let ?t = "log_writes failed_logon (logon_thread_new (ring_new 4))"
  have "logon_exec (ring_new 4) (healthy_step 9 ?t) [failed_logon] [] []"
    using healthy_exec [OF one_written, of 9] by (simp add: healthy log_writes_def logon_thread_new_def)
  then have "logon_exec (ring_new 4) (healthy_step 9 (healthy_step 9 ?t)) [failed_logon] [] []"
    using healthy_exec [of "ring_new 4" "healthy_step 9 ?t" "[failed_logon]" "[]" "[]" 9] by (simp add: healthy log_writes_def logon_thread_new_def)
  then show ?thesis
    using healthy_exec [of "ring_new 4" "healthy_step 9 (healthy_step 9 ?t)" "[failed_logon]" "[]" "[]" 9]
    by (simp add: healthy log_writes_def logon_thread_new_def eval_nat_numeral BATCH_def)
qed

theorem logon_records_handled_witness:
  "(lt_ring one_read, lt_counters one_read) = handle_record failed_logon (ring_new 4, logon_counters_new)
   \<and> unusable (lt_counters one_read) = 1"
proof -
  have "(lt_ring one_read, lt_counters one_read) = handle_record failed_logon (ring_new 4, logon_counters_new)"
    using logon_records_handled [OF one_read_exec] by simp
  moreover have "handle_record failed_logon (ring_new 4, logon_counters_new)
      = (ring_new 4, record_unusable \<lparr>us_event_id = None, us_win32_code = None\<rparr> logon_counters_new)"
    by (simp add: handle_record_def failed_logon_def render_def ERROR_INSUFFICIENT_BUFFER_def values_record_def VALUE_PATHS_def)
  ultimately show ?thesis
    by (simp add: unusable_def record_unusable_def logon_counters_new_def)
qed

theorem logon_recovers_witness: "\<exists>n. caught_up ((healthy_step 9 ^^ n) one_read)"
  by (rule logon_recovers [OF one_read_exec]) (simp add: healthy log_writes_def logon_thread_new_def eval_nat_numeral)

end
