(* ===== verification/Delivery_Props.thy ===== *)
theory Delivery_Props
  imports Delivery
begin

text \<open>
  What the delivery loop guarantees: batches and their sequence numbers, the
  accounting of every captured event, the retry rules, the tick schedule and
  the final POST. The invariants are proved over the executions of the step
  relation by rule induction; the ring enters through the \<open>bounded_fifo\<close>
  contract.
\<close>

section \<open>Rendering does not depend on the log\<close>

definition rendering :: "string \<Rightarrow> device_path_map \<Rightarrow> ring_event \<Rightarrow> cges_event" where
  "rendering agent_id paths ev = fst (render_event agent_id paths ev [])"

lemma fst_render_event: "fst (render_event agent_id paths ev seen) = rendering agent_id paths ev"
  by (cases ev) (simp_all add: rendering_def render_event_def Let_def split_beta)

lemma fst_render_events: "fst (render_events agent_id paths evs seen) = map (rendering agent_id paths) evs"
  by (induction evs arbitrary: seen) (simp_all add: split_beta Let_def fst_render_event)

section \<open>What a step leaves alone\<close>

named_theorems loop_simps \<open>the parts of the loop's state an operation keeps or sets\<close>

lemma form_batch_simps [loop_simps]:
  "dl_heartbeat (snd (form_batch d)) = dl_heartbeat d"
  "dl_start_time (snd (form_batch d)) = dl_start_time d"
  "dl_agent_id (snd (form_batch d)) = dl_agent_id d"
  "dl_agent_block (snd (form_batch d)) = dl_agent_block d"
  "dl_paths (snd (form_batch d)) = dl_paths d"
  "dl_sequence (snd (form_batch d)) = dl_sequence d + 1"
  "bt_sequence (fst (form_batch d)) = dl_sequence d + 1"
  "dl_ring (snd (form_batch d)) = map_option (\<lambda>r. snd (drain_up_to MAX_BATCH_EVENTS r)) (dl_ring d)"
  by (simp_all add: form_batch_def split_beta Let_def split: option.splits)

lemma form_batch_events [loop_simps]:
  "bt_events (fst (form_batch d)) =
     (case dl_ring d of None \<Rightarrow> []
      | Some r \<Rightarrow> map (rendering (dl_agent_id d) (dl_paths d)) (fst (drain_up_to MAX_BATCH_EVENTS r)))"
  by (simp add: form_batch_def split_beta Let_def fst_render_events split: option.splits)

lemma check_overflow_simps [loop_simps]:
  "lp_next_tick (check_overflow now l) = lp_next_tick l"
  "lp_heartbeat_due (check_overflow now l) = lp_heartbeat_due l"
  "lp_batch_post_since_tick (check_overflow now l) = lp_batch_post_since_tick l"
  "lp_in_flight (check_overflow now l) = lp_in_flight l"
  "dl_heartbeat (lp_delivery (check_overflow now l)) = dl_heartbeat (lp_delivery l)"
  "dl_start_time (lp_delivery (check_overflow now l)) = dl_start_time (lp_delivery l)"
  "dl_agent_id (lp_delivery (check_overflow now l)) = dl_agent_id (lp_delivery l)"
  "dl_agent_block (lp_delivery (check_overflow now l)) = dl_agent_block (lp_delivery l)"
  "dl_paths (lp_delivery (check_overflow now l)) = dl_paths (lp_delivery l)"
  "dl_sequence (lp_delivery (check_overflow now l)) = dl_sequence (lp_delivery l)"
  "dl_ring (lp_delivery (check_overflow now l)) = dl_ring (lp_delivery l)"
  by (simp_all add: check_overflow_def Let_def split: option.splits)

lemma clock_ticks_Some:
  assumes "clock_ticks now l = Some l'"
  obtains k due since where "l' = l\<lparr>lp_heartbeat_due := due, lp_batch_post_since_tick := since, lp_next_tick := k\<rparr>"
proof (cases "next_tick_at l \<le> now")
  case True
  with assms that show ?thesis
    by (auto simp: clock_ticks_def)
next
  case False
  with assms that [of "lp_next_tick l" "lp_batch_post_since_tick l" "lp_heartbeat_due l"] show ?thesis
    by (simp add: clock_ticks_def)
qed

text \<open>A step at the top either leaves the POST in flight alone or forms one.\<close>

lemma loop_top_cases:
  assumes "loop_top now l = Some l'"
  obtains (kept) "lp_in_flight l' = lp_in_flight l" "lp_pc l' = (if lp_in_flight l = None then Idle else Sending)"
      "dl_ring (lp_delivery l') = dl_ring (lp_delivery l)"
      "dl_sequence (lp_delivery l') = dl_sequence (lp_delivery l)"
      "dl_heartbeat (lp_delivery l') = dl_heartbeat (lp_delivery l)"
      "dl_agent_id (lp_delivery l') = dl_agent_id (lp_delivery l)"
      "dl_paths (lp_delivery l') = dl_paths (lp_delivery l)"
    | (formed) "lp_in_flight l = None" "lp_pc l' = Sending"
      "lp_in_flight l' = Some \<lparr>pd_batch = fst (form_batch (lp_delivery l)), pd_transient_failures = 0,
         pd_rejections = 0, pd_backoff_ms = hb_backoff_initial_ms (dl_heartbeat (lp_delivery l))\<rparr>"
      "dl_ring (lp_delivery l') = dl_ring (snd (form_batch (lp_delivery l)))"
      "dl_sequence (lp_delivery l') = dl_sequence (lp_delivery l) + 1"
      "dl_heartbeat (lp_delivery l') = dl_heartbeat (lp_delivery l)"
      "dl_agent_id (lp_delivery l') = dl_agent_id (lp_delivery l)"
      "dl_paths (lp_delivery l') = dl_paths (lp_delivery l)"
proof -
  obtain l1 where l1: "clock_ticks now l = Some l1"
    and l': "l' = (let l2 = form_if_due now (check_overflow now l1)
             in l2\<lparr>lp_pc := (if lp_in_flight l2 = None then Idle else Sending)\<rparr>)"
    using assms by (auto simp: loop_top_def)
  have same: "lp_delivery l1 = lp_delivery l" "lp_in_flight l1 = lp_in_flight l"
    using l1 by (auto elim: clock_ticks_Some)
  let ?d = "lp_delivery (check_overflow now l1)"
  have batch: "fst (form_batch ?d) = fst (form_batch (lp_delivery l))"
    by (rule batch.equality) (simp_all add: loop_simps same split: option.split)
  show ?thesis
  proof (cases "lp_in_flight l = None \<and> (lp_heartbeat_due l1 \<or> batch_due now ?d)")
    case True
    then show ?thesis
      by (intro formed) (auto simp: l' form_if_due_def loop_simps same batch split_beta Let_def)
  next
    case False
    then have "form_if_due now (check_overflow now l1) = check_overflow now l1"
      by (auto simp: form_if_due_def loop_simps same)
    then show ?thesis
      by (intro kept) (simp_all add: l' loop_simps same)
  qed
qed

lemma judge_batch: "pd_batch (fst (judge h a p)) = pd_batch p"
  by (cases a) (simp_all add: judge_def Let_def)

lemma settle_cases:
  fixes a p l
  defines "v \<equiv> snd (judge (dl_heartbeat (lp_delivery l)) a p)"
  obtains (retry) p' ms where "v = Retry" "lp_in_flight (settle a p l) = Some p'" "pd_batch p' = pd_batch p"
      "lp_delivery (settle a p l) = lp_delivery l" "lp_pc (settle a p l) = BackingOff ms"
    | (dropped) s where "v = CloseDropped s" "lp_in_flight (settle a p l) = None" "lp_pc (settle a p l) = Top"
      "lp_delivery (settle a p l) = drop_rejected (pd_batch p) (lp_delivery l)"
    | (closed) "v = CloseDelivered \<or> v = CloseGivenUp" "lp_in_flight (settle a p l) = None" "lp_pc (settle a p l) = Top"
      "lp_delivery (settle a p l) = lp_delivery l"
proof -
  obtain p' w where j: "judge (dl_heartbeat (lp_delivery l)) a p = (p', w)"
    by fastforce
  then have "v = w" "pd_batch p' = pd_batch p"
    using judge_batch [of "dl_heartbeat (lp_delivery l)" a p] by (simp_all add: v_def)
  with j show ?thesis
    by (cases w) (auto simp: settle_def Let_def intro: retry dropped closed)
qed

lemma drop_rejected_simps [loop_simps]:
  "dl_heartbeat (drop_rejected b d) = dl_heartbeat d"
  "dl_agent_id (drop_rejected b d) = dl_agent_id d"
  "dl_agent_block (drop_rejected b d) = dl_agent_block d"
  "dl_start_time (drop_rejected b d) = dl_start_time d"
  "dl_paths (drop_rejected b d) = dl_paths d"
  "dl_sequence (drop_rejected b d) = dl_sequence d"
  "dl_ring (drop_rejected b d) = map_option (add_dropped (of_nat (length (bt_events b)))) (dl_ring d)"
  by (simp_all add: drop_rejected_def)

lemma capture_event_simps [loop_simps]:
  "lp_in_flight (capture_event t e l) = lp_in_flight l"
  "lp_pc (capture_event t e l) = lp_pc l"
  "dl_heartbeat (lp_delivery (capture_event t e l)) = dl_heartbeat (lp_delivery l)"
  "dl_agent_id (lp_delivery (capture_event t e l)) = dl_agent_id (lp_delivery l)"
  "dl_paths (lp_delivery (capture_event t e l)) = dl_paths (lp_delivery l)"
  "dl_sequence (lp_delivery (capture_event t e l)) = dl_sequence (lp_delivery l)"
  "dl_ring (lp_delivery (capture_event t e l)) = map_option (enqueue_or_drop t e) (dl_ring (lp_delivery l))"
  by (simp_all add: capture_event_def)

section \<open>The invariant of an execution\<close>

definition in_flight_batches :: "loop \<Rightarrow> batch list" where
  "in_flight_batches l = (case lp_in_flight l of None \<Rightarrow> [] | Some p \<Rightarrow> [pd_batch p])"

lemma fifo_run_append:
  "fifo_run put tk cnt (ops @ ops') q =
     (let (xs, q') = fifo_run put tk cnt ops q; (ys, q'') = fifo_run put tk cnt ops' q'
      in (xs @ ys, q''))"
proof (induction ops arbitrary: q)
  case (Cons op ops)
  then show ?case
    by (cases op) (simp_all add: split_beta Let_def)
qed simp

lemma counted_append: "counted (ops @ ops') = counted ops + counted ops'"
  by (induction ops rule: counted.induct) (simp_all add: ac_simps)

definition events_in :: "batch list \<Rightarrow> cges_event list" where
  "events_in bs = concat (map bt_events bs)"

fun is_dropped :: "verdict \<Rightarrow> bool" where
  "is_dropped (CloseDropped s) = True"
| "is_dropped _ = False"

definition closed_with :: "(verdict \<Rightarrow> bool) \<Rightarrow> history \<Rightarrow> batch list" where
  "closed_with P h = map fst (filter (\<lambda>(_, v). P v) (hi_closed h))"

text \<open>
  The part of the invariant that does not mention the ring: POSTs are closed
  in the order they were formed, one at a time, numbered from one.
\<close>

definition numbered :: "u64 \<Rightarrow> batch list \<Rightarrow> bool" where
  "numbered s bs \<longleftrightarrow> map bt_sequence bs = map (\<lambda>k. s + of_nat (Suc k)) [0..<length bs]"

lemma numbered_snoc:
  "numbered s (bs @ [b]) \<longleftrightarrow> numbered s bs \<and> bt_sequence b = s + of_nat (length bs) + 1"
  by (auto simp: numbered_def ac_simps)

definition posts_inv :: "delivery \<Rightarrow> loop \<Rightarrow> history \<Rightarrow> bool" where
  "posts_inv d l h \<longleftrightarrow>
     dl_heartbeat (lp_delivery l) = dl_heartbeat d \<and> dl_agent_id (lp_delivery l) = dl_agent_id d \<and>
     dl_paths (lp_delivery l) = dl_paths d \<and>
     hi_formed h = map fst (hi_closed h) @ in_flight_batches l \<and>
     dl_sequence (lp_delivery l) = dl_sequence d + of_nat (length (hi_formed h)) \<and>
     numbered (dl_sequence d) (hi_formed h) \<and>
     (\<forall>(b, v) \<in> set (hi_closed h). v \<noteq> Retry \<and> (v = CloseGivenUp \<longrightarrow> bt_events b = []))"

lemma judge_given_up:
  "snd (judge h a p) = CloseGivenUp \<Longrightarrow> bt_events (pd_batch p) = []"
  by (auto simp: judge_def Let_def split: attempt.splits if_splits)

lemma posts_inv_start: "posts_inv d (loop_start d) history_start"
  by (simp add: posts_inv_def loop_start_def history_start_def in_flight_batches_def numbered_def)

lemma posts_inv_pc:
  "posts_inv d l h \<Longrightarrow> posts_inv d (l\<lparr>lp_pc := c\<rparr>) h"
  by (auto simp: posts_inv_def in_flight_batches_def)

lemma posts_inv_top:
  assumes "posts_inv d l h" "loop_top now l = Some l'"
  shows "posts_inv d l' (observe cy l (Clock now) l' h)"
  using assms(2)
proof (cases rule: loop_top_cases)
  case kept
  with assms(1) show ?thesis
    by (cases "lp_in_flight l") (auto simp: posts_inv_def in_flight_batches_def observe_def)
next
  case formed
  with assms(1) have "numbered (dl_sequence d) (hi_formed h @ [fst (form_batch (lp_delivery l))])"
    unfolding numbered_snoc by (auto simp: posts_inv_def loop_simps)
  with formed assms(1) show ?thesis
    by (auto simp: posts_inv_def in_flight_batches_def observe_def loop_simps)
qed

lemma posts_inv_sent:
  "posts_inv d l h \<Longrightarrow> posts_inv d l (h\<lparr>hi_sent := s\<rparr>)"
  by (auto simp: posts_inv_def)

lemma posts_inv_settle:
  assumes "posts_inv d l h" "lp_in_flight l = Some p"
  shows "posts_inv d (settle a p l)
    (observe_close (pd_batch p) (snd (judge (dl_heartbeat (lp_delivery l)) a p)) h)"
proof (cases rule: settle_cases [of l a p])
  case (closed)
  with assms judge_given_up [of "dl_heartbeat (lp_delivery l)" a p] show ?thesis
    by (auto simp: posts_inv_def in_flight_batches_def observe_close_def)
qed (use assms in \<open>auto simp: posts_inv_def in_flight_batches_def observe_close_def loop_simps\<close>)

lemma posts_inv_attempt:
  assumes "posts_inv d l h" "lp_in_flight l = Some p"
  shows "posts_inv d (attempt_step cy a p l) (observe cy l (Answered a) l' h)"
proof -
  let ?h = "case attempt_envelope cy a (pd_batch p) Online (lp_delivery l) of
      Inl _ \<Rightarrow> h | Inr e \<Rightarrow> h\<lparr>hi_sent := hi_sent h @ [e]\<rparr>"
  have "posts_inv d l ?h"
    using assms(1) posts_inv_sent by (auto split: sum.splits)
  with assms posts_inv_settle [of d l ?h p] posts_inv_pc show ?thesis
    by (auto simp: observe_def observe_attempt_def attempt_step_def Let_def split: sum.splits)
qed

lemma exec_posts_inv: "exec cy d l h \<Longrightarrow> posts_inv d l h"
proof (induction rule: exec.induct)
  case exec_start
  show ?case by (rule posts_inv_start)
next
  case (exec_step l h ev l')
  from exec_step(2) show ?case
  proof cases
    case (captured now e)
    with exec_step(3) show ?thesis
      by (auto simp: posts_inv_def in_flight_batches_def observe_def loop_simps)
  qed (use exec_step(3) posts_inv_top posts_inv_attempt in
      \<open>auto simp: observe_def intro: posts_inv_pc\<close>)
qed

text \<open>
  The part about the ring: it is what the recorded operations make of the
  initial ring, the events of the POSTs formed are those taken, rendered, and
  the losses counted from outside are the events of the dropped POSTs.
\<close>

definition ring_inv :: "delivery \<Rightarrow> event_ring \<Rightarrow> loop \<Rightarrow> history \<Rightarrow> bool" where
  "ring_inv d r0 l h \<longleftrightarrow>
     dl_ring (lp_delivery l) = Some (snd (ring_run (hi_ops h) r0)) \<and>
     events_in (hi_formed h) = map (rendering (dl_agent_id d) (dl_paths d)) (fst (ring_run (hi_ops h) r0)) \<and>
     counted (hi_ops h) = of_nat (length (events_in (closed_with is_dropped h)))"

lemma ring_run_append:
  "ring_run (ops @ [op]) r = (let (xs, r') = ring_run ops r; (ys, r'') = ring_run [op] r' in (xs @ ys, r''))"
  by (simp add: ring_run_def fifo_run_append)

lemma ring_run_op:
  "ring_run [Put t e] r = ([], enqueue_or_drop t e r)"
  "ring_run [CountLost n] r = ([], add_dropped n r)"
  "ring_run [Take mx] r = drain_up_to mx r"
  by (simp_all add: ring_run_def split_beta Let_def)

lemmas ring_run_snoc = ring_run_append ring_run_op

lemma events_in_append [simp]: "events_in (bs @ bs') = events_in bs @ events_in bs'"
  by (simp add: events_in_def)

lemma events_in_single [simp]: "events_in [b] = bt_events b" "events_in [] = []"
  by (simp_all add: events_in_def)

lemma ring_inv_start:
  "dl_ring d = Some r0 \<Longrightarrow> ring_inv d r0 (loop_start d) history_start"
  by (simp add: ring_inv_def loop_start_def history_start_def ring_run_def closed_with_def)

lemma ring_inv_other:
  "ring_inv d r0 l h \<Longrightarrow> ring_inv d r0 (l\<lparr>lp_pc := c\<rparr>) (h\<lparr>hi_sent := s\<rparr>)"
  "ring_inv d r0 l h \<Longrightarrow> ring_inv d r0 (l\<lparr>lp_pc := c\<rparr>) h"
  "ring_inv d r0 l h \<Longrightarrow> ring_inv d r0 l (h\<lparr>hi_sent := s\<rparr>)"
  by (auto simp: ring_inv_def closed_with_def)

lemma ring_inv_top:
  assumes "ring_inv d r0 l h" "posts_inv d l h" "loop_top now l = Some l'"
  shows "ring_inv d r0 l' (observe cy l (Clock now) l' h)"
  using assms(3)
proof (cases rule: loop_top_cases)
  case kept
  with assms(1) show ?thesis
    by (cases "lp_in_flight l") (auto simp: ring_inv_def observe_def closed_with_def)
next
  case formed
  with assms(1,2) show ?thesis
    by (auto simp: ring_inv_def posts_inv_def observe_def loop_simps ring_run_snoc counted_append
        closed_with_def split_beta Let_def)
qed

lemma ring_inv_settle:
  assumes "ring_inv d r0 l h"
  shows "ring_inv d r0 (settle a p l)
    (observe_close (pd_batch p) (snd (judge (dl_heartbeat (lp_delivery l)) a p)) h)"
proof (cases rule: settle_cases [of l a p])
  case (dropped s)
  with assms show ?thesis
    by (auto simp: ring_inv_def observe_close_def loop_simps ring_run_snoc counted_append
        closed_with_def split_beta Let_def)
qed (use assms in \<open>auto simp: ring_inv_def observe_close_def closed_with_def\<close>)

lemma ring_inv_attempt:
  assumes "ring_inv d r0 l h" "lp_in_flight l = Some p"
  shows "ring_inv d r0 (attempt_step cy a p l) (observe cy l (Answered a) l' h)"
proof -
  let ?h = "case attempt_envelope cy a (pd_batch p) Online (lp_delivery l) of
      Inl _ \<Rightarrow> h | Inr e \<Rightarrow> h\<lparr>hi_sent := hi_sent h @ [e]\<rparr>"
  have "ring_inv d r0 l ?h"
    using assms(1) ring_inv_other(3) by (auto split: sum.splits)
  with assms ring_inv_settle [of d r0 l ?h] ring_inv_other show ?thesis
    by (auto simp: observe_def observe_attempt_def attempt_step_def Let_def split: sum.splits)
qed

lemma exec_ring_inv:
  "exec cy d l h \<Longrightarrow> dl_ring d = Some r0 \<Longrightarrow> ring_inv d r0 l h"
proof (induction rule: exec.induct)
  case exec_start
  then show ?case by (rule ring_inv_start)
next
  case (exec_step l h ev l')
  note inv = exec_step(3) [OF exec_step(4)]
  note posts = exec_posts_inv [OF exec_step(1)]
  from exec_step(2) show ?case
  proof cases
    case (captured now e)
    with inv show ?thesis
      by (auto simp: ring_inv_def observe_def loop_simps ring_run_snoc counted_append closed_with_def
          split_beta Let_def)
  qed (use inv ring_inv_top [OF inv posts] ring_inv_attempt [OF inv] in
      \<open>auto simp: observe_def intro: ring_inv_other\<close>)
qed

section \<open>Every captured event is accounted for\<close>

lemma closed_partition:
  assumes "\<forall>(b, v) \<in> set cl. v \<noteq> Retry \<and> (v = CloseGivenUp \<longrightarrow> bt_events b = [])"
  shows "length (events_in (map fst cl)) =
    length (events_in (map fst (filter (\<lambda>(_, v). v = CloseDelivered) cl)))
    + length (events_in (map fst (filter (\<lambda>(_, v). is_dropped v) cl)))"
  using assms
proof (induction cl)
  case (Cons c cl)
  obtain b v where "c = (b, v)" by (cases c)
  with Cons show ?case
    by (cases v) (auto simp: events_in_def)
qed (simp add: events_in_def)

text \<open>
  Claim C1. At every moment of every execution of the delivery loop on a ring
  of non-zero capacity, each captured event the ring admitted is in exactly
  one place: delivered in a POST the server accepted, in the POST in flight,
  buffered in the ring, or counted in the ring's dropped total (by overflow or
  with a rejected POST; the sum is that of the 64-bit counter). The events
  leave in the order they were captured.
\<close>

theorem every_event_accounted:
  assumes "exec cy d l h" "dl_ring d = Some (ring_new cap)" "0 < cap"
  shows "\<exists>r. dl_ring (lp_delivery l) = Some r \<and> ring_len r \<le> cap
    \<and> of_nat (length (events_in (closed_with (\<lambda>v. v = CloseDelivered) h)))
      + of_nat (length (events_in (in_flight_batches l))) + of_nat (ring_len r) + events_dropped_total r
      = of_nat (length (ring_offered (hi_ops h)))
    \<and> subseq (events_in (hi_formed h) @ map (rendering (dl_agent_id d) (dl_paths d)) (snapshot_events r))
        (map (rendering (dl_agent_id d) (dl_paths d)) (ring_offered (hi_ops h)))"
proof -
  let ?r = "snd (ring_run (hi_ops h) (ring_new cap))" and ?out = "fst (ring_run (hi_ops h) (ring_new cap))"
  let ?ren = "rendering (dl_agent_id d) (dl_paths d)"
  have inv: "ring_inv d (ring_new cap) l h" and posts: "posts_inv d l h"
    using assms exec_ring_inv exec_posts_inv by blast+
  have len: "ring_len r = length (snapshot_events r)" for r
    by (simp add: ring_len_def snapshot_events_def)
  have "length ?out = length (events_in (hi_formed h))"
    using inv by (simp add: ring_inv_def)
  also have "\<dots> = length (events_in (closed_with (\<lambda>v. v = CloseDelivered) h))
      + length (events_in (closed_with is_dropped h)) + length (events_in (in_flight_batches l))"
    using posts closed_partition [of "hi_closed h"] by (simp add: posts_inv_def closed_with_def)
  finally have "of_nat (length (events_in (closed_with (\<lambda>v. v = CloseDelivered) h)))
      + of_nat (length (events_in (in_flight_batches l))) + of_nat (ring_len ?r) + events_dropped_total ?r
      = (of_nat (length (ring_offered (hi_ops h))) :: u64)"
    using ring.run_conserves [of "ring_new cap" "hi_ops h"] inv assms(3)
    by (simp add: ring_inv_def ring_run_def len algebra_simps)
  moreover have "subseq (map ?ren (?out @ snapshot_events ?r)) (map ?ren (ring_offered (hi_ops h)))"
    using ring.run_order [of "hi_ops h" "ring_new cap"] by (intro subseq_map) (simp add: ring_run_def)
  moreover have "ring_len ?r \<le> cap"
    using ring.run_within_bound [of "ring_new cap" "hi_ops h"] assms(3) by (simp add: ring_run_def len)
  ultimately show ?thesis
    using inv by (simp add: ring_inv_def)
qed

section \<open>POSTs go out in order, and a retry is the same POST\<close>

definition carries :: "outer_envelope \<Rightarrow> batch \<Rightarrow> bool" where
  "carries e b \<longleftrightarrow> oe_sequence_number e = bt_sequence b \<and> he_sequence_number (oe_body e) = bt_sequence b
     \<and> he_events (oe_body e) = bt_events b"

lemma attempt_envelope_carries: "attempt_envelope cy a b s d = Inr e \<Longrightarrow> carries e b"
  unfolding attempt_envelope_def Let_def
  by (drule seal_envelope_fields) (simp add: carries_def build_envelope_def)

definition sent_inv :: "loop \<Rightarrow> history \<Rightarrow> bool" where
  "sent_inv l h \<longleftrightarrow>
     (\<forall>e \<in> set (hi_sent h). \<exists>b \<in> set (hi_formed h). carries e b)
     \<and> (\<forall>b \<in> set (hi_formed h). length (bt_events b) \<le> MAX_BATCH_EVENTS)"

lemma hi_observe_close [simp]:
  "hi_formed (observe_close b v h) = hi_formed h" "hi_sent (observe_close b v h) = hi_sent h"
  by (simp_all add: observe_close_def split: verdict.splits)

lemma form_batch_size: "length (bt_events (fst (form_batch d))) \<le> MAX_BATCH_EVENTS"
  by (auto simp: loop_simps drain_up_to_def Let_def split: option.splits)

lemma observe_attempt_sent:
  "hi_formed (observe_attempt cy a p l h) = hi_formed h"
  "hi_sent (observe_attempt cy a p l h) = hi_sent h @
     (case attempt_envelope cy a (pd_batch p) Online (lp_delivery l) of Inl _ \<Rightarrow> [] | Inr e \<Rightarrow> [e])"
  by (simp_all add: observe_attempt_def Let_def split: sum.splits)

lemma exec_sent_inv: "exec cy d l h \<Longrightarrow> sent_inv l h"
proof (induction rule: exec.induct)
  case exec_start
  show ?case by (simp add: sent_inv_def history_start_def)
next
  case (exec_step l h ev l')
  from exec_step(2) show ?case
  proof cases
    case (top now)
    from top(3) show ?thesis
      by (cases rule: loop_top_cases)
        (use top exec_step(3) form_batch_size in \<open>auto simp: sent_inv_def observe_def split: option.splits\<close>)
  next
    case (answered p a)
    have "pd_batch p \<in> set (hi_formed h)"
      using exec_posts_inv [OF exec_step(1)] answered by (simp add: posts_inv_def in_flight_batches_def)
    moreover have "\<forall>e \<in> set (case attempt_envelope cy a (pd_batch p) Online (lp_delivery l) of
        Inl _ \<Rightarrow> [] | Inr e \<Rightarrow> [e]). carries e (pd_batch p)"
      using attempt_envelope_carries by (auto split: sum.splits)
    ultimately show ?thesis
      using answered(1,4) exec_step(3) unfolding sent_inv_def observe_def
      by (simp add: observe_attempt_sent) blast
  qed (use exec_step(3) in \<open>auto simp: sent_inv_def observe_def\<close>)
qed

text \<open>
  Claim C2. POSTs are numbered 1, 2, 3, ... in the order they are formed, are
  closed in that order with at most one in flight, and carry at most 1024
  events. Every envelope handed to the sender, first attempt or retry, carries
  the sequence number and exactly the events of one of them, and a POST with
  events is never given up for transient failures.
\<close>

theorem posts_in_order:
  assumes "exec cy (delivery_new blk aid hb start ring paths) l h"
  shows "hi_formed h = map fst (hi_closed h) @ in_flight_batches l
    \<and> map bt_sequence (hi_formed h) = map of_nat [1..<Suc (length (hi_formed h))]
    \<and> (\<forall>b \<in> set (hi_formed h). length (bt_events b) \<le> 1024)
    \<and> (\<forall>e \<in> set (hi_sent h). \<exists>b \<in> set (hi_formed h). carries e b)
    \<and> (\<forall>(b, v) \<in> set (hi_closed h). v = CloseGivenUp \<longrightarrow> bt_events b = [])"
proof -
  have "map of_nat [1..<Suc n] = map (\<lambda>k. of_nat (Suc k) :: u64) [0..<n]" for n
    by (induction n) simp_all
  then have numbers: "map bt_sequence bs = map of_nat [1..<Suc (length bs)]" if "numbered 0 bs" for bs
    using that by (simp add: numbered_def)
  have posts: "hi_formed h = map fst (hi_closed h) @ in_flight_batches l" "numbered 0 (hi_formed h)"
    "\<forall>(b, v) \<in> set (hi_closed h). v = CloseGivenUp \<longrightarrow> bt_events b = []"
    using exec_posts_inv [OF assms] unfolding posts_inv_def delivery_new_def by auto
  have "sent_inv l h"
    using assms by (rule exec_sent_inv)
  then show ?thesis
    unfolding sent_inv_def MAX_BATCH_EVENTS_def using posts(1,3) numbers [OF posts(2)] by blast
qed

section \<open>The tick schedule\<close>

lemma tick_at_eq: "i * (2 ^ 32 - 1) \<le> DURATION_MAX \<Longrightarrow> tick_at start i k = start + i * unat k"
proof -
  assume le: "i * (2 ^ 32 - 1) \<le> DURATION_MAX"
  have "unat k \<le> 2 ^ 32 - 1"
    using unat_bound [of k] by simp
  then have "i * unat k \<le> DURATION_MAX"
    using le mult_le_mono2 order_trans by blast
  then show ?thesis
    by (simp add: tick_at_def)
qed

lemma advance_tick_eq:
  assumes "0 < i" "i * (2 ^ 32 - 1) \<le> DURATION_MAX" "start \<le> now" "now < start + i * (2 ^ 32 - 1)"
    and "unat k \<le> (now - start) div i + 1"
  shows "advance_tick start i now k = Some (of_nat ((now - start) div i + 1))"
  using assms(5)
proof (induction "(now - start) div i + 1 - unat k" arbitrary: k)
  case 0
  then have k: "unat k = (now - start) div i + 1"
    by simp
  have "now - start < i * unat k"
    using assms(1) dividend_less_times_div [of i "now - start"] by (simp add: k)
  then have "\<not> tick_at start i k \<le> now"
    using assms(3) by (simp add: tick_at_eq [OF assms(2)])
  with k show ?case
    by (subst advance_tick.simps) (metis word_eq_of_natI)
next
  case (Suc n)
  let ?q = "(now - start) div i"
  have k: "unat k \<le> ?q"
    using Suc(2) by simp
  then have "i * unat k \<le> now - start"
    using assms(1) by (meson mult_le_mono2 order_trans times_div_less_eq_dividend)
  then have due: "tick_at start i k \<le> now"
    using assms(3) by (simp add: tick_at_eq [OF assms(2)])
  have "now - start < (2 ^ 32 - 1) * i"
    using assms(3,4) by (simp add: mult.commute)
  then have "?q < 2 ^ 32 - 1"
    by (simp add: less_mult_imp_div_less)
  with k have next_k: "unat (saturating_add k 1) = Suc (unat k)"
    by (simp add: unat_saturating_add)
  show ?case
    using due Suc(1) [of "saturating_add k 1"] Suc(2) k next_k by (subst advance_tick.simps) simp
qed

text \<open>The loops the code runs: a positive interval, and a clock within reach of 32-bit ticks.\<close>

definition tick_range :: "loop \<Rightarrow> instant \<Rightarrow> bool" where
  "tick_range l now \<longleftrightarrow>
     0 < loop_interval l \<and> loop_interval l * (2 ^ 32 - 1) \<le> DURATION_MAX
     \<and> now < dl_start_time (lp_delivery l) + loop_interval l * (2 ^ 32 - 1)"

lemma next_tick_at_eq:
  "tick_range l now \<Longrightarrow> next_tick_at l = dl_start_time (lp_delivery l) + loop_interval l * unat (lp_next_tick l)"
  by (simp add: next_tick_at_def tick_range_def tick_at_eq)

lemma clock_ticks_due:
  assumes "tick_range l now" "next_tick_at l \<le> now"
  shows "clock_ticks now l =
    Some (l\<lparr>lp_heartbeat_due := lp_heartbeat_due l \<or> \<not> lp_batch_post_since_tick l,
            lp_batch_post_since_tick := False,
            lp_next_tick := of_nat ((now - dl_start_time (lp_delivery l)) div loop_interval l + 1)\<rparr>)"
proof -
  have "loop_interval l * unat (lp_next_tick l) \<le> now - dl_start_time (lp_delivery l)"
    using assms next_tick_at_eq [OF assms(1)] by simp
  then have "unat (lp_next_tick l) \<le> (now - dl_start_time (lp_delivery l)) div loop_interval l"
    using assms(1) by (simp add: tick_range_def less_eq_div_iff_mult_less_eq mult.commute)
  moreover have "dl_start_time (lp_delivery l) \<le> now"
    using assms next_tick_at_eq [OF assms(1)] by simp
  ultimately show ?thesis
    using assms advance_tick_eq [of "loop_interval l" "dl_start_time (lp_delivery l)" now "lp_next_tick l"]
    by (simp add: clock_ticks_def tick_range_def)
qed

lemma form_if_due_simps [loop_simps]:
  "lp_next_tick (form_if_due now l) = lp_next_tick l"
  "dl_heartbeat (lp_delivery (form_if_due now l)) = dl_heartbeat (lp_delivery l)"
  "dl_start_time (lp_delivery (form_if_due now l)) = dl_start_time (lp_delivery l)"
  "lp_in_flight (form_if_due now l) = None \<longleftrightarrow>
     lp_in_flight l = None \<and> \<not> lp_heartbeat_due l \<and> \<not> batch_due now (lp_delivery l)"
  "(\<exists>p. lp_in_flight (form_if_due now l) = Some p) \<longleftrightarrow>
     lp_in_flight l \<noteq> None \<or> lp_heartbeat_due l \<or> batch_due now (lp_delivery l)"
  "lp_in_flight l \<noteq> None \<Longrightarrow> form_if_due now l = l"
  by (auto simp: form_if_due_def loop_simps split_beta Let_def)

text \<open>
  Claim C4. A pass of the loop at or after a tick ends, moves the next tick to
  the first point of the schedule \<open>start + k * interval\<close> after the clock,
  however many were missed, and serves the tick: a POST is in flight after the
  pass, or one was formed since the previous tick. If a POST was already in
  flight and none was formed since the previous tick, the heartbeat stays due.
\<close>

theorem tick_served:
  assumes "tick_range l now" "next_tick_at l \<le> now"
  shows "\<exists>l'. loop_top now l = Some l'
    \<and> next_tick_at l' = dl_start_time (lp_delivery l)
        + loop_interval l * ((now - dl_start_time (lp_delivery l)) div loop_interval l + 1)
    \<and> now < next_tick_at l' \<and> next_tick_at l' \<le> now + loop_interval l
    \<and> (lp_in_flight l' \<noteq> None \<or> lp_batch_post_since_tick l)
    \<and> (lp_in_flight l \<noteq> None \<and> \<not> lp_batch_post_since_tick l \<longrightarrow> lp_heartbeat_due l')"
proof -
  let ?start = "dl_start_time (lp_delivery l)" and ?i = "loop_interval l"
  let ?q = "(now - ?start) div ?i + 1"
  obtain l' where l': "loop_top now l = Some l'" and tick: "lp_next_tick l' = of_nat ?q"
    and served: "lp_in_flight l' \<noteq> None \<or> lp_batch_post_since_tick l"
      "lp_in_flight l \<noteq> None \<and> \<not> lp_batch_post_since_tick l \<longrightarrow> lp_heartbeat_due l'"
    and same: "loop_interval l' = ?i" "dl_start_time (lp_delivery l') = ?start"
    unfolding loop_top_def clock_ticks_due [OF assms] option.map
    by (auto simp: loop_simps Let_def loop_interval_def)
  have le: "?start \<le> now"
    using assms next_tick_at_eq by fastforce
  have "now - ?start < (2 ^ 32 - 1) * ?i"
    using assms(1) le unfolding tick_range_def by auto
  then have "?q < 2 ^ 32"
    by (simp add: less_mult_imp_div_less)
  then have "unat (lp_next_tick l') = ?q"
    unfolding tick unsigned_of_nat by (simp add: take_bit_nat_eq_self)
  then have at: "next_tick_at l' = ?start + ?i * ?q"
    using assms(1) same by (simp add: next_tick_at_def tick_range_def tick_at_eq)
  moreover have "now - ?start < ?i * ?q"
    using assms(1) dividend_less_times_div [of ?i "now - ?start"] by (simp add: tick_range_def)
  moreover have "?i * ?q \<le> (now - ?start) + ?i"
    by (simp add: times_div_less_eq_dividend)
  ultimately show ?thesis
    using l' served le by (intro exI [of _ l'] conjI) simp_all
qed

text \<open>
  When no POST is in flight and the oldest buffered event has waited
  5000 ms, or 1024 events are buffered, a pass of the loop forms a POST with
  the oldest events, up to 1024, in order, and takes exactly those from the
  ring.
\<close>

lemma due_events_leave:
  assumes "loop_top now l = Some l'" "lp_in_flight l = None" "dl_ring (lp_delivery l) = Some r"
    and "MAX_BATCH_EVENTS \<le> ring_len r
         \<or> (\<exists>t. oldest_enqueued_at r = Some t \<and> MAX_BATCH_LATENCY \<le> now - t)"
  shows "\<exists>p r'. lp_in_flight l' = Some p \<and> lp_pc l' = Sending \<and> dl_ring (lp_delivery l') = Some r'
    \<and> bt_events (pd_batch p) = map (rendering (dl_agent_id (lp_delivery l)) (dl_paths (lp_delivery l)))
         (take 1024 (snapshot_events r))
    \<and> snapshot_events r' = drop 1024 (snapshot_events r)
    \<and> bt_sequence (pd_batch p) = dl_sequence (lp_delivery l) + 1"
  using assms(1)
proof (cases rule: loop_top_cases)
  case formed
  then show ?thesis
    using assms(3) ring.fst_take [of 1024 r] ring.contents_take [of 1024 r]
    by (simp add: loop_simps MAX_BATCH_EVENTS_def)
next
  case kept
  obtain l1 where "clock_ticks now l = Some l1"
    and l': "l' = (let l2 = form_if_due now (check_overflow now l1)
             in l2\<lparr>lp_pc := (if lp_in_flight l2 = None then Idle else Sending)\<rparr>)"
    using assms(1) by (auto simp: loop_top_def)
  then have "dl_ring (lp_delivery (check_overflow now l1)) = Some r"
    using assms(3) by (auto simp: loop_simps elim: clock_ticks_Some)
  then have "batch_due now (lp_delivery (check_overflow now l1))"
    using assms(4) by (auto simp: batch_due_def)
  with kept l' assms(2) show ?thesis
    by (simp add: Let_def loop_simps)
qed

section \<open>The retry rules\<close>

text \<open>A POST after the given results of its attempts: whether another attempt follows.\<close>

fun retried :: "heartbeat_config \<Rightarrow> attempt list \<Rightarrow> pending \<Rightarrow> bool" where
  "retried h [] p = True"
| "retried h (a # rs) p = (snd (judge h a p) = Retry \<and> retried h rs (fst (judge h a p)))"

fun is_rejection :: "attempt \<Rightarrow> bool" where
  "is_rejection (Rejected s) = True"
| "is_rejection _ = False"

fun is_transient :: "attempt \<Rightarrow> bool" where
  "is_transient (Transient e) = True"
| "is_transient _ = False"

abbreviation rejections :: "attempt list \<Rightarrow> nat" where
  "rejections rs \<equiv> length (filter is_rejection rs)"

abbreviation transients :: "attempt list \<Rightarrow> nat" where
  "transients rs \<equiv> length (filter is_transient rs)"

lemma counter_step:
  "unat c + Suc n < 2 ^ 32 \<Longrightarrow> unat (c + 1) = Suc (unat c)" for c :: u32
  by (subst unat_word_ariths) simp

lemma retried_iff:
  "unat (pd_transient_failures p) + length rs < 2 ^ 32 \<Longrightarrow> unat (pd_rejections p) + length rs < 2 ^ 32 \<Longrightarrow>
   retried h rs p \<longleftrightarrow> Delivered \<notin> set rs
     \<and> (rejections rs = 0 \<or> unat (pd_rejections p) + rejections rs < unat (hb_max_retries h))
     \<and> (bt_events (pd_batch p) = [] \<longrightarrow> transients rs = 0
         \<or> unat (pd_transient_failures p) + transients rs < unat (hb_max_retries h))"
proof (induction rs arbitrary: p)
  case (Cons a rs)
  show ?case
  proof (cases a)
    case Delivered
    then show ?thesis by (simp add: judge_def)
  next
    case (Transient e)
    let ?p = "p\<lparr>pd_transient_failures := pd_transient_failures p + 1\<rparr>"
    have step: "unat (pd_transient_failures p + 1) = Suc (unat (pd_transient_failures p))"
      using Cons.prems(1) by (intro counter_step [of _ "length rs"]) simp
    have "retried h rs ?p \<longleftrightarrow> Delivered \<notin> set rs
     \<and> (rejections rs = 0 \<or> unat (pd_rejections p) + rejections rs < unat (hb_max_retries h))
     \<and> (bt_events (pd_batch p) = [] \<longrightarrow> transients rs = 0
         \<or> Suc (unat (pd_transient_failures p)) + transients rs < unat (hb_max_retries h))"
      using Cons.IH [of ?p] Cons.prems step by simp
    with Transient step show ?thesis
      by (auto simp: judge_def Let_def word_le_nat_alt)
  next
    case (Rejected s)
    let ?p = "p\<lparr>pd_rejections := pd_rejections p + 1\<rparr>"
    have step: "unat (pd_rejections p + 1) = Suc (unat (pd_rejections p))"
      using Cons.prems(2) by (intro counter_step [of _ "length rs"]) simp
    have "retried h rs ?p \<longleftrightarrow> Delivered \<notin> set rs
     \<and> (rejections rs = 0 \<or> Suc (unat (pd_rejections p)) + rejections rs < unat (hb_max_retries h))
     \<and> (bt_events (pd_batch p) = [] \<longrightarrow> transients rs = 0
         \<or> unat (pd_transient_failures p) + transients rs < unat (hb_max_retries h))"
      using Cons.IH [of ?p] Cons.prems step by simp
    with Rejected step show ?thesis
      by (auto simp: judge_def Let_def word_le_nat_alt)
  qed
qed simp

definition new_pending :: "heartbeat_config \<Rightarrow> batch \<Rightarrow> pending" where
  "new_pending h b =
     \<lparr>pd_batch = b, pd_transient_failures = 0, pd_rejections = 0, pd_backoff_ms = hb_backoff_initial_ms h\<rparr>"



lemma mixed_failures_retried:
  "retried heartbeat_default [Transient e, Rejected 400, Transient e, Rejected 400]
     (new_pending heartbeat_default \<lparr>bt_sequence = s, bt_events = []\<rparr>)"
  by (subst retried_iff) (simp_all add: new_pending_def heartbeat_default_def)

text \<open>
  The limits count rejections and transient failures apart: a POST
  without events can be attempted up to \<open>2 * max_retries - 1\<close> times, not
  \<open>max_retries\<close> in total; with the default of three, four failed attempts of
  mixed kinds are followed by a fifth.
\<close>

lemma eventless_post_attempts:
  assumes "retried h rs (new_pending h \<lparr>bt_sequence = s, bt_events = []\<rparr>)" "length rs < 2 ^ 32"
    and "0 < hb_max_retries h"
  shows "length rs + 1 \<le> 2 * unat (hb_max_retries h) - 1
    \<and> (hb_max_retries heartbeat_default = 3
       \<and> retried heartbeat_default [Transient ''reset'', Rejected 400, Transient ''reset'', Rejected 400]
           (new_pending heartbeat_default \<lparr>bt_sequence = s, bt_events = []\<rparr>))"
proof -
  have "length rs = rejections rs + transients rs" if "Delivered \<notin> set rs"
    using that
  proof (induction rs)
    case (Cons a rs)
    then show ?case by (cases a) simp_all
  qed simp
  moreover have "Delivered \<notin> set rs" "rejections rs < unat (hb_max_retries h)"
    "transients rs < unat (hb_max_retries h)"
    using assms retried_iff [of "new_pending h \<lparr>bt_sequence = s, bt_events = []\<rparr>" rs h]
    by (auto simp: new_pending_def unat_gt_0 word_neq_0_conv)
  ultimately show ?thesis
    using mixed_failures_retried [of "''reset''" s] by (auto simp: heartbeat_default_def)
qed

section \<open>Fatal failures and the final POST\<close>

lemma attempt_within_fatal:
  "attempt_within cy a b s d = Inl e \<Longrightarrow> agent_exit_code e \<in> {6, 7, 8}"
  by (auto simp: attempt_within_def Let_def signing_exit_code_def split: sum.splits send_result.splits if_splits)

text \<open>
  The loop ends on its own only on a fatal TLS or signing failure,
  for which the agent's exit code is 6, 7 or 8; no server answer, timeout or
  connection failure ends it.
\<close>

lemma loop_fails_only_fatally:
  assumes "exec cy d l h" "lp_pc l = Failed e"
  shows "agent_exit_code e \<in> {6, 7, 8}"
  using assms
proof (induction arbitrary: e rule: exec.induct)
  case exec_start
  then show ?case by (simp add: loop_start_def)
next
  case (exec_step l h ev l')
  from exec_step(2) show ?case
  proof cases
    case (top now)
    from top(3) show ?thesis
      by (cases rule: loop_top_cases) (use exec_step(4) in \<open>auto split: if_splits\<close>)
  next
    case (answered p a)
    show ?thesis
    proof (cases "attempt_within cy a (pd_batch p) Online (lp_delivery l)")
      case (Inl x)
      with answered exec_step(4) attempt_within_fatal [OF Inl] show ?thesis
        by (simp add: attempt_step_def)
    next
      case (Inr r)
      with answered exec_step(4) show ?thesis
        by (cases rule: settle_cases [of l r p]) (auto simp: attempt_step_def)
    qed
  qed (use exec_step(3,4) in \<open>auto simp: loop_simps\<close>)
qed

text \<open>
  The events of the final POST: the one in flight, or what a last batch takes.
\<close>

definition final_events :: "pending option \<Rightarrow> delivery \<Rightarrow> nat" where
  "final_events fl d =
     (case fl of
        Some p \<Rightarrow> length (bt_events (pd_batch p))
      | None \<Rightarrow> (case dl_ring d of None \<Rightarrow> 0 | Some r \<Rightarrow> min 1024 (ring_len r)))"

definition final_accepted :: "answer \<Rightarrow> bool" where
  "final_accepted a =
     (case an_result a of Some (SendStatus s) \<Rightarrow> 200 \<le> s \<and> s < 300 | _ \<Rightarrow> False)"

lemma attempt_delivered_iff:
  "attempt_within cy a b s d = Inr Delivered \<longleftrightarrow>
   (\<exists>e. attempt_envelope cy a b s d = Inr e) \<and> final_accepted a"
  by (auto simp: attempt_within_def final_accepted_def Let_def
      split: sum.splits option.splits send_result.splits if_splits)

definition final_post :: "pending option \<Rightarrow> delivery \<Rightarrow> batch \<times> delivery" where
  "final_post fl d = (case fl of Some p \<Rightarrow> (pd_batch p, d) | None \<Rightarrow> form_batch d)"

lemma final_post_counts:
  assumes "final_post fl d = (b, d')"
  shows "length (bt_events b) = final_events fl d"
    and "undelivered fl d = length (bt_events b) + (case dl_ring d' of None \<Rightarrow> 0 | Some r \<Rightarrow> ring_len r)"
proof -
  have "length (bt_events b) = final_events fl d \<and>
    undelivered fl d = length (bt_events b) + (case dl_ring d' of None \<Rightarrow> 0 | Some r \<Rightarrow> ring_len r)"
  proof (cases fl)
    case None
    then have "b = fst (form_batch d)" "d' = snd (form_batch d)"
      using assms by (simp_all add: final_post_def)
    with None show ?thesis
      by (auto simp: loop_simps final_events_def undelivered_def drain_up_to_def ring_len_def
          MAX_BATCH_EVENTS_def Let_def split: option.splits)
  qed (use assms in \<open>auto simp: final_post_def final_events_def undelivered_def split: option.splits\<close>)
  then show "length (bt_events b) = final_events fl d"
    and "undelivered fl d = length (bt_events b) + (case dl_ring d' of None \<Rightarrow> 0 | Some r \<Rightarrow> ring_len r)"
    by blast+
qed


section \<open>An execution\<close>

definition demo_delivery :: delivery where
  "demo_delivery = delivery_new
     \<lparr>ab_agent_id = ''a'', ab_agent_version = ''1.0.0'', ab_agent_platform = ''windows'',
       ab_agent_hostname = ''ws1''\<rparr> ''a'' heartbeat_default 0 (Some (ring_new 2)) []"

definition demo_crypto :: crypto where
  "demo_crypto = \<lparr>cy_b64url = demo_b64, cy_jcs = (\<lambda>v. Inr [7]), cy_sign = (\<lambda>m. m @ [42])\<rparr>"

definition demo_answer :: "send_result \<Rightarrow> answer" where
  "demo_answer r = \<lparr>an_now = 0, an_sent_at = ''t'', an_random = Inr [1, 2], an_result = Some r\<rparr>"

definition demo_captured :: loop where
  "demo_captured = capture_event 0 (demo_process ''x'') (loop_start demo_delivery)"

lemma demo_captured_fields:
  "lp_in_flight demo_captured = None" "lp_pc demo_captured = Top"
  "lp_batch_post_since_tick demo_captured = False" "lp_next_tick demo_captured = 0"
  "dl_start_time (lp_delivery demo_captured) = 0" "loop_interval demo_captured = secs 30"
  "dl_ring (lp_delivery demo_captured) =
     Some \<lparr>er_capacity = 2, er_events = [(0, demo_process ''x'')], er_dropped_total = 0\<rparr>"
  "dl_sequence (lp_delivery demo_captured) = 0" "dl_agent_id (lp_delivery demo_captured) = ''a''"
  "dl_paths (lp_delivery demo_captured) = []"
  by (simp_all add: demo_captured_def capture_event_def loop_start_def demo_delivery_def delivery_new_def
      loop_interval_def heartbeat_default_def ring_new_def enqueue_or_drop_def demo_process_def)

lemma demo_range: "tick_range demo_captured 0" "next_tick_at demo_captured \<le> 0"
  by (simp_all add: tick_range_def next_tick_at_def tick_at_def demo_captured_fields secs_def DURATION_MAX_def)

theorem tick_served_witness:
  "\<exists>l'. loop_top 0 demo_captured = Some l' \<and> next_tick_at l' = secs 30 \<and> lp_in_flight l' \<noteq> None"
  using tick_served [OF demo_range] by (auto simp: demo_captured_fields)

lemma demo_formed:
  obtains l p where "loop_top 0 demo_captured = Some l" "lp_in_flight l = Some p" "lp_pc l = Sending"
    "pd_batch p = \<lparr>bt_sequence = 1, bt_events = [rendering ''a'' [] (demo_process ''x'')]\<rparr>"
    "dl_heartbeat (lp_delivery l) = heartbeat_default"
proof -
  obtain l where top: "loop_top 0 demo_captured = Some l" and some: "lp_in_flight l \<noteq> None"
    unfolding loop_top_def clock_ticks_due [OF demo_range]
    by (auto simp: loop_simps Let_def demo_captured_fields)
  have b: "fst (form_batch (lp_delivery demo_captured))
      = \<lparr>bt_sequence = 1, bt_events = [rendering ''a'' [] (demo_process ''x'')]\<rparr>"
    by (rule batch.equality) (simp_all add: loop_simps demo_captured_fields drain_up_to_def MAX_BATCH_EVENTS_def)
  have h: "dl_heartbeat (lp_delivery demo_captured) = heartbeat_default"
    by (simp add: demo_captured_def loop_simps loop_start_def demo_delivery_def delivery_new_def)
  from top show ?thesis
    by (cases rule: loop_top_cases) (use some top b h that demo_captured_fields(1) in auto)
qed

definition demo_history :: history where
  "demo_history =
     \<lparr>hi_ops = [Put 0 (demo_process ''x''), Take MAX_BATCH_EVENTS],
      hi_formed = [\<lparr>bt_sequence = 1, bt_events = [rendering ''a'' [] (demo_process ''x'')]\<rparr>],
      hi_closed = [], hi_sent = []\<rparr>"

lemma demo_exec:
  obtains l p where "exec demo_crypto demo_delivery l demo_history" "lp_in_flight l = Some p"
    "lp_pc l = Sending" "pd_batch p = \<lparr>bt_sequence = 1, bt_events = [rendering ''a'' [] (demo_process ''x'')]\<rparr>"
    "dl_heartbeat (lp_delivery l) = heartbeat_default"
proof -
  obtain l p where lp: "loop_top 0 demo_captured = Some l" "lp_in_flight l = Some p" "lp_pc l = Sending"
    "pd_batch p = \<lparr>bt_sequence = 1, bt_events = [rendering ''a'' [] (demo_process ''x'')]\<rparr>"
    "dl_heartbeat (lp_delivery l) = heartbeat_default"
    by (rule demo_formed)
  have "step demo_crypto (loop_start demo_delivery) (Captured 0 (demo_process ''x'')) demo_captured"
    unfolding demo_captured_def by (rule step.captured)
  moreover have "step demo_crypto demo_captured (Clock 0) l"
    using lp(1) demo_captured_fields(2) by (simp add: step.top)
  ultimately have "exec demo_crypto demo_delivery l (observe demo_crypto demo_captured (Clock 0) l
      (observe demo_crypto (loop_start demo_delivery) (Captured 0 (demo_process ''x'')) demo_captured history_start))"
    by (intro exec.exec_step exec.exec_start)
  then have "exec demo_crypto demo_delivery l demo_history"
    using lp by (simp add: observe_def history_start_def demo_history_def demo_captured_fields)
  with lp that show ?thesis by blast
qed

theorem every_event_accounted_witness:
  "\<exists>l. exec demo_crypto demo_delivery l demo_history
    \<and> (\<exists>r. dl_ring (lp_delivery l) = Some r
        \<and> of_nat (length (events_in (in_flight_batches l))) + of_nat (ring_len r) + events_dropped_total r = (1 :: u64))"
proof -
  obtain l p where lp: "exec demo_crypto demo_delivery l demo_history"
    using demo_exec by blast
  moreover have "dl_ring demo_delivery = Some (ring_new 2)"
    by (simp add: demo_delivery_def delivery_new_def)
  ultimately show ?thesis
    using every_event_accounted [OF lp, of 2]
    by (auto simp: demo_history_def closed_with_def demo_process_def)
qed

theorem posts_in_order_witness:
  "\<exists>l. exec demo_crypto demo_delivery l demo_history
    \<and> map bt_sequence (hi_formed demo_history) = [1] \<and> hi_formed demo_history = in_flight_batches l"
proof -
  obtain l p where lp: "exec demo_crypto demo_delivery l demo_history"
    using demo_exec by blast
  have "map bt_sequence (hi_formed demo_history) = [1]" "hi_closed demo_history = []"
    by (simp_all add: demo_history_def)
  with lp posts_in_order [OF lp [unfolded demo_delivery_def]] show ?thesis
    by (intro exI [of _ l]) simp
qed

end
