(* ===== verification/Agent_Run.thy ===== *)
theory Agent_Run
  imports Capture_Session Logon_Thread Tls_Client Delivery_Props
begin

text \<open>
  A secure run of the agent (\<open>lib.rs\<close>): the platform capture opened behind the
  identity, the TLS client, the delivery loop until the shutdown, and the stop
  within its budget. The sessions of the host are threaded through; the loop
  is the one of \<open>Delivery\<close>, and the state in which it ended is the
  environment's.
\<close>

section \<open>The platform capture\<close>

datatype target_os = Windows | Linux | MacOs | OtherOs

definition detect_platform :: "target_os \<Rightarrow> string" where
  "detect_platform os = (case os of Windows \<Rightarrow> ''windows'' | Linux \<Rightarrow> ''linux'' | MacOs \<Rightarrow> ''macos'' | OtherOs \<Rightarrow> ''unknown'')"

definition RING_CAPACITY :: usize where
  "RING_CAPACITY = 65536"

datatype capture = Platform bool | Ring event_ring | Off

record platform_capture =
  pf_ring :: "event_ring option"
  pf_session :: "etw_session option"
  pf_logons :: "logon_thread option"
  pf_paths :: device_path_map

definition events_only :: "event_ring option \<Rightarrow> platform_capture" where
  "events_only ring = \<lparr>pf_ring = ring, pf_session = None, pf_logons = None, pf_paths = paths_empty\<rparr>"

record secure_env =
  rv_os :: target_os
  rv_version :: string
  rv_pid :: u32
  rv_capture :: capture_env
  rv_logon :: logon_env
  rv_session_stop :: stop_env
  rv_dos_device :: "string \<Rightarrow> string option"
  rv_read_anchor :: "string \<Rightarrow> (string, bytes) result"
  rv_tls :: tls_lib
  rv_start :: instant
  rv_loop :: "delivery \<Rightarrow> loop"
  rv_signal :: instant
  rv_logons_stopped :: instant
  rv_flushed :: "(instant \<times> ring_event) list"
  rv_crypto :: crypto
  rv_answer :: answer
  rv_finished :: instant

definition host_path_map :: "secure_env \<Rightarrow> device_path_map" where
  "host_path_map e = (if rv_os e = Windows then from_system (rv_dos_device e) else paths_empty)"

definition open_logons ::
    "secure_env \<Rightarrow> event_ring \<Rightarrow> etw_session \<Rightarrow> trace_sessions
     \<Rightarrow> (agent_error, etw_session \<times> logon_thread option) result \<times> trace_sessions" where
  "open_logons e ring session s =
     (case logon_open (ce_os_text (rv_capture e)) (rv_logon e) ring of
        Inr logons \<Rightarrow> (Inr (session, Some logons), s)
      | Inl err \<Rightarrow> (Inl (LogonErr err), snd (snd (session_stop (rv_session_stop e) (rv_start e) session s))))"

definition open_platform_capture ::
    "secure_env \<Rightarrow> bool \<Rightarrow> pid \<Rightarrow> trace_sessions \<Rightarrow> (agent_error, platform_capture) result \<times> trace_sessions" where
  "open_platform_capture e has_lock p s =
     (let mode = (if has_lock then Locked else Unlocked)
      in case open_excluding (rv_capture e) RING_CAPACITY (rv_pid e) mode p s of
           (Inr session, s1) \<Rightarrow>
             (case open_logons e (es_ring session) session s1 of
                (Inl err, s2) \<Rightarrow> (Inl err, s2)
              | (Inr (session', logons), s2) \<Rightarrow>
                  (Inr \<lparr>pf_ring = Some (es_ring session), pf_session = Some session', pf_logons = logons, pf_paths = host_path_map e\<rparr>, s2))
         | (Inl Unsupported, s1) \<Rightarrow> (Inr (events_only None), s1)
         | (Inl err, s1) \<Rightarrow> (Inl (EtwErr (etw_error_from err)), s1))"

definition open_capture ::
    "secure_env \<Rightarrow> capture \<Rightarrow> pid \<Rightarrow> trace_sessions \<Rightarrow> (agent_error, platform_capture) result \<times> trace_sessions" where
  "open_capture e c p s =
     (case c of
        Platform has_lock \<Rightarrow> open_platform_capture e has_lock p s
      | Ring ring \<Rightarrow> (Inr (events_only (Some ring)), s)
      | Off \<Rightarrow> (Inr (events_only None), s))"

text \<open>The sources dropped, and so stopped, when the run returns early.\<close>

definition drop_capture :: "secure_env \<Rightarrow> platform_capture \<Rightarrow> trace_sessions \<Rightarrow> trace_sessions" where
  "drop_capture e pf s =
     (case pf_session pf of None \<Rightarrow> s | Some session \<Rightarrow> snd (snd (session_stop (rv_session_stop e) (rv_start e) session s)))"

section \<open>The sender and the delivery\<close>

definition secure_client :: "secure_env \<Rightarrow> agent_config \<Rightarrow> agent_id_value \<Rightarrow> (agent_error, secure_sender) result" where
  "secure_client e config identity =
     map_err TlsErr
       (and_then (ok_or (ClientConfig ''secure path requires server.trust_anchor_path'') (sc_trust_anchor_path (ac_server config))) (\<lambda>path.
        and_then (map_err (\<lambda>err. ClientConfig (''read trust anchor '' @ path @ '': '' @ err)) (rv_read_anchor e path)) (\<lambda>pem.
        and_then (build_client_config (rv_tls e) pem identity) (\<lambda>client.
          sender_new (rv_tls e) client (heartbeat_target (ac_server config))
            (secs (unat (hb_request_timeout_seconds (ac_heartbeat config))))))))"

definition run_delivery :: "secure_env \<Rightarrow> agent_config \<Rightarrow> agent_id_value \<Rightarrow> platform_capture \<Rightarrow> delivery" where
  "run_delivery e config identity pf =
     delivery_new
       \<lparr>ab_agent_id = id_agent_id identity, ab_agent_version = rv_version e, ab_agent_platform = detect_platform (rv_os e),
        ab_agent_hostname = ai_hostname (ac_agent config)\<rparr>
       (id_agent_id identity) (ac_heartbeat config) (rv_start e) (pf_ring pf) (pf_paths pf)"

section \<open>The stop\<close>

definition PENDING_TEARDOWN :: string where
  "PENDING_TEARDOWN = ''the capture teardown and the final going_offline request''"

definition PENDING_FINAL_REQUEST :: string where
  "PENDING_FINAL_REQUEST = ''the final going_offline request''"

datatype stop_outcome = Completed usize | DeadlineExpired string usize

text \<open>
  The blocking task that stops the logon thread and then the session, and when
  it ends. Cut short by the deadline, it goes on detached: the session is off
  the host when its stop had begun.
\<close>

definition teardown :: "secure_env \<Rightarrow> platform_capture \<Rightarrow> trace_sessions \<Rightarrow> instant \<times> trace_sessions" where
  "teardown e pf s =
     (case pf_session pf of
        None \<Rightarrow> (rv_logons_stopped e, s)
      | Some session \<Rightarrow> (case session_stop (rv_session_stop e) (rv_logons_stopped e) session s of (ended, _, s') \<Rightarrow> (ended, s')))"

definition stop_deadline :: "secure_env \<Rightarrow> duration option \<Rightarrow> instant option" where
  "stop_deadline e stop_budget = map_option (\<lambda>budget. rv_signal e + budget) stop_budget"

text \<open>The events that the sources flush into the ring while they stop, up to an instant.\<close>

definition flushed :: "secure_env \<Rightarrow> instant option \<Rightarrow> loop \<Rightarrow> loop" where
  "flushed e limit l =
     fold (\<lambda>(now, ev). capture_event now ev)
       (filter (\<lambda>(now, ev). case limit of None \<Rightarrow> True | Some t \<Rightarrow> now \<le> t) (rv_flushed e)) l"

definition stop_secure ::
    "secure_env \<Rightarrow> duration option \<Rightarrow> platform_capture \<Rightarrow> loop \<Rightarrow> trace_sessions \<Rightarrow> stop_outcome \<times> instant \<times> trace_sessions" where
  "stop_secure e stop_budget pf l s =
     (let deadline = stop_deadline e stop_budget;
          (ended, s') = teardown e pf s
      in if deadline \<noteq> None \<and> the deadline < ended
         then let l' = flushed e deadline l
              in (DeadlineExpired PENDING_TEARDOWN (undelivered (lp_in_flight l') (lp_delivery l')), the deadline,
                  if rv_logons_stopped e < the deadline then s' else s)
         else let l' = flushed e None l;
                  f = fst (finish (rv_crypto e) (rv_answer e) (lp_in_flight l') deadline (rv_finished e) (lp_delivery l'))
              in (if fi_expired f then DeadlineExpired PENDING_FINAL_REQUEST (fi_undelivered f) else Completed (fi_undelivered f),
                  rv_finished e, s'))"

section \<open>The run\<close>

text \<open>
  The result of a run with the sessions it leaves and, once a stop was asked
  for, the instant at which it returns; none while its loop goes on.
\<close>

definition run_secure_within ::
    "secure_env \<Rightarrow> agent_config \<Rightarrow> agent_id_value \<Rightarrow> capture \<Rightarrow> duration option \<Rightarrow> pid \<Rightarrow> trace_sessions
     \<Rightarrow> ((agent_error, stop_outcome \<times> instant) result \<times> trace_sessions) option" where
  "run_secure_within e config identity c stop_budget p s =
     (case open_capture e c p s of
        (Inl err, s1) \<Rightarrow> Some (Inl err, s1)
      | (Inr pf, s1) \<Rightarrow>
          (case secure_client e config identity of
             Inl err \<Rightarrow> Some (Inl err, drop_capture e pf s1)
           | Inr sender \<Rightarrow>
               let l = rv_loop e (run_delivery e config identity pf)
               in case lp_pc l of
                    Failed err \<Rightarrow> Some (Inl err, drop_capture e pf s1)
                  | Stopped \<Rightarrow>
                      (case stop_secure e stop_budget pf l s1 of (outcome, returned, s2) \<Rightarrow> Some (Inr (outcome, returned), s2))
                  | _ \<Rightarrow> None))"

definition run_secure ::
    "secure_env \<Rightarrow> agent_config \<Rightarrow> agent_id_value \<Rightarrow> capture \<Rightarrow> pid \<Rightarrow> trace_sessions
     \<Rightarrow> ((agent_error, unit) result \<times> trace_sessions) option" where
  "run_secure e config identity c p s =
     map_option (\<lambda>(res, s'). (map_sum id (\<lambda>_. ()) res, s')) (run_secure_within e config identity c None p s)"

section \<open>What a run leaves\<close>

lemma open_excluding_start: "open_excluding e cap ex mode = session_start e cap (Some ex) mode"
  by (simp add: open_excluding_def fun_eq_iff)

text \<open>A capture that opened has its session, on the host under the process's name.\<close>

lemma open_platform_capture_cases:
  assumes "open_platform_capture e has_lock p s = (r, s')"
  obtains (no_session) err where "open_excluding (rv_capture e) RING_CAPACITY (rv_pid e) (if has_lock then Locked else Unlocked) p s = (Inl err, s')"
      "\<And>pf. r = Inr pf \<Longrightarrow> pf_session pf = None"
    | (no_logons) session s1 err where
      "open_excluding (rv_capture e) RING_CAPACITY (rv_pid e) (if has_lock then Locked else Unlocked) p s = (Inr session, s1)"
      "r = Inl (LogonErr err)" "s' = snd (snd (session_stop (rv_session_stop e) (rv_start e) session s1))"
    | (captures) session pf where
      "open_excluding (rv_capture e) RING_CAPACITY (rv_pid e) (if has_lock then Locked else Unlocked) p s = (Inr session, s')"
      "r = Inr pf" "pf_session pf = Some session" "pf_ring pf = Some (es_ring session)" "pf_logons pf \<noteq> None"
proof -
  obtain opened s1 where opened:
    "open_excluding (rv_capture e) RING_CAPACITY (rv_pid e) (if has_lock then Locked else Unlocked) p s = (opened, s1)"
    by fastforce
  show thesis
  proof (cases opened)
    case (Inl err)
    with opened assms have "s1 = s'" "\<And>pf. r = Inr pf \<Longrightarrow> pf_session pf = None"
      by (cases err; auto simp: open_platform_capture_def Let_def events_only_def)+
    with opened Inl no_session show thesis
      by blast
  next
    case (Inr session)
    show thesis
    proof (cases "logon_open (ce_os_text (rv_capture e)) (rv_logon e) (es_ring session)")
      case (Inl err)
      with opened Inr assms no_logons show thesis
        by (auto simp: open_platform_capture_def Let_def open_logons_def)
    next
      case logons: (Inr logons)
      with opened Inr assms captures show thesis
        by (auto simp: open_platform_capture_def Let_def open_logons_def)
    qed
  qed
qed

lemma teardown_sessions:
  "snd (teardown e pf s) = (case pf_session pf of None \<Rightarrow> s
     | Some session \<Rightarrow> snd (snd (session_stop (rv_session_stop e) (rv_logons_stopped e) session s)))"
  by (auto simp: teardown_def split: option.split prod.split)

text \<open>However a run ends that has its sources, their session is gone.\<close>

lemma run_ends_session:
  assumes "open_capture e c p s = (Inr pf, s1)" "run_secure_within e config identity c stop_budget p s = Some (r, s')"
    and "\<And>n t. r \<noteq> Inr (DeadlineExpired PENDING_TEARDOWN n, t)" "sp_refused (rv_session_stop e) = None"
    and "case pf_session pf of None \<Rightarrow> s1 SESSION_NAME = None | Some session \<Rightarrow> es_pump session"
  shows "s' SESSION_NAME = None"
proof -
  have dropped: "drop_capture e pf s1 SESSION_NAME = None" "snd (teardown e pf s1) SESSION_NAME = None"
    using assms(4,5) session_stop_sessions by (auto simp: drop_capture_def teardown_sessions split: option.splits)
  have torn_down: "s2 SESSION_NAME = None" if "stop_secure e stop_budget pf l s1 = (outcome, returned, s2)"
    "\<And>n. outcome \<noteq> DeadlineExpired PENDING_TEARDOWN n" for l outcome returned s2
    using that dropped(2) by (auto simp: stop_secure_def Let_def split_beta split: if_splits)
  consider "s' = drop_capture e pf s1"
    | l outcome returned where "stop_secure e stop_budget pf l s1 = (outcome, returned, s')" "r = Inr (outcome, returned)"
    using assms(1,2) by (auto simp: run_secure_within_def Let_def split: sum.splits pc.splits prod.splits)
  then show ?thesis
  proof cases
    case (2 l outcome returned)
    with torn_down [OF 2(1)] assms(3) show ?thesis
      by blast
  qed (simp add: dropped(1))
qed

text \<open>
  Claim C16. A run with the instance lock leaves no capture session behind,
  however it ends: when the capture or the logon subscription does not open,
  when the client cannot be built, when the loop fails, and after a stop, as
  long as Windows does not refuse the stops and the stop's deadline did not cut
  the teardown short.
\<close>

theorem run_leaves_no_session:
  assumes "trace_start_ok (rv_capture e)" "ce_reclaim_refused (rv_capture e) = None" "ce_stop_refused (rv_capture e) = None"
    and "sp_refused (rv_session_stop e) = None"
    and "run_secure_within e config identity (Platform True) stop_budget p s = Some (r, s')"
    and "\<And>n t. r \<noteq> Inr (DeadlineExpired PENDING_TEARDOWN n, t)"
  shows "s' SESSION_NAME = None"
proof -
  obtain opened s1 where opened: "open_platform_capture e True p s = (opened, s1)"
    by fastforce
  have none: "s1 SESSION_NAME = None" if "open_excluding (rv_capture e) RING_CAPACITY (rv_pid e) Locked p s = (Inl err, s1)" for err
    using that failed_start_none [OF assms(1-3)] by (simp add: open_excluding_start)
  note ends = run_ends_session [where c = "Platform True", OF _ assms(5,6,4)]
  from opened show ?thesis
  proof (cases rule: open_platform_capture_cases)
    case (no_session err)
    then show ?thesis
    proof (cases opened)
      case (Inl err')
      then show ?thesis
        using opened assms(5) no_session none by (simp add: run_secure_within_def open_capture_def)
    next
      case (Inr pf)
      then show ?thesis
        using opened no_session none by (intro ends [of pf s1]) (simp_all add: open_capture_def)
    qed
  next
    case (no_logons session s2 err)
    then show ?thesis
      using opened assms(4,5) session_start_pump session_stop_sessions
      by (auto simp: run_secure_within_def open_capture_def open_excluding_start)
  next
    case (captures session pf)
    then show ?thesis
      using opened session_start_pump by (intro ends [of pf s1]) (auto simp: open_capture_def open_excluding_start)
  qed
qed

section \<open>The budget of a stop\<close>

lemma flushed_heartbeat: "dl_heartbeat (lp_delivery (flushed e limit l)) = dl_heartbeat (lp_delivery l)"
proof -
  have "dl_heartbeat (lp_delivery (fold (\<lambda>(now, ev). capture_event now ev) evs l)) = dl_heartbeat (lp_delivery l)" for evs
    by (induction evs arbitrary: l) (auto simp: capture_event_def)
  then show ?thesis
    by (simp add: flushed_def)
qed

lemma final_timeout_deadline: "now \<le> t \<Longrightarrow> now + final_timeout (Some t) now d \<le> t"
  by (simp add: final_timeout_def Let_def)


section \<open>A host\<close>

definition willing_logons :: logon_env where
  "willing_logons = \<lparr>lo_context = Inr (), lo_signal = Inr (), lo_subscribe = Inr (), lo_stop = Inr (), lo_spawn = Inr ()\<rparr>"

definition quick_stop :: stop_env where
  "quick_stop = \<lparr>sp_refused = None, sp_finished = (\<lambda>_. True), sp_wake = id\<rparr>"

text \<open>A host whose capture opens, whose trust anchor cannot be read, and whose final request is not answered.\<close>

definition plain_host :: secure_env where
  "plain_host = \<lparr>rv_os = Windows, rv_version = ''0.1.0'', rv_pid = 7, rv_capture = plain_env plain_start, rv_logon = willing_logons,
     rv_session_stop = quick_stop, rv_dos_device = (\<lambda>_. None), rv_read_anchor = (\<lambda>_. Inl ''denied''), rv_tls = sample_tls, rv_start = 0,
     rv_loop = (\<lambda>d. (loop_start d)\<lparr>lp_pc := Stopped\<rparr>), rv_signal = secs 1, rv_logons_stopped = secs 2, rv_flushed = [],
     rv_crypto = demo_crypto, rv_answer = (demo_answer (SendStatus 200))\<lparr>an_now := secs 2, an_result := None\<rparr>, rv_finished = secs 12\<rparr>"

definition plain_identity :: agent_id_value where
  "plain_identity = \<lparr>id_agent_id = ''a'', id_keypair = \<lparr>kp_secret = [1, 2], kp_public = [2, 1]\<rparr>, id_certificate_pem = ''pem''\<rparr>"

lemma plain_host_simps [simp]:
  "rv_capture plain_host = plain_env plain_start" "rv_session_stop plain_host = quick_stop" "rv_logon plain_host = willing_logons"
  "rv_read_anchor plain_host path = Inl ''denied''" "rv_signal plain_host = secs 1" "rv_logons_stopped plain_host = secs 2"
  "an_now (rv_answer plain_host) = secs 2" "rv_finished plain_host = secs 12" "sp_refused quick_stop = None"
  by (simp_all add: plain_host_def quick_stop_def)

lemma plain_capture:
  "\<exists>pf. open_capture plain_host (Platform True) 1 Map.empty = (Inr pf, [SESSION_NAME \<mapsto> 1])"
  by (simp add: open_capture_def open_platform_capture_def open_excluding_def session_start_def open_logons_def logon_open_def willing_logons_def
      reclaim_zombie_def stop_session_def control_trace_stop_def plain_start_def Let_def)

lemma plain_run:
  "\<exists>s'. run_secure_within plain_host (demo_config 3 (F64_Fin 2)) plain_identity (Platform True) None 1 Map.empty
     = Some (Inl (TlsErr (ClientConfig (''read trust anchor ca.pem: denied''))), s')"
proof -
  obtain pf where "open_capture plain_host (Platform True) 1 Map.empty = (Inr pf, [SESSION_NAME \<mapsto> 1])"
    using plain_capture by blast
  then show ?thesis
    by (simp add: run_secure_within_def secure_client_def demo_config_def)
qed

theorem run_leaves_no_session_witness:
  "\<exists>pf s'. open_capture plain_host (Platform True) 1 Map.empty = (Inr pf, [SESSION_NAME \<mapsto> 1])
     \<and> run_secure_within plain_host (demo_config 3 (F64_Fin 2)) plain_identity (Platform True) None 1 Map.empty
         = Some (Inl (TlsErr (ClientConfig (''read trust anchor ca.pem: denied''))), s')
     \<and> s' SESSION_NAME = None"
proof -
  obtain s' where run: "run_secure_within plain_host (demo_config 3 (F64_Fin 2)) plain_identity (Platform True) None 1 Map.empty
      = Some (Inl (TlsErr (ClientConfig (''read trust anchor ca.pem: denied''))), s')"
    using plain_run by blast
  have "s' SESSION_NAME = None"
    by (rule run_leaves_no_session [OF _ _ _ _ run]) (simp_all add: plain_env_ok)
  with run plain_capture show ?thesis
    by blast
qed


end
