(* ===== verification/Capture_Host.thy ===== *)
theory Capture_Host
  imports Agent_Run
begin

text \<open>
  Agents side by side on one host: the calls that take and drop the instance
  lock, the capture opened in the mode that the lock's outcome gives, its stop,
  and processes that end at any moment, in any order.
\<close>

section \<open>Processes with their lock and their capture\<close>

record capture_host =
  ch_host :: host
  ch_sessions :: trace_sessions
  ch_captures :: "pid \<Rightarrow> etw_session option"

text \<open>
  A token that is neither an administrator's nor SYSTEM's, and does not control
  trace sessions, cannot enable the providers: its start is never reported to
  have succeeded.
\<close>

definition ordinary_token :: "secure_env \<Rightarrow> bool" where
  "ordinary_token e \<longleftrightarrow> (\<forall>p s. fst (ce_trace_start (rv_capture e) p s) \<noteq> Reported (Inr ()))"

definition opened_session :: "(agent_error, platform_capture) result \<Rightarrow> etw_session option" where
  "opened_session r = (case r of Inr pf \<Rightarrow> pf_session pf | Inl _ \<Rightarrow> None)"

definition capture_opens :: "secure_env \<Rightarrow> bool \<Rightarrow> pid \<Rightarrow> capture_host \<Rightarrow> capture_host" where
  "capture_opens e has_lock p c =
     (case open_platform_capture e has_lock p (ch_sessions c) of
        (r, s) \<Rightarrow> c\<lparr>ch_sessions := s, ch_captures := (ch_captures c)(p := opened_session r)\<rparr>)"

definition capture_stops :: "stop_env \<Rightarrow> instant \<Rightarrow> pid \<Rightarrow> etw_session \<Rightarrow> capture_host \<Rightarrow> capture_host" where
  "capture_stops e now p es c =
     c\<lparr>ch_sessions := snd (snd (session_stop e now es (ch_sessions c))), ch_captures := (ch_captures c)(p := None)\<rparr>"

inductive capture_moves :: "capture_host \<Rightarrow> capture_host \<Rightarrow> bool" where
  starts: "ho_phase (ch_host c) p = Outside \<or> (\<exists>outcome. ho_phase (ch_host c) p = Decided outcome \<and> outcome \<noteq> Acquired) \<Longrightarrow>
    capture_moves c (c\<lparr>ch_host := goto p AtToken (ch_host c)\<rparr>)"
| calls: "capture_moves c (c\<lparr>ch_host := lock_step le p (ch_host c)\<rparr>)"
| opens_locked: "ho_phase (ch_host c) p = Decided Acquired \<Longrightarrow> ch_captures c p = None \<Longrightarrow> trace_start_ok (rv_capture e) \<Longrightarrow>
    capture_moves c (capture_opens e True p c)"
| opens_unlocked: "ho_phase (ch_host c) p = Decided Unprivileged \<Longrightarrow> trace_start_ok (rv_capture e) \<Longrightarrow> ordinary_token e \<Longrightarrow>
    capture_moves c (capture_opens e False p c)"
| stops: "ch_captures c p = Some es \<Longrightarrow> capture_moves c (capture_stops se now p es c)"
| drops: "ch_captures c p = None \<Longrightarrow> capture_moves c (c\<lparr>ch_host := drop_step p (ch_host c)\<rparr>)"
| ends: "capture_moves c (c\<lparr>ch_host := process_ends p (ch_host c), ch_captures := (ch_captures c)(p := None)\<rparr>)"

definition no_captures :: "trace_sessions \<Rightarrow> capture_host" where
  "no_captures s = \<lparr>ch_host = quiet_host, ch_sessions = s, ch_captures = (\<lambda>_. None)\<rparr>"

section \<open>A capture is its holder's alone\<close>

definition capture_inv :: "capture_host \<Rightarrow> bool" where
  "capture_inv c \<longleftrightarrow> lock_inv (ch_host c)
     \<and> (\<forall>p es. ch_captures c p = Some es \<longrightarrow> holds_lock (ch_host c) p \<and> ch_sessions c SESSION_NAME = Some p)"

lemma capture_inv_D:
  assumes "capture_inv c"
  shows "lock_inv (ch_host c)" "ch_captures c p = Some es \<Longrightarrow> holds_lock (ch_host c) p"
    "ch_captures c p = Some es \<Longrightarrow> ch_sessions c SESSION_NAME = Some p"
  using assms by (auto simp: capture_inv_def)

text \<open>Where one process holds the lock, no other captures.\<close>

lemma capture_inv_alone:
  assumes "capture_inv c" "holds_lock (ch_host c) p" "q \<noteq> p"
  shows "ch_captures c q = None"
proof (cases "ch_captures c q")
  case (Some es)
  then have "holds_lock (ch_host c) q"
    by (rule capture_inv_D(2) [OF assms(1)])
  with lock_inv_D(5) [OF capture_inv_D(1) [OF assms(1)] assms(2)] assms(3) show ?thesis
    by blast
qed

lemma capture_inv_host:
  assumes "capture_inv c" "lock_moves (ch_host c) h" "\<And>q. ch_captures c q \<noteq> None \<Longrightarrow> holds_lock h q"
  shows "capture_inv (c\<lparr>ch_host := h\<rparr>)"
  using assms lock_inv_moves [OF assms(2)] by (auto simp: capture_inv_def)

lemma opened_session_owned:
  assumes "trace_start_ok (rv_capture e)" "open_platform_capture e has_lock p s = (r, s')" "opened_session r = Some es"
  shows "s' SESSION_NAME = Some p"
    "fst (ce_trace_start (rv_capture e) p (after_reclaim (rv_capture e) (if has_lock then Locked else Unlocked) s)) = Reported (Inr ())"
proof -
  obtain session where start: "session_start (rv_capture e) RING_CAPACITY (Some (rv_pid e)) (if has_lock then Locked else Unlocked) p s = (Inr session, s')"
    using assms(2)
  proof (cases rule: open_platform_capture_cases)
    case (no_session err)
    with assms(3) show ?thesis
      by (cases r) (auto simp: opened_session_def)
  next
    case (no_logons session s1 err)
    with assms(3) show ?thesis
      by (simp add: opened_session_def)
  next
    case (captures session pf)
    with that show ?thesis
      by (simp add: open_excluding_start)
  qed
  show "s' SESSION_NAME = Some p"
    "fst (ce_trace_start (rv_capture e) p (after_reclaim (rv_capture e) (if has_lock then Locked else Unlocked) s)) = Reported (Inr ())"
    by (rule session_start_owned [OF assms(1) start])+
qed

lemma unlocked_capture_spares:
  assumes "trace_start_ok (rv_capture e)" "s SESSION_NAME = Some q" "open_platform_capture e False p s = (r, s')"
  shows "s' = s"
proof -
  obtain opened s1 where start: "open_excluding (rv_capture e) RING_CAPACITY (rv_pid e) Unlocked p s = (opened, s1)"
    by fastforce
  then have "session_start (rv_capture e) RING_CAPACITY (Some (rv_pid e)) Unlocked p s = (opened, s1)"
    by (simp add: open_excluding_start)
  from unlocked_start [where s = s, OF assms(1,2) this] have "s1 = s" "\<exists>err. opened = Inl err"
    by blast+
  with start assms(3) show ?thesis
    by (auto simp: open_platform_capture_def Let_def split: open_error.splits)
qed

lemma capture_inv_moves:
  assumes "capture_moves c c'" "capture_inv c"
  shows "capture_inv c'"
  using assms
proof (induction rule: capture_moves.induct)
  case (starts c p)
  then have "lock_moves (ch_host c) (goto p AtToken (ch_host c))"
    by (auto intro: lock_moves.starts)
  with starts show ?case
    by (intro capture_inv_host) (auto simp: holds_lock_def dest: capture_inv_D(2))
next
  case (calls c le p)
  have "holds_lock (lock_step le p (ch_host c)) q" if "holds_lock (ch_host c) q" for q
    using that lock_step_other [of q p le "ch_host c"] lock_step_decided [of "ch_host c" p Acquired le]
    by (cases "q = p") (auto simp: holds_lock_def)
  with calls show ?case
    by (intro capture_inv_host lock_moves.calls) (auto dest: capture_inv_D(2))
next
  case (opens_locked c p e)
  obtain r s where r: "open_platform_capture e True p (ch_sessions c) = (r, s)"
    by fastforce
  have "ch_captures c q = None" for q
    using capture_inv_alone [OF opens_locked(4), of p q] opens_locked(1,2) by (cases "q = p") (auto simp: holds_lock_def)
  with opened_session_owned(1) [OF opens_locked(3) r] opens_locked(1) capture_inv_D(1) [OF opens_locked(4)] show ?case
    by (auto simp: capture_inv_def capture_opens_def r holds_lock_def split: if_splits)
next
  case (opens_unlocked c p e)
  obtain r s where r: "open_platform_capture e False p (ch_sessions c) = (r, s)"
    by fastforce
  have none: "opened_session r = None"
    using opened_session_owned(2) [OF opens_unlocked(2) r] opens_unlocked(3) by (cases "opened_session r") (auto simp: ordinary_token_def)
  have "s = ch_sessions c" if "ch_captures c q = Some es" for q es
    using unlocked_capture_spares [where s = "ch_sessions c", OF opens_unlocked(2) _ r] capture_inv_D(3) [OF opens_unlocked(4) that] by blast
  with opens_unlocked(4) none show ?case
    by (auto simp: capture_inv_def capture_opens_def r)
next
  case (stops c p es se now)
  then have "ch_captures c q = None" if "q \<noteq> p" for q
    using capture_inv_alone [OF stops(2) capture_inv_D(2) [OF stops(2,1)] that] by simp
  with stops(2) show ?case
    by (auto simp: capture_inv_def capture_stops_def split: if_splits)
next
  case (drops c p)
  have "holds_lock (drop_step p (ch_host c)) q" if "holds_lock (ch_host c) q" "q \<noteq> p" for q
    using that by (auto simp: holds_lock_def drop_step_def split: lock_phase.split lock_outcome.split)
  moreover have "q \<noteq> p" if "ch_captures c q \<noteq> None" for q
    using that drops(1) by auto
  ultimately show ?case
    using drops(2) by (intro capture_inv_host lock_moves.drops) (auto dest: capture_inv_D(2))
next
  case (ends c p)
  have "lock_inv (process_ends p (ch_host c))"
    by (rule lock_inv_moves [OF lock_moves.ends capture_inv_D(1) [OF ends]])
  with ends show ?case
    by (auto simp: capture_inv_def holds_lock_def process_ends_def goto_def split: if_splits)
qed

lemma reached_capture_inv:
  assumes "capture_moves\<^sup>*\<^sup>* (no_captures s) c"
  shows "capture_inv c"
  using assms
proof (induction rule: rtranclp_induct)
  case base
  show ?case
    by (simp add: capture_inv_def no_captures_def reached_inv)
qed (rule capture_inv_moves)


section \<open>After a crash\<close>

lemma locked_capture_opens:
  assumes "trace_start_ok (rv_capture e)" "ce_reclaim_refused (rv_capture e) = None" "ce_spawn (rv_capture e) = Inr ()"
    and "\<And>s. s SESSION_NAME = None \<Longrightarrow> fst (ce_trace_start (rv_capture e) p s) = Reported (Inr ())" "rv_logon e = willing_logons"
  obtains pf es s' where "open_platform_capture e True p s = (Inr pf, s')" "s' SESSION_NAME = Some p" "pf_session pf = Some es" "es_pump es"
proof -
  obtain r s' where start: "session_start (rv_capture e) RING_CAPACITY (Some (rv_pid e)) Locked p s = (r, s')"
    by fastforce
  have "after_reclaim (rv_capture e) Locked s SESSION_NAME = None"
    by (rule after_reclaim_simps(2) [OF assms(2)])
  then have "fst (ce_trace_start (rv_capture e) p (after_reclaim (rv_capture e) Locked s)) = Reported (Inr ())"
    by (rule assms(4))
  with start assms(3) obtain es where es: "r = Inr es"
    by (cases rule: session_start_cases) auto
  have "open_platform_capture e True p s = (Inr \<lparr>pf_ring = Some (es_ring es), pf_session = Some es, pf_logons = Some (logon_thread_new (es_ring es)), pf_paths = host_path_map e\<rparr>, s')"
    using start assms(5)
    by (simp add: es open_platform_capture_def Let_def open_excluding_start open_logons_def logon_open_def willing_logons_def)
  with that session_start_owned(1) [OF assms(1)] session_start_pump start es show thesis
    by simp
qed

text \<open>
  Claim C15. A crash does not keep the next agent from capturing. However the
  agent that holds the lock ends, its trace session staying behind on the host,
  the next elevated agent whose calls succeed acquires the lock, reclaims the
  session and captures, under its own name.
\<close>

theorem crash_recovers:
  assumes "capture_moves\<^sup>*\<^sup>* (no_captures s) c" "\<And>r. has_mutex (ho_phase (ch_host c) r) \<Longrightarrow> r = q" "may_create le"
    and "trace_start_ok (rv_capture e)" "ce_reclaim_refused (rv_capture e) = None" "ce_spawn (rv_capture e) = Inr ()"
    and "\<And>s. s SESSION_NAME = None \<Longrightarrow> fst (ce_trace_start (rv_capture e) p s) = Reported (Inr ())" "rv_logon e = willing_logons"
    and "c' = c\<lparr>ch_host := acquire le p (process_ends q (ch_host c)), ch_captures := (ch_captures c)(q := None)\<rparr>"
  shows "holds_lock (ch_host c') p
    \<and> ch_captures (capture_opens e True p c') p \<noteq> None \<and> ch_sessions (capture_opens e True p c') SESSION_NAME = Some p"
proof -
  have "set (ho_mutexes (process_ends q (ch_host c))) = {}"
    using lock_inv_D(3) [OF capture_inv_D(1) [OF reached_capture_inv [OF assms(1)]]] assms(2) by (auto simp: process_ends_def goto_def)
  then have lock: "holds_lock (ch_host c') p"
    using acquire_free [OF assms(3)] by (simp add: assms(9) holds_lock_def)
  obtain pf es s' where "open_platform_capture e True p (ch_sessions c') = (Inr pf, s')" "s' SESSION_NAME = Some p" "pf_session pf = Some es"
    using locked_capture_opens [OF assms(4-8)] by blast
  with lock show ?thesis
    by (simp add: capture_opens_def opened_session_def)
qed

section \<open>Two agents\<close>

lemma lock_calls: "capture_moves\<^sup>*\<^sup>* c (c\<lparr>ch_host := (lock_step le p ^^ n) (ch_host c)\<rparr>)"
proof (induction n)
  case (Suc n)
  have "capture_moves (c\<lparr>ch_host := (lock_step le p ^^ n) (ch_host c)\<rparr>) (c\<lparr>ch_host := lock_step le p ((lock_step le p ^^ n) (ch_host c))\<rparr>)"
    using capture_moves.calls [of "c\<lparr>ch_host := (lock_step le p ^^ n) (ch_host c)\<rparr>" le p] by simp
  with Suc show ?case
    by simp
qed simp

lemma acquire_capture_moves:
  assumes "ho_phase (ch_host c) p = Outside"
  shows "capture_moves\<^sup>*\<^sup>* c (c\<lparr>ch_host := acquire le p (ch_host c)\<rparr>)"
proof -
  have "capture_moves c (c\<lparr>ch_host := goto p AtToken (ch_host c)\<rparr>)"
    using assms by (intro capture_moves.starts) simp
  moreover have "capture_moves\<^sup>*\<^sup>* (c\<lparr>ch_host := goto p AtToken (ch_host c)\<rparr>) (c\<lparr>ch_host := acquire le p (ch_host c)\<rparr>)"
    using lock_calls [where c = "c\<lparr>ch_host := goto p AtToken (ch_host c)\<rparr>" and le = le and p = p and n = 11] by (simp add: acquire_def)
  ultimately show ?thesis
    by (rule converse_rtranclp_into_rtranclp)
qed

definition one_locked :: capture_host where
  "one_locked = (no_captures Map.empty)\<lparr>ch_host := one_holds\<rparr>"

definition one_captures :: capture_host where
  "one_captures = capture_opens plain_host True 1 one_locked"

lemma plain_start_succeeds: "s SESSION_NAME = None \<Longrightarrow> fst (ce_trace_start (rv_capture plain_host) p s) = Reported (Inr ())"
  by (simp add: plain_start_def)

lemma one_captures_moves: "capture_moves\<^sup>*\<^sup>* (no_captures Map.empty) one_captures"
proof -
  have "capture_moves\<^sup>*\<^sup>* (no_captures Map.empty) one_locked"
    using acquire_capture_moves [where c = "no_captures Map.empty" and p = 1 and le = willing] by (simp add: one_locked_def no_captures_def quiet_host_def)
  moreover have "capture_moves one_locked one_captures"
    unfolding one_captures_def
    by (rule capture_moves.opens_locked) (use one_holds(2) in \<open>simp_all add: one_locked_def no_captures_def holds_lock_def plain_env_ok\<close>)
  ultimately show ?thesis
    by (rule rtranclp.rtrancl_into_rtrancl)
qed

lemma one_captures_session: "\<exists>es. ch_captures one_captures 1 = Some es \<and> es_pump es"
proof -
  obtain pf es s' where "open_platform_capture plain_host True 1 (ch_sessions one_locked) = (Inr pf, s')" "pf_session pf = Some es" "es_pump es"
    by (rule locked_capture_opens [where e = plain_host and p = 1 and s = "ch_sessions one_locked"]) (simp_all add: plain_env_ok plain_start_def)
  then show ?thesis
    by (simp add: one_captures_def capture_opens_def opened_session_def)
qed

lemma one_captures_host: "ch_host one_captures = one_holds"
  by (simp add: one_captures_def one_locked_def capture_opens_def split_beta)


theorem crash_recovers_witness:
  "ch_captures one_captures 1 \<noteq> None
   \<and> ch_sessions (capture_opens plain_host True 2
       (one_captures\<lparr>ch_host := acquire willing 2 (process_ends 1 (ch_host one_captures)), ch_captures := (ch_captures one_captures)(1 := None)\<rparr>))
         SESSION_NAME = Some 2"
proof -
  have "r = 1" if "has_mutex (ho_phase (ch_host one_captures) r)" for r
    using that others_outside [of r] by (fastforce simp: one_captures_host)
  then have "ch_sessions (capture_opens plain_host True 2
       (one_captures\<lparr>ch_host := acquire willing 2 (process_ends 1 (ch_host one_captures)), ch_captures := (ch_captures one_captures)(1 := None)\<rparr>))
         SESSION_NAME = Some 2"
    by (intro crash_recovers [OF one_captures_moves _ willing_may_create, where q = 1 and e = plain_host and p = 2, THEN conjunct2, THEN conjunct2])
      (simp_all add: plain_env_ok plain_start_def)
  with one_captures_session show ?thesis
    by auto
qed

section \<open>A teardown that the deadline cut short\<close>

text \<open>
  When the stop deadline expires during the teardown the run returns, and its
  lock is dropped, while the teardown goes on detached with the session still
  to be stopped by name. The next agent that captures in between loses its
  session to that stop.
\<close>

inductive detached_moves :: "capture_host \<Rightarrow> capture_host \<Rightarrow> bool" where
  moves: "capture_moves c c' \<Longrightarrow> detached_moves c c'"
| abandons: "detached_moves c (c\<lparr>ch_host := drop_step p (ch_host c)\<rparr>)"

definition one_abandons :: capture_host where
  "one_abandons = one_captures\<lparr>ch_host := drop_step 1 (drop_step 1 one_holds)\<rparr>"

definition two_captures :: capture_host where
  "two_captures = capture_opens plain_host True 2 (one_abandons\<lparr>ch_host := acquire willing 2 (ch_host one_abandons)\<rparr>)"

lemma one_abandons_host: "ch_host one_abandons = quiet_host"
  unfolding one_abandons_def one_holds_is by (simp add: drop_step_def goto_record quiet_host_def fun_eq_iff)

lemma two_locked: "ho_phase (acquire willing 2 (ch_host one_abandons)) 2 = Decided Acquired"
  using acquire_free [OF willing_may_create] by (simp add: one_abandons_host quiet_host_def)

lemma two_captures_simps:
  "ch_host two_captures = acquire willing 2 (ch_host one_abandons)" "q \<noteq> 2 \<Longrightarrow> ch_captures two_captures q = ch_captures one_captures q"
  "ch_captures two_captures 2 \<noteq> None"
proof -
  obtain pf es s' where "open_platform_capture plain_host True 2 (ch_sessions one_captures) = (Inr pf, s')" "pf_session pf = Some es"
    by (rule locked_capture_opens [where e = plain_host and p = 2 and s = "ch_sessions one_captures"]) (simp_all add: plain_env_ok plain_start_def)
  then show "ch_host two_captures = acquire willing 2 (ch_host one_abandons)" "q \<noteq> 2 \<Longrightarrow> ch_captures two_captures q = ch_captures one_captures q"
    "ch_captures two_captures 2 \<noteq> None"
    by (simp_all add: two_captures_def one_abandons_def capture_opens_def opened_session_def)
qed

lemma two_captures_moves: "detached_moves\<^sup>*\<^sup>* (no_captures Map.empty) two_captures"
proof -
  have lift: "detached_moves\<^sup>*\<^sup>* c c'" if "capture_moves\<^sup>*\<^sup>* c c'" for c c'
    using that by (induction rule: rtranclp_induct) (auto intro: detached_moves.moves rtranclp.rtrancl_into_rtrancl)
  have none: "ch_captures one_abandons 2 = None"
    by (simp add: one_abandons_def one_captures_def one_locked_def no_captures_def capture_opens_def split_beta)
  have "detached_moves\<^sup>*\<^sup>* one_captures one_abandons"
    using detached_moves.abandons [of one_captures 1] detached_moves.abandons [of "one_captures\<lparr>ch_host := drop_step 1 one_holds\<rparr>" 1]
    by (auto simp: one_abandons_def one_captures_host intro: rtranclp.rtrancl_into_rtrancl)
  moreover have "capture_moves\<^sup>*\<^sup>* one_abandons (one_abandons\<lparr>ch_host := acquire willing 2 (ch_host one_abandons)\<rparr>)"
    by (rule acquire_capture_moves) (simp add: one_abandons_host quiet_host_def)
  moreover have "capture_moves (one_abandons\<lparr>ch_host := acquire willing 2 (ch_host one_abandons)\<rparr>) two_captures"
    unfolding two_captures_def
    by (rule capture_moves.opens_locked) (simp_all add: two_locked plain_env_ok none)
  ultimately show ?thesis
    using lift [OF one_captures_moves] lift by (meson detached_moves.moves rtranclp.rtrancl_into_rtrancl rtranclp_trans)
qed

lemma detached_teardown_stops_next:
  "\<exists>c. detached_moves\<^sup>*\<^sup>* (no_captures Map.empty) c \<and> holds_lock (ch_host c) 2 \<and> ch_captures c 2 \<noteq> None \<and> ch_sessions c SESSION_NAME = None"
proof -
  obtain es where es: "ch_captures one_captures 1 = Some es" and pump: "es_pump es"
    using one_captures_session by blast
  let ?c = "capture_stops quick_stop 0 1 es two_captures"
  have "detached_moves two_captures ?c"
    using es two_captures_simps(2) [of 1] by (intro detached_moves.moves capture_moves.stops) simp
  with two_captures_moves have "detached_moves\<^sup>*\<^sup>* (no_captures Map.empty) ?c"
    by (rule rtranclp.rtrancl_into_rtrancl)
  moreover have "holds_lock (ch_host ?c) 2" "ch_captures ?c 2 \<noteq> None"
    using two_locked two_captures_simps by (simp_all add: capture_stops_def holds_lock_def)
  moreover have "ch_sessions ?c SESSION_NAME = None"
    using session_stop_sessions [OF pump, of quick_stop] by (simp add: capture_stops_def)
  ultimately show ?thesis
    by blast
qed

end
