(* ===== verification/Service_Status.thy ===== *)
theory Service_Status
  imports Service_Core
begin

text \<open>
  The status the service reports to the service control manager
  (\<open>service/windows.rs\<close>): the states, the checkpoints of the pending ones, the
  control handler and the status thread. Each operation holds the status lock,
  so it is one step; the handler's flag is set without the lock, between any two
  of them. The reports are kept in the order in which they are made.
\<close>

section \<open>State\<close>

definition CHECKPOINT_INTERVAL :: duration where "CHECKPOINT_INTERVAL = secs 5"
definition STOP_POLL :: duration where "STOP_POLL = millis 250"
definition WAIT_HINT_MS :: u32 where "WAIT_HINT_MS = 15000"
definition START_PENDING_CAP :: duration where "START_PENDING_CAP = secs 120"
definition STOP_PENDING_CAP :: duration where "STOP_PENDING_CAP = secs 75"

definition SERVICE_ACCEPT_STOP :: u32 where "SERVICE_ACCEPT_STOP = 1"
definition SERVICE_ACCEPT_SHUTDOWN :: u32 where "SERVICE_ACCEPT_SHUTDOWN = 4"
definition ERROR_SERVICE_SPECIFIC_ERROR :: u32 where "ERROR_SERVICE_SPECIFIC_ERROR = 1066"

datatype service_state = StartPending | Running | StopPending | ServiceStopped

record service_status =
  ss_state :: service_state
  ss_controls_accepted :: u32
  ss_win32_exit_code :: u32
  ss_specific_exit_code :: u32
  ss_checkpoint :: u32
  ss_wait_hint :: u32

record status =
  st_status :: service_status
  st_since :: instant
  st_ticked :: instant
  st_stop_requested :: bool
  st_reports :: "service_status list"

definition status_new :: "instant \<Rightarrow> status" where
  "status_new now =
     \<lparr>st_status = \<lparr>ss_state = StartPending, ss_controls_accepted = 0, ss_win32_exit_code = 0, ss_specific_exit_code = 0,
        ss_checkpoint = 0, ss_wait_hint = 0\<rparr>,
      st_since = now, st_ticked = now, st_stop_requested = False, st_reports = []\<rparr>"

definition status_report :: "service_status \<Rightarrow> status \<Rightarrow> status" where
  "status_report r st = st\<lparr>st_reports := st_reports st @ [r]\<rparr>"

unbundle bit_operations_syntax

section \<open>Operations\<close>

definition pending_state :: "service_state \<Rightarrow> bool" where
  "pending_state state \<longleftrightarrow> state = StartPending \<or> state = StopPending"

definition enter_state :: "instant \<Rightarrow> service_state \<Rightarrow> u32 \<Rightarrow> status \<Rightarrow> status" where
  "enter_state now state accepted st =
     (let r = (st_status st)\<lparr>ss_state := state, ss_controls_accepted := accepted,
                ss_checkpoint := (if pending_state state then 1 else 0),
                ss_wait_hint := (if pending_state state then WAIT_HINT_MS else 0)\<rparr>
      in status_report r (st\<lparr>st_status := r, st_since := now, st_ticked := now\<rparr>))"

definition start_pending :: "instant \<Rightarrow> status \<Rightarrow> status" where
  "start_pending now st = enter_state now StartPending 0 st"

definition progress :: "instant \<Rightarrow> status \<Rightarrow> status" where
  "progress now st = (if ss_state (st_status st) = StartPending then st\<lparr>st_since := now\<rparr> else st)"

definition running :: "instant \<Rightarrow> status \<Rightarrow> bool \<times> status" where
  "running now st =
     (if ss_state (st_status st) = StartPending \<and> \<not> st_stop_requested st
      then (True, enter_state now Running (SERVICE_ACCEPT_STOP OR SERVICE_ACCEPT_SHUTDOWN) st)
      else (False, st))"

definition request_stop :: "status \<Rightarrow> status" where
  "request_stop st = st\<lparr>st_stop_requested := True\<rparr>"

definition stopped :: "instant \<Rightarrow> u8 option \<Rightarrow> status \<Rightarrow> status" where
  "stopped now specific st =
     enter_state now ServiceStopped 0
       (st\<lparr>st_status := (st_status st)\<lparr>ss_win32_exit_code := (case specific of None \<Rightarrow> 0 | Some _ \<Rightarrow> ERROR_SERVICE_SPECIFIC_ERROR),
             ss_specific_exit_code := (case specific of None \<Rightarrow> 0 | Some code \<Rightarrow> ucast code)\<rparr>\<rparr>)"

text \<open>
  The status thread holds the lock from the moment it wakes to its next wait:
  it advances the checkpoint of a pending state, then looks for a stop. Before
  its first wait it only looks. It ends once the service has stopped.
\<close>

definition tick_check :: "instant \<Rightarrow> status \<Rightarrow> status" where
  "tick_check now st =
     (if st_stop_requested st \<and> (ss_state (st_status st) = StartPending \<or> ss_state (st_status st) = Running)
      then enter_state now StopPending 0 st else st)"

fun pending_cap :: "service_state \<Rightarrow> duration option" where
  "pending_cap StartPending = Some START_PENDING_CAP"
| "pending_cap StopPending = Some STOP_PENDING_CAP"
| "pending_cap _ = None"

definition tick_advance :: "instant \<Rightarrow> status \<Rightarrow> status" where
  "tick_advance now st =
     (case pending_cap (ss_state (st_status st)) of
        None \<Rightarrow> st
      | Some cap \<Rightarrow>
          if CHECKPOINT_INTERVAL \<le> now - st_ticked st \<and> now - st_since st < cap
          then let r = (st_status st)\<lparr>ss_checkpoint := ss_checkpoint (st_status st) + 1\<rparr>
               in status_report r (st\<lparr>st_status := r, st_ticked := now\<rparr>)
          else st)"

definition tick_while_pending :: "instant \<Rightarrow> status \<Rightarrow> status" where
  "tick_while_pending now st = tick_check now (tick_advance now st)"

section \<open>The control handler\<close>

definition SERVICE_CONTROL_STOP :: u32 where "SERVICE_CONTROL_STOP = 1"
definition SERVICE_CONTROL_INTERROGATE :: u32 where "SERVICE_CONTROL_INTERROGATE = 4"
definition SERVICE_CONTROL_SHUTDOWN :: u32 where "SERVICE_CONTROL_SHUTDOWN = 5"
definition ERROR_CALL_NOT_IMPLEMENTED :: u32 where "ERROR_CALL_NOT_IMPLEMENTED = 120"

definition control_handler :: "u32 \<Rightarrow> status \<Rightarrow> u32 \<times> status" where
  "control_handler control st =
     (if control = SERVICE_CONTROL_STOP \<or> control = SERVICE_CONTROL_SHUTDOWN then (0, request_stop st)
      else if control = SERVICE_CONTROL_INTERROGATE then (0, st)
      else (ERROR_CALL_NOT_IMPLEMENTED, st))"

section \<open>The service's life\<close>

text \<open>
  From the report of the start on: the run reports progress and that it runs,
  the handler or a log that keeps failing records a stop, the status thread
  ticks, and the service reports last that it has stopped. The clock never goes
  back.
\<close>

inductive status_moves :: "instant \<Rightarrow> instant \<times> status \<Rightarrow> bool" for begun where
  begins: "status_moves begun (begun, start_pending begun (status_new begun))"
| progresses: "status_moves begun (t, st) \<Longrightarrow> t \<le> now \<Longrightarrow> status_moves begun (now, progress now st)"
| runs: "status_moves begun (t, st) \<Longrightarrow> t \<le> now \<Longrightarrow> status_moves begun (now, snd (running now st))"
| controlled: "status_moves begun (t, st) \<Longrightarrow> status_moves begun (t, snd (control_handler control st))"
| log_fails: "status_moves begun (t, st) \<Longrightarrow> status_moves begun (t, request_stop st)"
| ticks: "status_moves begun (t, st) \<Longrightarrow> t \<le> now \<Longrightarrow> status_moves begun (now, tick_while_pending now st)"
| looks: "status_moves begun (t, st) \<Longrightarrow> t \<le> now \<Longrightarrow> status_moves begun (now, tick_check now st)"
| stops: "status_moves begun (t, st) \<Longrightarrow> t \<le> now \<Longrightarrow> ss_state (st_status st) \<noteq> ServiceStopped \<Longrightarrow>
    status_moves begun (now, stopped now specific st)"

section \<open>The order of the reports\<close>

fun state_rank :: "service_state \<Rightarrow> nat" where
  "state_rank StartPending = 0"
| "state_rank Running = 1"
| "state_rank StopPending = 2"
| "state_rank ServiceStopped = 3"

text \<open>A report follows another in a later state, or in the same pending state with the next checkpoint.\<close>

definition follows :: "service_status \<Rightarrow> service_status \<Rightarrow> bool" where
  "follows a b \<longleftrightarrow> state_rank (ss_state a) < state_rank (ss_state b)
     \<or> (ss_state a = ss_state b \<and> pending_state (ss_state a) \<and> unat (ss_checkpoint b) = unat (ss_checkpoint a) + 1)"

definition report_ok :: "service_status \<Rightarrow> bool" where
  "report_ok r \<longleftrightarrow>
     (if pending_state (ss_state r) then ss_checkpoint r \<noteq> 0 \<and> ss_wait_hint r = WAIT_HINT_MS else ss_checkpoint r = 0 \<and> ss_wait_hint r = 0)
     \<and> ss_controls_accepted r = (if ss_state r = Running then SERVICE_ACCEPT_STOP OR SERVICE_ACCEPT_SHUTDOWN else 0)
     \<and> (ss_state r \<noteq> ServiceStopped \<longrightarrow> ss_win32_exit_code r = 0 \<and> ss_specific_exit_code r = 0)
     \<and> (ss_specific_exit_code r \<noteq> 0 \<longrightarrow> ss_win32_exit_code r = ERROR_SERVICE_SPECIFIC_ERROR)"

text \<open>Each advance of the checkpoint takes its interval, counted from the start of the state.\<close>

definition status_inv :: "instant \<Rightarrow> instant \<Rightarrow> status \<Rightarrow> bool" where
  "status_inv begun now st \<longleftrightarrow>
     st_reports st \<noteq> [] \<and> last (st_reports st) = st_status st \<and> successively follows (st_reports st) \<and> list_all report_ok (st_reports st)
     \<and> begun \<le> now \<and> begun \<le> st_ticked st \<and> st_ticked st \<le> now \<and> st_since st \<le> now
     \<and> (pending_state (ss_state (st_status st)) \<longrightarrow> (unat (ss_checkpoint (st_status st)) - 1) * CHECKPOINT_INTERVAL \<le> st_ticked st - begun)
     \<and> (ss_state (st_status st) = StopPending \<longrightarrow>
          st_since st \<le> st_ticked st \<and> (unat (ss_checkpoint (st_status st)) - 1) * CHECKPOINT_INTERVAL \<le> st_ticked st - st_since st
          \<and> st_ticked st - st_since st < STOP_PENDING_CAP)"

text \<open>Far more than six hundred years: the checkpoints do not wrap around before.\<close>

definition CHECKPOINTS_LAST :: duration where
  "CHECKPOINTS_LAST = (2 ^ 32 - 2) * CHECKPOINT_INTERVAL"

lemma successively_snoc: "successively P (xs @ [y]) \<longleftrightarrow> successively P xs \<and> (xs \<noteq> [] \<longrightarrow> P (last xs) y)"
  by (auto simp: successively_append_iff)

lemma enter_state_simps [simp]:
  "ss_state (st_status (enter_state now state accepted st)) = state"
  "st_since (enter_state now state accepted st) = now" "st_ticked (enter_state now state accepted st) = now"
  "st_reports (enter_state now state accepted st) = st_reports st @ [st_status (enter_state now state accepted st)]"
  "unat (ss_checkpoint (st_status (enter_state now state accepted st))) = (if pending_state state then 1 else 0)"
  by (simp_all add: enter_state_def status_report_def Let_def)

lemma status_inv_enter:
  assumes "status_inv begun t st" "t \<le> now" "state_rank (ss_state (st_status st)) < state_rank state"
    and "report_ok (st_status (enter_state now state accepted (st\<lparr>st_status := r\<rparr>)))"
  shows "status_inv begun now (enter_state now state accepted (st\<lparr>st_status := r\<rparr>))"
  using assms by (auto simp: status_inv_def successively_snoc follows_def STOP_PENDING_CAP_def secs_def)

lemma report_ok_enter:
  assumes "report_ok (st_status st)" "accepted = (if state = Running then SERVICE_ACCEPT_STOP OR SERVICE_ACCEPT_SHUTDOWN else 0)"
    and "ss_state (st_status st) \<noteq> ServiceStopped"
  shows "report_ok (st_status (enter_state now state accepted st))"
  using assms by (auto simp: report_ok_def enter_state_def status_report_def Let_def pending_state_def)

lemma status_inv_report: "status_inv begun now st \<Longrightarrow> report_ok (st_status st)"
  by (metis status_inv_def last_in_set list_all_iff)

lemma status_inv_later:
  assumes "status_inv begun t st" "t \<le> now"
  shows "status_inv begun now st"
  using assms by (auto simp: status_inv_def)

lemma status_inv_advance:
  assumes "status_inv begun t st" "t \<le> now" "now < begun + CHECKPOINTS_LAST"
  shows "status_inv begun now (tick_advance now st)"
proof (cases "tick_advance now st = st")
  case True
  with status_inv_later [OF assms(1,2)] show ?thesis
    by simp
next
  case False
  define r where "r = (st_status st)\<lparr>ss_checkpoint := ss_checkpoint (st_status st) + 1\<rparr>"
  from False obtain cap where cap: "pending_cap (ss_state (st_status st)) = Some cap"
    "CHECKPOINT_INTERVAL \<le> now - st_ticked st" "now - st_since st < cap"
    and advance: "tick_advance now st = status_report r (st\<lparr>st_status := r, st_ticked := now\<rparr>)"
    by (auto simp: tick_advance_def r_def Let_def split: option.splits if_splits)
  note inv = assms(1) [unfolded status_inv_def]
  have pending: "pending_state (ss_state (st_status st))" "ss_state r = ss_state (st_status st)"
    using cap(1) by (cases "ss_state (st_status st)"; simp add: pending_state_def r_def)+
  have "(unat (ss_checkpoint (st_status st)) - 1) * CHECKPOINT_INTERVAL < CHECKPOINTS_LAST"
    using inv pending assms(2,3) by linarith
  then have "unat (ss_checkpoint (st_status st)) + 1 < 2 ^ 32"
    by (simp add: CHECKPOINTS_LAST_def CHECKPOINT_INTERVAL_def secs_def)
  then have next_checkpoint: "unat (ss_checkpoint r) = unat (ss_checkpoint (st_status st)) + 1"
    by (simp add: r_def unat_word_ariths)
  have positive: "1 \<le> unat (ss_checkpoint (st_status st))"
    using status_inv_report [OF assms(1)] pending(1) by (simp add: report_ok_def unat_gt_0 Suc_le_eq)
  obtain n where n: "unat (ss_checkpoint (st_status st)) = Suc n"
    using positive by (cases "unat (ss_checkpoint (st_status st))") auto
  have ok: "report_ok r" "follows (st_status st) r"
    using status_inv_report [OF assms(1)] pending next_checkpoint
    by (auto simp: report_ok_def follows_def r_def dest: arg_cong [where f = unat])
  have sum: "Suc n * CHECKPOINT_INTERVAL \<le> now - x" if "n * CHECKPOINT_INTERVAL \<le> st_ticked st - x" "x \<le> st_ticked st" for x
    using that cap(2) inv assms(2) unfolding mult_Suc by arith
  have from_begun: "Suc n * CHECKPOINT_INTERVAL \<le> now - begun"
    using inv pending n by (intro sum) auto
  have from_since: "Suc n * CHECKPOINT_INTERVAL \<le> now - st_since st" "now - st_since st < STOP_PENDING_CAP"
    if "ss_state (st_status st) = StopPending"
    using inv that n cap by (auto intro!: sum simp del: mult_Suc)
  show ?thesis
    unfolding advance status_inv_def
    using inv assms(2) pending ok next_checkpoint n from_begun from_since by (auto simp: status_report_def successively_snoc)
qed

lemma status_inv_check:
  assumes "status_inv begun t st" "t \<le> now"
  shows "status_inv begun now (tick_check now st)"
  using status_inv_enter [OF assms, of StopPending 0 "st_status st"] report_ok_enter [OF status_inv_report [OF assms(1)], of 0 StopPending now]
    status_inv_later [OF assms]
  by (auto simp: tick_check_def)

lemma status_inv_moves:
  assumes "status_moves begun c" "fst c < begun + CHECKPOINTS_LAST"
  shows "status_inv begun (fst c) (snd c)"
  using assms
proof (induction rule: status_moves.induct)
  case begins
  show ?case
    by (simp add: start_pending_def status_inv_def report_ok_def) (simp add: status_new_def enter_state_def status_report_def Let_def pending_state_def)
next
  case (progresses t st now)
  then show ?case
    by (auto simp: status_inv_def progress_def)
next
  case (runs t st now)
  then have inv: "status_inv begun t st"
    by simp
  with runs show ?case
    using status_inv_enter [OF inv, of now Running _ "st_status st"]
      report_ok_enter [OF status_inv_report [OF inv], of "SERVICE_ACCEPT_STOP OR SERVICE_ACCEPT_SHUTDOWN" Running now] status_inv_later [OF inv]
    by (auto simp: running_def)
next
  case (controlled t st control)
  then show ?case
    by (simp add: control_handler_def request_stop_def status_inv_def)
next
  case (log_fails t st)
  then show ?case
    by (simp add: request_stop_def status_inv_def)
next
  case (ticks t st now)
  then show ?case
    using status_inv_check [OF status_inv_advance] by (simp add: tick_while_pending_def)
next
  case (looks t st now)
  then show ?case
    using status_inv_check by simp
next
  case (stops t st now specific)
  then have inv: "status_inv begun t st"
    by simp
  have "state_rank (ss_state (st_status st)) < 3"
    using stops(3) by (cases "ss_state (st_status st)") auto
  with stops(2) show ?case
    unfolding stopped_def fst_conv snd_conv
    by (intro status_inv_enter [OF inv])
      (auto simp: report_ok_def enter_state_def status_report_def Let_def pending_state_def split: option.split)
qed

text \<open>
  Claim C20. The service reports its states in their order. In every
  interleaving of the run, the handler, the status thread and a failing log,
  for as long as the clock has run less than six hundred years: each report
  follows the one before it in a later state, or in the same pending state with
  the next checkpoint, so the service never runs again after a stop and is
  never heard of after it has stopped; every report is well formed, and the
  last one is the current status.
\<close>

theorem status_reports_ordered:
  assumes "status_moves begun (now, st)" "now < begun + CHECKPOINTS_LAST"
  shows "successively follows (st_reports st) \<and> list_all report_ok (st_reports st) \<and> last (st_reports st) = st_status st"
  using status_inv_moves [OF assms(1)] assms(2) by (simp add: status_inv_def)

text \<open>
  A stop shows. Once a stop is recorded the service does not come to
  run; the next pass of the status thread leaves it stopping or stopped; and a
  stop that hangs is seen to hang, its checkpoint never passing 15.
\<close>

lemma stop_shows:
  assumes "status_moves begun (t, st)" "t < begun + CHECKPOINTS_LAST"
  shows "(st_stop_requested st \<longrightarrow> running now st = (False, st)
           \<and> ss_state (st_status (tick_while_pending now st)) \<in> {StopPending, ServiceStopped})
    \<and> (ss_state (st_status st) = StopPending \<longrightarrow> unat (ss_checkpoint (st_status st)) \<le> 15)"
proof -
  have "unat (ss_checkpoint (st_status st)) \<le> 15" if "ss_state (st_status st) = StopPending"
  proof -
    have "(unat (ss_checkpoint (st_status st)) - 1) * CHECKPOINT_INTERVAL < STOP_PENDING_CAP"
      using status_inv_moves [OF assms(1)] assms(2) that by (simp add: status_inv_def)
    then show ?thesis
      by (simp add: CHECKPOINT_INTERVAL_def STOP_PENDING_CAP_def secs_def)
  qed
  moreover have "ss_state (st_status (tick_advance now st)) = ss_state (st_status st)"
    "st_stop_requested (tick_advance now st) = st_stop_requested st"
    by (auto simp: tick_advance_def status_report_def Let_def split: option.split)
  ultimately show ?thesis
    by (cases "ss_state (st_status st)") (auto simp: running_def tick_while_pending_def tick_check_def)
qed

section \<open>A start, a stop and five seconds more\<close>

definition stopping :: status where
  "stopping = tick_while_pending (secs 7) (tick_while_pending (secs 2) (request_stop (snd (running (secs 1) (start_pending 0 (status_new 0))))))"

lemma stopping_moves: "status_moves 0 (secs 7, stopping)"
proof -
  have "status_moves 0 (secs 1, snd (running (secs 1) (start_pending 0 (status_new 0))))"
    by (rule status_moves.runs [OF status_moves.begins]) simp
  then have "status_moves 0 (secs 2, tick_while_pending (secs 2) (request_stop (snd (running (secs 1) (start_pending 0 (status_new 0))))))"
    by (rule status_moves.ticks [OF status_moves.log_fails]) (simp add: secs_def)
  then show ?thesis
    unfolding stopping_def by (rule status_moves.ticks) (simp add: secs_def)
qed

lemma stopping_states: "map (\<lambda>r. (ss_state r, ss_checkpoint r)) (st_reports stopping) = [(StartPending, 1), (Running, 0), (StopPending, 1), (StopPending, 2)]"
  by (simp add: stopping_def tick_while_pending_def tick_check_def tick_advance_def running_def start_pending_def status_new_def request_stop_def
      enter_state_def status_report_def Let_def pending_state_def CHECKPOINT_INTERVAL_def STOP_PENDING_CAP_def secs_def)

lemma seven_seconds: "secs 7 < 0 + CHECKPOINTS_LAST"
  by (simp add: CHECKPOINTS_LAST_def CHECKPOINT_INTERVAL_def secs_def)

theorem status_reports_ordered_witness:
  "map ss_state (st_reports stopping) = [StartPending, Running, StopPending, StopPending] \<and> successively follows (st_reports stopping)"
  using status_reports_ordered [OF stopping_moves seven_seconds] stopping_states by auto

end
