(* ===== verification/Log_Rotation.thy ===== *)
theory Log_Rotation
  imports CG_Prelude
begin

text \<open>
  The service's size-bounded rotating log (\<open>service/rotation.rs\<close>). The log's
  directory is a map from file names to contents. Each file operation may
  fail: the environment says, operation by operation, whether it does, with
  which error text and, for a failing write, how many bytes it left. The
  opener is the one of \<open>service/log_file.rs\<close>: it opens the active file for
  appending, creates it when absent and returns its size.
\<close>

section \<open>The log and its directory\<close>

definition MAX_FILE_BYTES :: nat where
  "MAX_FILE_BYTES = 10 * 1024 * 1024"

definition ARCHIVES :: nat where
  "ARCHIVES = 5"

definition MAX_RECORD_BYTES :: nat where
  "MAX_RECORD_BYTES = 64 * 1024"

definition ACTIVE :: string where
  "ACTIVE = ''agent.jsonl''"

definition ROTATING :: string where
  "ROTATING = ''agent.rotating.jsonl''"

definition ROTATION_RETRY_LIMIT :: duration where
  "ROTATION_RETRY_LIMIT = secs 60"

definition ROTATION_RETRY_EVERY :: duration where
  "ROTATION_RETRY_EVERY = secs 1"

definition archive_name :: "nat \<Rightarrow> string" where
  "archive_name n = ''agent.'' @ dec n @ ''.jsonl''"

definition nl :: char where
  "nl = CHR 0x0A"

record log_env =
  fe_fault :: "nat \<Rightarrow> nat option"
  fe_error :: "nat \<Rightarrow> string"
  fe_clock :: "nat \<Rightarrow> instant"
  fe_stamp :: "nat \<Rightarrow> string"

record rotating_log =
  lg_files :: "string \<Rightarrow> string option"
  lg_ops :: nat
  lg_active :: bool
  lg_size :: nat
  lg_pending :: string
  lg_discarding :: bool
  lg_line_len :: nat
  lg_failed :: bool
  lg_on_failure :: bool
  lg_reported :: "string list"
  lg_rotation_failing :: "(instant \<times> instant) option"
  lg_rotation_retry_limit :: duration
  lg_unfinished :: bool

section \<open>File operations\<close>

definition next_op :: "rotating_log \<Rightarrow> rotating_log" where
  "next_op l = l\<lparr>lg_ops := lg_ops l + 1\<rparr>"

definition file_exists :: "string \<Rightarrow> rotating_log \<Rightarrow> bool" where
  "file_exists n l \<longleftrightarrow> lg_files l n \<noteq> None"

definition content :: "string \<Rightarrow> rotating_log \<Rightarrow> string" where
  "content n l = (case lg_files l n of None \<Rightarrow> [] | Some c \<Rightarrow> c)"

definition fs_rename :: "log_env \<Rightarrow> string \<Rightarrow> string \<Rightarrow> rotating_log \<Rightarrow> (string + unit) \<times> rotating_log" where
  "fs_rename env a b l =
     (case (fe_fault env (lg_ops l), lg_files l a) of
        (None, Some c) \<Rightarrow> (Inr (), (next_op l)\<lparr>lg_files := (lg_files l)(a := None, b := Some c)\<rparr>)
      | _ \<Rightarrow> (Inl (fe_error env (lg_ops l)), next_op l))"

definition fs_remove :: "log_env \<Rightarrow> string \<Rightarrow> rotating_log \<Rightarrow> (string + unit) \<times> rotating_log" where
  "fs_remove env a l =
     (case (fe_fault env (lg_ops l), lg_files l a) of
        (None, Some c) \<Rightarrow> (Inr (), (next_op l)\<lparr>lg_files := (lg_files l)(a := None)\<rparr>)
      | _ \<Rightarrow> (Inl (fe_error env (lg_ops l)), next_op l))"

definition reopen :: "log_env \<Rightarrow> rotating_log \<Rightarrow> (string + unit) \<times> rotating_log" where
  "reopen env l =
     (let l0 = l\<lparr>lg_active := False\<rparr>;
          created = (next_op l0)\<lparr>lg_files := (lg_files l)(ACTIVE := Some (content ACTIVE l))\<rparr>
      in case fe_fault env (lg_ops l) of
           Some k \<Rightarrow> (Inl (fe_error env (lg_ops l)), if k = 0 then next_op l0 else created)
         | None \<Rightarrow> (Inr (), created\<lparr>lg_active := True, lg_size := length (content ACTIVE l)\<rparr>))"

definition append_raw :: "log_env \<Rightarrow> string \<Rightarrow> rotating_log \<Rightarrow> (string + unit) \<times> rotating_log" where
  "append_raw env s l =
     (if \<not> lg_active l then (Inl ''no active log file'', l)
      else
        let written = (\<lambda>t. (next_op l)\<lparr>lg_files := (lg_files l)(ACTIVE := Some (content ACTIVE l @ t))\<rparr>)
        in case fe_fault env (lg_ops l) of
             Some k \<Rightarrow> (Inl (fe_error env (lg_ops l)), written (take k s))
           | None \<Rightarrow> (Inr (), written s))"

definition append_record :: "log_env \<Rightarrow> string \<Rightarrow> rotating_log \<Rightarrow> (string + unit) \<times> rotating_log" where
  "append_record env record l = append_raw env (record @ [nl]) l"

section \<open>Rotation\<close>

fun shift_archives :: "log_env \<Rightarrow> nat \<Rightarrow> rotating_log \<Rightarrow> (string + unit) \<times> rotating_log" where
  "shift_archives env 0 l = (Inr (), l)"
| "shift_archives env (Suc n) l =
     (case fs_rename env (archive_name (Suc n)) (archive_name (Suc (Suc n))) l of
        (Inl e, l1) \<Rightarrow> (Inl e, l1)
      | (Inr _, l1) \<Rightarrow> shift_archives env n l1)"

definition place_rotating :: "log_env \<Rightarrow> nat \<Rightarrow> rotating_log \<Rightarrow> (string + unit) \<times> rotating_log" where
  "place_rotating env free l =
     (case shift_archives env (free - 1) l of
        (Inl e, l1) \<Rightarrow> (Inl e, l1)
      | (Inr _, l1) \<Rightarrow>
          (case fs_rename env ROTATING (archive_name 1) l1 of
             (Inl e, l2) \<Rightarrow> (Inl e, l2)
           | (Inr _, l2) \<Rightarrow> (Inr (), l2\<lparr>lg_unfinished := False\<rparr>)))"

definition finish_rotation :: "log_env \<Rightarrow> rotating_log \<Rightarrow> (string + unit) \<times> rotating_log" where
  "finish_rotation env l =
     (case find (\<lambda>n. \<not> file_exists (archive_name n) l) [1..<ARCHIVES + 1] of
        Some free \<Rightarrow> place_rotating env free l
      | None \<Rightarrow>
          (case fs_remove env (archive_name ARCHIVES) l of
             (Inl e, l1) \<Rightarrow> (Inl e, l1)
           | (Inr _, l1) \<Rightarrow> place_rotating env ARCHIVES l1))"

definition move_active :: "log_env \<Rightarrow> rotating_log \<Rightarrow> (string + unit) \<times> rotating_log" where
  "move_active env l =
     (let (renamed, l1) = fs_rename env ACTIVE ROTATING (l\<lparr>lg_active := False\<rparr>)
      in case reopen env l1 of
           (Inl e, l2) \<Rightarrow> (Inl e, l2)
         | (Inr _, l2) \<Rightarrow>
             (case renamed of
                Inl e \<Rightarrow> (Inl e, l2)
              | Inr _ \<Rightarrow> (Inr (), l2\<lparr>lg_unfinished := True\<rparr>)))"

definition rotate :: "log_env \<Rightarrow> rotating_log \<Rightarrow> (string + unit) \<times> rotating_log" where
  "rotate env l =
     (if file_exists ROTATING l then finish_rotation env l
      else case move_active env l of
             (Inl e, l1) \<Rightarrow> (Inl e, l1)
           | (Inr _, l1) \<Rightarrow> finish_rotation env l1)"

definition rotate_if_due :: "log_env \<Rightarrow> nat \<Rightarrow> rotating_log \<Rightarrow> (string + unit) \<times> rotating_log" where
  "rotate_if_due env len l =
     (let full = (0 < lg_size l \<and> MAX_FILE_BYTES < lg_size l + len); now = fe_clock env (lg_ops l)
      in if \<not> lg_unfinished l \<and> \<not> full then (Inr (), l)
         else if (case lg_rotation_failing l of
                    Some (_, tried) \<Rightarrow> now - tried < ROTATION_RETRY_EVERY
                  | None \<Rightarrow> False)
         then (Inr (), l)
         else case rotate env l of
                (Inr _, l1) \<Rightarrow> (Inr (), l1\<lparr>lg_rotation_failing := None\<rparr>)
              | (Inl e, l1) \<Rightarrow>
                  let since = (case lg_rotation_failing l1 of Some (s, _) \<Rightarrow> s | None \<Rightarrow> now);
                      l2 = l1\<lparr>lg_rotation_failing := Some (since, now)\<rparr>
                  in if lg_rotation_retry_limit l2 \<le> now - since
                     then (Inl (''rotate: '' @ e @ '' (failing for '' @ dec ((now - since) div secs 1) @ '' s)''), l2)
                     else if \<not> lg_active l2
                     then (case reopen env l2 of
                             (Inl e', l3) \<Rightarrow> (Inl (''reopen after a failed rotation: '' @ e'), l3)
                           | (Inr _, l3) \<Rightarrow> (Inr (), l3))
                     else (Inr (), l2))"

section \<open>Records and lines\<close>

definition dquote :: string where
  "dquote = [CHR 0x22]"

definition oversized_record :: "string \<Rightarrow> nat \<Rightarrow> string" where
  "oversized_record stamp len =
     ''{'' @ dquote @ ''fields'' @ dquote @ '':{'' @ dquote @ ''bound_bytes'' @ dquote @ '':'' @ dec MAX_RECORD_BYTES
     @ '','' @ dquote @ ''message'' @ dquote @ '':'' @ dquote
     @ ''a log record was replaced: it exceeded the bound of one record'' @ dquote
     @ '','' @ dquote @ ''record_bytes'' @ dquote @ '':'' @ dec len @ ''},'' @ dquote @ ''level'' @ dquote @ '':''
     @ dquote @ ''WARN'' @ dquote @ '','' @ dquote @ ''target'' @ dquote @ '':'' @ dquote
     @ ''cg_agent::service::rotation'' @ dquote @ '','' @ dquote @ ''timestamp'' @ dquote @ '':'' @ dquote @ stamp
     @ dquote @ ''}''"

definition fail :: "string \<Rightarrow> rotating_log \<Rightarrow> rotating_log" where
  "fail reason l =
     l\<lparr>lg_failed := True, lg_active := False,
       lg_reported := (if lg_on_failure l then lg_reported l @ [reason] else lg_reported l),
       lg_on_failure := False\<rparr>"

definition retry_append :: "log_env \<Rightarrow> string \<Rightarrow> rotating_log \<Rightarrow> (string + unit) \<times> rotating_log" where
  "retry_append env record l =
     (let before = lg_size l
      in case reopen env l of
           (Inl e, l1) \<Rightarrow> (Inl e, l1)
         | (Inr _, l1) \<Rightarrow>
             if before < lg_size l1
             then (case append_raw env [nl] l1 of
                     (Inl e, l2) \<Rightarrow> (Inl e, l2)
                   | (Inr _, l2) \<Rightarrow> append_record env record (l2\<lparr>lg_size := lg_size l2 + 1\<rparr>))
             else append_record env record l1)"

definition within_record :: "log_env \<Rightarrow> string \<Rightarrow> rotating_log \<Rightarrow> string" where
  "within_record env record l =
     (if MAX_RECORD_BYTES < length record + 1 then oversized_record (fe_stamp env (lg_ops l)) (length record)
      else record)"

definition write_record :: "log_env \<Rightarrow> string \<Rightarrow> rotating_log \<Rightarrow> rotating_log" where
  "write_record env record0 l =
     (if lg_failed l then l
      else
        let record = within_record env record0 l; len = length record + 1
        in case rotate_if_due env len l of
             (Inl reason, l1) \<Rightarrow> fail reason l1
           | (Inr _, l1) \<Rightarrow>
               (case append_record env record l1 of
                  (Inr _, l2) \<Rightarrow> l2\<lparr>lg_size := lg_size l2 + len\<rparr>
                | (Inl first, l2) \<Rightarrow>
                    (case retry_append env record l2 of
                       (Inl second, l3) \<Rightarrow> fail (''write: '' @ first @ ''; after reopening: '' @ second) l3
                     | (Inr _, l3) \<Rightarrow> l3\<lparr>lg_size := lg_size l3 + len\<rparr>)))"

definition take_bytes :: "string \<Rightarrow> rotating_log \<Rightarrow> rotating_log" where
  "take_bytes s l =
     (let l1 = l\<lparr>lg_line_len := lg_line_len l + length s\<rparr>
      in if lg_discarding l1 then l1
         else if MAX_RECORD_BYTES < length (lg_pending l1) + length s + 1
         then l1\<lparr>lg_discarding := True, lg_pending := []\<rparr>
         else l1\<lparr>lg_pending := lg_pending l1 @ s\<rparr>)"

definition end_line :: "log_env \<Rightarrow> rotating_log \<Rightarrow> rotating_log" where
  "end_line env l =
     (let l1 = (if lg_discarding l
                then write_record env (oversized_record (fe_stamp env (lg_ops l)) (lg_line_len l)) l
                else write_record env (lg_pending l) (l\<lparr>lg_pending := []\<rparr>))
      in l1\<lparr>lg_pending := [], lg_discarding := False, lg_line_len := 0\<rparr>)"

text \<open>The bytes up to each newline are taken and the line ended; the rest waits.\<close>

function log_write :: "log_env \<Rightarrow> string \<Rightarrow> rotating_log \<Rightarrow> rotating_log" where
  "log_write env buf l =
     (case dropWhile (\<lambda>c. c \<noteq> nl) buf of
        [] \<Rightarrow> take_bytes buf l
      | _ # rest \<Rightarrow> log_write env rest (end_line env (take_bytes (takeWhile (\<lambda>c. c \<noteq> nl) buf) l)))"

  by pat_completeness auto

termination
proof (relation "measure (\<lambda>(_, buf, _). length buf)", simp, simp)
  fix buf rest :: string and c
  assume "dropWhile (\<lambda>c. c \<noteq> nl) buf = c # rest"
  then show "length rest < length buf"
    using length_dropWhile_le [of "\<lambda>c. c \<noteq> nl" buf] by simp
qed

declare log_write.simps [simp del]

definition set_on_failure :: "rotating_log \<Rightarrow> rotating_log" where
  "set_on_failure l = l\<lparr>lg_on_failure := True\<rparr>"

definition set_rotation_retry_limit :: "duration \<Rightarrow> rotating_log \<Rightarrow> rotating_log" where
  "set_rotation_retry_limit limit l = l\<lparr>lg_rotation_retry_limit := limit\<rparr>"

definition log_open :: "log_env \<Rightarrow> (string \<Rightarrow> string option) \<Rightarrow> (string + unit) \<times> rotating_log" where
  "log_open env files =
     (let l = \<lparr>lg_files = files, lg_ops = 0, lg_active = False, lg_size = 0, lg_pending = [],
               lg_discarding = False, lg_line_len = 0, lg_failed = False, lg_on_failure = False,
               lg_reported = [],
               lg_rotation_failing = None, lg_rotation_retry_limit = ROTATION_RETRY_LIMIT,
               lg_unfinished = (files ROTATING \<noteq> None)\<rparr>
      in case reopen env l of
           (Inl e, l1) \<Rightarrow> (Inl e, l1)
         | (Inr _, l1) \<Rightarrow>
             if MAX_FILE_BYTES \<le> lg_size l1 \<or> lg_unfinished l1 then rotate env l1 else (Inr (), l1))"

section \<open>The log's bytes in order\<close>

text \<open>
  The files from the oldest archive to the active file, and the bytes they
  hold in that order.
\<close>

definition log_names :: "string list" where
  "log_names = map archive_name [5, 4, 3, 2, 1] @ [ROTATING, ACTIVE]"

definition log_bytes :: "rotating_log \<Rightarrow> string" where
  "log_bytes l = concat (map (\<lambda>n. content n l) log_names)"

lemma log_names_distinct: "distinct log_names"
  by code_simp

lemma archive_names:
  "archive_name 1 = ''agent.1.jsonl''" "archive_name 2 = ''agent.2.jsonl''" "archive_name 3 = ''agent.3.jsonl''"
  "archive_name 4 = ''agent.4.jsonl''" "archive_name 5 = ''agent.5.jsonl''"
  by code_simp+

lemmas file_names = archive_names ROTATING_def ACTIVE_def

text \<open>A step either keeps the bytes, or drops those of the oldest archive.\<close>

definition loses_oldest :: "rotating_log \<Rightarrow> rotating_log \<Rightarrow> bool" where
  "loses_oldest l l' \<longleftrightarrow>
     log_bytes l' = log_bytes l
     \<or> (\<forall>n \<in> {1..ARCHIVES}. file_exists (archive_name n) l)
        \<and> log_bytes l = content (archive_name ARCHIVES) l @ log_bytes l'"

lemma content_simps [simp]:
  "content n (l\<lparr>lg_files := f\<rparr>) = (case f n of None \<Rightarrow> [] | Some c \<Rightarrow> c)"
  "content n (l\<lparr>lg_ops := k\<rparr>) = content n l" "content n (l\<lparr>lg_active := a\<rparr>) = content n l"
  "content n (l\<lparr>lg_size := s\<rparr>) = content n l" "content n (l\<lparr>lg_unfinished := u\<rparr>) = content n l"
  "content n (l\<lparr>lg_rotation_failing := rf\<rparr>) = content n l" "content n (l\<lparr>lg_failed := fd\<rparr>) = content n l"
  "content n (l\<lparr>lg_reported := rs\<rparr>) = content n l" "content n (l\<lparr>lg_on_failure := h\<rparr>) = content n l"
  "content n (l\<lparr>lg_pending := p\<rparr>) = content n l" "content n (l\<lparr>lg_discarding := d\<rparr>) = content n l"
  "content n (l\<lparr>lg_line_len := ll\<rparr>) = content n l" "content n (next_op l) = content n l"
  by (simp_all add: content_def next_op_def)

lemma log_bytes_cong: "(\<And>n. content n l = content n l') \<Longrightarrow> log_bytes l = log_bytes l'"
  by (simp add: log_bytes_def)

text \<open>Renaming a file into a free name that precedes it in the order keeps the bytes.\<close>

lemma rename_keeps_bytes:
  assumes "fs_rename env a b l = (r, l')" "log_names = xs @ b # a # ys" "\<not> file_exists b l"
  shows "log_bytes l' = log_bytes l"
proof (cases "lg_files l' = lg_files l")
  case True
  then show ?thesis
    by (intro log_bytes_cong) (simp add: content_def)
next
  case False
  then obtain c where c: "lg_files l a = Some c" "lg_files l' = (lg_files l)(a := None, b := Some c)"
    using assms(1) by (auto simp: fs_rename_def next_op_def split: option.splits)
  have "a \<noteq> b" "a \<notin> set xs" "b \<notin> set xs" "a \<notin> set ys" "b \<notin> set ys"
    using log_names_distinct unfolding assms(2) by auto
  moreover have "content b l = []"
    using assms(3) by (simp add: content_def file_exists_def)
  moreover have same: "content n l' = content n l" if "n \<noteq> a" "n \<noteq> b" for n
    using that c by (simp add: content_def)
  moreover have "map (\<lambda>n. content n l') zs = map (\<lambda>n. content n l) zs" if "a \<notin> set zs" "b \<notin> set zs" for zs
    using that by (auto intro!: same)
  moreover have "content a l' = []" "content b l' = content a l"
    using c \<open>a \<noteq> b\<close> by (simp_all add: content_def)
  ultimately show ?thesis
    unfolding log_bytes_def assms(2) by (simp del: map_eq_conv)
qed

lemma rename_files:
  assumes "fs_rename env a b l = (r, l')" "n \<noteq> a" "n \<noteq> b"
  shows "lg_files l' n = lg_files l n"
  using assms by (auto simp: fs_rename_def next_op_def split: option.splits)

lemma rename_frees: "fs_rename env a b l = (Inr u, l') \<Longrightarrow> a \<noteq> b \<Longrightarrow> \<not> file_exists a l'"
  by (auto simp: fs_rename_def next_op_def file_exists_def split: option.splits)

lemma log_names_adjacent:
  "n \<in> {1..4} \<Longrightarrow> \<exists>xs ys. log_names = xs @ archive_name (Suc n) # archive_name n # ys"
  "\<exists>xs ys. log_names = xs @ archive_name 1 # ROTATING # ys"
  "\<exists>xs ys. log_names = xs @ ROTATING # ACTIVE # ys"
proof -
  assume "n \<in> {1..4}"
  then consider "n = 1" | "n = 2" | "n = 3" | "n = 4" by force
  then show "\<exists>xs ys. log_names = xs @ archive_name (Suc n) # archive_name n # ys"
  proof cases
    case 1
    show ?thesis
      unfolding 1 by (rule exI [of _ "map archive_name [5, 4, 3]"], rule exI [of _ "[ROTATING, ACTIVE]"])
        (simp add: log_names_def numeral_2_eq_2)
  next
    case 2
    show ?thesis
      unfolding 2 by (rule exI [of _ "map archive_name [5, 4]"], rule exI [of _ "[archive_name 1, ROTATING, ACTIVE]"]) (simp add: log_names_def)
  next
    case 3
    show ?thesis
      unfolding 3 by (rule exI [of _ "map archive_name [5]"], rule exI [of _ "map archive_name [2, 1] @ [ROTATING, ACTIVE]"]) (simp add: log_names_def)
  next
    case 4
    show ?thesis
      unfolding 4 by (rule exI [of _ "[]"], rule exI [of _ "map archive_name [3, 2, 1] @ [ROTATING, ACTIVE]"]) (simp add: log_names_def)
  qed
next
  show "\<exists>xs ys. log_names = xs @ archive_name 1 # ROTATING # ys"
    by (rule exI [of _ "map archive_name [5, 4, 3, 2]"], rule exI [of _ "[ACTIVE]"]) (simp add: log_names_def)
  show "\<exists>xs ys. log_names = xs @ ROTATING # ACTIVE # ys"
    by (rule exI [of _ "map archive_name [5, 4, 3, 2, 1]"], rule exI [of _ "[]"]) (simp add: log_names_def)
qed

lemma archive_name_inject [simp]: "archive_name m = archive_name n \<longleftrightarrow> m = n"
  by (simp add: archive_name_def)

lemma archive_name_other: "archive_name n \<noteq> ROTATING" "archive_name n \<noteq> ACTIVE" "ROTATING \<noteq> ACTIVE"
proof -
  have "is_ascii_digit (hd (dec n))"
    using dec_digits [of "hd (dec n)" n] by simp
  then have h: "hd (dec n) \<noteq> CHR ''r''" "hd (dec n) \<noteq> CHR ''j''"
    by (auto simp: is_ascii_digit_def)
  show "archive_name n \<noteq> ROTATING" "archive_name n \<noteq> ACTIVE"
    using h dec_nonempty [of n] by (cases "dec n"; auto simp: archive_name_def ROTATING_def ACTIVE_def)+
  show "ROTATING \<noteq> ACTIVE"
    by (simp add: ROTATING_def ACTIVE_def)
qed

declare archive_name_other [simp] archive_name_other [symmetric, simp]

lemma shift_keeps_bytes:
  "n \<le> 4 \<Longrightarrow> \<not> file_exists (archive_name (Suc n)) l \<Longrightarrow> shift_archives env n l = (r, l') \<Longrightarrow>
   log_bytes l' = log_bytes l \<and> lg_files l' ROTATING = lg_files l ROTATING
     \<and> lg_files l' ACTIVE = lg_files l ACTIVE \<and> (r = Inr () \<longrightarrow> \<not> file_exists (archive_name 1) l')"
proof (induction n arbitrary: l)
  case (Suc n)
  obtain r1 l1 where step: "fs_rename env (archive_name (Suc n)) (archive_name (Suc (Suc n))) l = (r1, l1)"
    by fastforce
  obtain xs ys where names: "log_names = xs @ archive_name (Suc (Suc n)) # archive_name (Suc n) # ys"
    using log_names_adjacent(1) [of "Suc n"] Suc.prems(1) by auto
  note bytes = rename_keeps_bytes [OF step names Suc.prems(2)] and files = rename_files [OF step, of ROTATING] rename_files [OF step, of ACTIVE]
  show ?case
  proof (cases r1)
    case (Inl e)
    then show ?thesis
      using Suc.prems(3) step bytes files by auto
  next
    case (Inr u)
    then have "\<not> file_exists (archive_name (Suc n)) l1"
      using rename_frees [of env "archive_name (Suc n)" "archive_name (Suc (Suc n))" l] step by simp
    with Suc.IH [of l1] Suc.prems Inr step bytes files show ?thesis
      by auto
  qed
qed auto

lemma place_keeps_bytes:
  assumes "place_rotating env free l = (r, l')" "free \<in> {1..5}" "\<not> file_exists (archive_name free) l"
  shows "log_bytes l' = log_bytes l \<and> lg_files l' ACTIVE = lg_files l ACTIVE
    \<and> (r = Inr () \<longrightarrow> \<not> file_exists ROTATING l' \<and> \<not> lg_unfinished l')"
proof -
  obtain r1 l1 where shift: "shift_archives env (free - 1) l = (r1, l1)"
    by fastforce
  have "free - 1 \<le> 4" "Suc (free - 1) = free"
    using assms(2) by auto
  then have one: "log_bytes l1 = log_bytes l" "lg_files l1 ACTIVE = lg_files l ACTIVE"
    "r1 = Inr () \<longrightarrow> \<not> file_exists (archive_name 1) l1"
    using shift_keeps_bytes [OF _ _ shift] assms(3) by auto
  show ?thesis
  proof (cases r1)
    case (Inl e)
    then show ?thesis
      using assms(1) shift one by (auto simp: place_rotating_def)
  next
    case (Inr u)
    obtain r2 l2 where ren: "fs_rename env ROTATING (archive_name 1) l1 = (r2, l2)"
      by fastforce
    obtain xs ys where "log_names = xs @ archive_name 1 # ROTATING # ys"
      using log_names_adjacent(2) by auto
    then have "log_bytes l2 = log_bytes l1" "lg_files l2 ACTIVE = lg_files l1 ACTIVE"
      "r2 = Inr () \<longrightarrow> \<not> file_exists ROTATING l2"
      using rename_keeps_bytes [OF ren] rename_files [OF ren, of ACTIVE] one(3) Inr ren
        rename_frees [of env ROTATING "archive_name 1" l1] archive_name_other(1) [of 1]
      by (auto simp: file_exists_def simp del: One_nat_def)
    moreover have "log_bytes (l2\<lparr>lg_unfinished := False\<rparr>) = log_bytes l2"
      by (rule log_bytes_cong) simp
    ultimately show ?thesis
      using assms(1) shift Inr ren one
      by (auto simp: place_rotating_def file_exists_def split: sum.splits)
  qed
qed

lemma finish_keeps_bytes:
  assumes "finish_rotation env l = (r, l')"
  shows "loses_oldest l l' \<and> lg_files l' ACTIVE = lg_files l ACTIVE
    \<and> (r = Inr () \<longrightarrow> \<not> file_exists ROTATING l' \<and> \<not> lg_unfinished l')"
proof (cases "find (\<lambda>n. \<not> file_exists (archive_name n) l) [1..<ARCHIVES + 1]")
  case (Some free)
  then have "free \<in> {1..5}" "\<not> file_exists (archive_name free) l"
    by (auto simp: find_Some_iff ARCHIVES_def nth_upt simp del: upt_Suc)
  with Some assms place_keeps_bytes [of env free l r l'] show ?thesis
    by (simp add: finish_rotation_def loses_oldest_def)
next
  case None
  then have all: "\<forall>n \<in> {1..ARCHIVES}. file_exists (archive_name n) l"
    by (auto simp: find_None_iff simp del: upt_Suc)
  obtain r1 l1 where rm: "fs_remove env (archive_name ARCHIVES) l = (r1, l1)"
    by fastforce
  have active: "lg_files l1 ACTIVE = lg_files l ACTIVE"
    using rm archive_name_other(2) [of ARCHIVES]
    by (auto simp: fs_remove_def next_op_def split: option.splits)
  show ?thesis
  proof (cases r1)
    case (Inl e)
    then have "lg_files l1 = lg_files l"
      using rm by (auto simp: fs_remove_def next_op_def split: option.splits)
    then have "log_bytes l1 = log_bytes l"
      by (intro log_bytes_cong) (simp add: content_def)
    with None assms rm Inl active show ?thesis
      by (auto simp: finish_rotation_def loses_oldest_def)
  next
    case (Inr u)
    then have files: "lg_files l1 = (lg_files l)(archive_name 5 := None)"
      using rm by (auto simp: fs_remove_def next_op_def ARCHIVES_def split: option.splits)
    have "log_bytes l = content (archive_name 5) l @ log_bytes l1"
      by (simp add: log_bytes_def log_names_def content_def files)
    with None assms rm Inr active files all place_keeps_bytes [of env ARCHIVES l1 r l'] show ?thesis
      by (auto simp: finish_rotation_def loses_oldest_def ARCHIVES_def file_exists_def)
  qed
qed

lemma reopen_content: "content n (snd (reopen env l)) = content n l"
  by (simp add: reopen_def Let_def content_def next_op_def split: option.splits)

lemma snd_case_result [simp]:
  "snd (case x of (Inl e, l) \<Rightarrow> (Inl (g e), l) | (Inr u, l) \<Rightarrow> (Inr (), l)) = snd x"
  by (simp split: prod.splits sum.splits)

lemma reopen_files: "n \<noteq> ACTIVE \<Longrightarrow> lg_files (snd (reopen env l)) n = lg_files l n"
  by (simp add: reopen_def Let_def next_op_def split: option.splits)

lemma reopen_active: "reopen env l = (Inr u, l') \<Longrightarrow> lg_active l' \<and> lg_size l' = length (content ACTIVE l')"
  by (auto simp: reopen_def Let_def split: option.splits)

lemma move_keeps_bytes:
  assumes "\<not> file_exists ROTATING l" "move_active env l = (r, l')"
  shows "log_bytes l' = log_bytes l \<and> lg_files l' (archive_name n) = lg_files l (archive_name n)"
proof -
  obtain r1 l1 where ren: "fs_rename env ACTIVE ROTATING (l\<lparr>lg_active := False\<rparr>) = (r1, l1)"
    by fastforce
  obtain xs ys where names: "log_names = xs @ ROTATING # ACTIVE # ys"
    using log_names_adjacent(3) by auto
  have same: "log_bytes (l\<lparr>lg_active := False\<rparr>) = log_bytes l"
    by (rule log_bytes_cong) simp
  have "log_bytes l1 = log_bytes l"
    using rename_keeps_bytes [OF ren names] assms(1) same by (simp add: file_exists_def)
  moreover have "log_bytes (snd (reopen env l1)) = log_bytes l1"
    by (rule log_bytes_cong) (rule reopen_content)
  moreover have "log_bytes (l2\<lparr>lg_unfinished := True\<rparr>) = log_bytes l2" for l2
    by (rule log_bytes_cong) simp
  moreover have "lg_files (snd (reopen env l1)) (archive_name n) = lg_files l (archive_name n)"
    using reopen_files [of "archive_name n" env l1] rename_files [OF ren, of "archive_name n"] by simp
  ultimately show ?thesis
    using assms(2) ren by (auto simp: move_active_def split_beta split: sum.splits prod.splits)
qed

lemma rotate_loses_oldest: "loses_oldest l (snd (rotate env l))"
proof (cases "file_exists ROTATING l")
  case True
  then show ?thesis
    using finish_keeps_bytes [of env l] by (cases "finish_rotation env l") (auto simp: rotate_def)
next
  case False
  obtain r1 l1 where move: "move_active env l = (r1, l1)"
    by fastforce
  note kept = move_keeps_bytes [OF False move]
  show ?thesis
  proof (cases r1)
    case (Inl e)
    with False move kept show ?thesis
      by (simp add: rotate_def loses_oldest_def)
  next
    case (Inr u)
    obtain r2 l2 where fin: "finish_rotation env l1 = (r2, l2)"
      by fastforce
    have "content (archive_name n) l1 = content (archive_name n) l"
      "file_exists (archive_name n) l1 = file_exists (archive_name n) l" for n
      using kept by (simp_all add: content_def file_exists_def)
    with False move Inr fin finish_keeps_bytes [OF fin] kept show ?thesis
      by (auto simp: rotate_def loses_oldest_def)
  qed
qed

text \<open>
  Claim C6. Whatever file operations fail during a rotation, no logged byte is
  lost or reordered: read from the oldest archive to the active file, the log
  is unchanged, or, when all five archives existed, has lost exactly the
  oldest of them.
\<close>

theorem rotation_keeps_log: "loses_oldest l (snd (rotate env l))"
  by (rule rotate_loses_oldest)

lemma loses_oldest_bytes: "loses_oldest l l1 \<Longrightarrow> log_bytes l2 = log_bytes l1 \<Longrightarrow> loses_oldest l l2"
  by (simp add: loses_oldest_def)

lemma rotate_if_due_loses_oldest: "loses_oldest l (snd (rotate_if_due env len l))"
proof -
  obtain r1 l1 where rot: "rotate env l = (r1, l1)"
    by fastforce
  have base: "loses_oldest l l1" "loses_oldest l l"
    using rotate_loses_oldest [of l env] rot by (simp_all add: loses_oldest_def)
  have "log_bytes (l1\<lparr>lg_rotation_failing := f\<rparr>) = log_bytes l1" for f
    by (rule log_bytes_cong) simp
  moreover have "log_bytes (snd (reopen env (l1\<lparr>lg_rotation_failing := f\<rparr>))) = log_bytes l1" for f
    using reopen_content by (intro log_bytes_cong) simp
  ultimately have upd: "loses_oldest l (l1\<lparr>lg_rotation_failing := f\<rparr>)"
    "loses_oldest l (snd (reopen env (l1\<lparr>lg_rotation_failing := f\<rparr>)))" for f
    using base(1) loses_oldest_bytes by blast+
  show ?thesis
  proof (cases r1)
    case (Inl e)
    with base(2) upd rot show ?thesis
      by (simp add: rotate_if_due_def Let_def)
  next
    case (Inr u)
    with base(2) upd rot show ?thesis
      by (simp add: rotate_if_due_def Let_def)
  qed
qed

section \<open>Records are written whole\<close>

definition log_ok :: "rotating_log \<Rightarrow> bool" where
  "log_ok l \<longleftrightarrow> (lg_active l \<longrightarrow> lg_size l = length (content ACTIVE l))"

definition same_status :: "rotating_log \<Rightarrow> rotating_log \<Rightarrow> bool" where
  "same_status l l' \<longleftrightarrow> lg_active l' = lg_active l \<and> lg_size l' = lg_size l \<and> lg_failed l' = lg_failed l"

lemma same_status_trans: "same_status l l1 \<Longrightarrow> same_status l1 l2 \<Longrightarrow> same_status l l2"
  by (simp add: same_status_def)

lemma fs_same_status:
  "fs_rename env a b l = (r, l') \<Longrightarrow> same_status l l'" "fs_remove env a l = (r, l') \<Longrightarrow> same_status l l'"
  by (auto simp: fs_rename_def fs_remove_def next_op_def same_status_def split: option.splits)

lemma shift_same_status: "shift_archives env n l = (r, l') \<Longrightarrow> same_status l l'"
proof (induction n arbitrary: l)
  case (Suc n)
  then show ?case
    by (auto dest!: fs_same_status(1) split: prod.splits sum.splits intro: same_status_trans)
qed (simp add: same_status_def)

lemma place_same_status: "place_rotating env n l = (r, l') \<Longrightarrow> same_status l l'"
  by (auto simp: place_rotating_def split: prod.splits sum.splits
      dest!: shift_same_status fs_same_status(1)) (auto simp: same_status_def)

lemma finish_same_status: "finish_rotation env l = (r, l') \<Longrightarrow> same_status l l'"
  by (auto simp: finish_rotation_def split: prod.splits sum.splits option.splits
      dest!: place_same_status fs_same_status(2) intro: same_status_trans)

lemma finish_log_ok: "finish_rotation env l = (r, l') \<Longrightarrow> log_ok l \<Longrightarrow> log_ok l'"
  using finish_same_status [of env l r l'] finish_keeps_bytes [of env l r l']
  by (simp add: log_ok_def same_status_def content_def)

lemma reopen_log_ok: "reopen env l = (r, l') \<Longrightarrow> log_ok l' \<and> lg_failed l' = lg_failed l"
  by (auto simp: reopen_def Let_def log_ok_def next_op_def split: option.splits if_splits)

lemma move_log_ok:
  assumes "move_active env l = (r, l')"
  shows "log_ok l' \<and> lg_failed l' = lg_failed l"
proof -
  obtain r1 l1 where ren: "fs_rename env ACTIVE ROTATING (l\<lparr>lg_active := False\<rparr>) = (r1, l1)"
    by fastforce
  obtain r2 l2 where re: "reopen env l1 = (r2, l2)"
    by fastforce
  have "lg_failed l1 = lg_failed l"
    using fs_same_status(1) [OF ren] by (simp add: same_status_def)
  with assms ren re reopen_log_ok [OF re] show ?thesis
    by (auto simp: move_active_def log_ok_def split: sum.splits)
qed

lemma rotate_log_ok:
  assumes "rotate env l = (r, l')" "log_ok l"
  shows "log_ok l' \<and> lg_failed l' = lg_failed l"
proof (cases "file_exists ROTATING l")
  case True
  with assms finish_log_ok finish_same_status [of env l r l'] show ?thesis
    by (auto simp: rotate_def same_status_def)
next
  case False
  obtain r1 l1 where move: "move_active env l = (r1, l1)"
    by fastforce
  with False assms move_log_ok [OF move] finish_log_ok [of env l1 r l'] finish_same_status [of env l1 r l']
  show ?thesis
    by (auto simp: rotate_def same_status_def split: sum.splits)
qed

lemma rotate_if_due_log_ok:
  assumes "log_ok l"
  shows "log_ok (snd (rotate_if_due env len l)) \<and> lg_failed (snd (rotate_if_due env len l)) = lg_failed l"
proof -
  obtain r1 l1 where rot: "rotate env l = (r1, l1)"
    by fastforce
  note ok = rotate_log_ok [OF rot assms]
  then have upd: "log_ok (l1\<lparr>lg_rotation_failing := f\<rparr>)" for f
    by (simp add: log_ok_def)
  have re: "log_ok (snd (reopen env (l1\<lparr>lg_rotation_failing := f\<rparr>)))"
    "lg_failed (snd (reopen env (l1\<lparr>lg_rotation_failing := f\<rparr>))) = lg_failed l" for f
    using reopen_log_ok [of env "l1\<lparr>lg_rotation_failing := f\<rparr>"] ok
    by (cases "reopen env (l1\<lparr>lg_rotation_failing := f\<rparr>)"; simp)+
  show ?thesis
  proof (cases r1)
    case (Inl e)
    with assms ok upd re rot show ?thesis
      by (simp add: rotate_if_due_def Let_def)
  next
    case (Inr u)
    with assms ok upd rot show ?thesis
      by (simp add: rotate_if_due_def Let_def)
  qed
qed

lemma log_bytes_snoc:
  assumes "\<And>n. n \<noteq> ACTIVE \<Longrightarrow> content n l' = content n l" "content ACTIVE l' = content ACTIVE l @ t"
  shows "log_bytes l' = log_bytes l @ t"
  using assms by (simp add: log_bytes_def log_names_def)

lemma append_raw_cases:
  assumes "append_raw env s l = (r, l')"
  obtains (ok) "r = Inr ()" "lg_active l" "lg_active l'" "content ACTIVE l' = content ACTIVE l @ s"
      "log_bytes l' = log_bytes l @ s" "lg_size l' = lg_size l" "lg_failed l' = lg_failed l"
    | (inactive) e where "r = Inl e" "\<not> lg_active l" "l' = l"
    | (torn) e k where "r = Inl e" "lg_active l" "content ACTIVE l' = content ACTIVE l @ take k s"
      "log_bytes l' = log_bytes l @ take k s" "lg_size l' = lg_size l" "lg_failed l' = lg_failed l"
proof (cases "lg_active l")
  case False
  with assms show ?thesis
    by (intro inactive [of "''no active log file''"]) (simp_all add: append_raw_def)
next
  case True
  let ?w = "\<lambda>t. (next_op l)\<lparr>lg_files := (lg_files l)(ACTIVE := Some (content ACTIVE l @ t))\<rparr>"
  have w: "log_bytes (?w t) = log_bytes l @ t" for t
    by (rule log_bytes_snoc) (auto simp: content_def)
  show ?thesis
  proof (cases "fe_fault env (lg_ops l)")
    case None
    with True assms w [of s] show ?thesis
      by (intro ok) (auto simp: append_raw_def next_op_def)
  next
    case (Some k)
    with True assms w [of "take k s"] show ?thesis
      by (intro torn [of "fe_error env (lg_ops l)" k]) (auto simp: append_raw_def next_op_def)
  qed
qed

text \<open>A torn record is closed by a newline before it is written again.\<close>

definition torn_part :: "string \<Rightarrow> string \<Rightarrow> bool" where
  "torn_part line part \<longleftrightarrow> part = [] \<or> (\<exists>k. part = take k line @ [nl])"

lemma retry_append_ok:
  assumes "retry_append env record l = (Inr u, l')"
  shows "\<exists>part. part \<in> {[], [nl]} \<and> log_bytes l' = log_bytes l @ part @ record @ [nl]
    \<and> (part = [] \<longleftrightarrow> length (content ACTIVE l) \<le> lg_size l) \<and> lg_active l'
    \<and> lg_size l' + length record + 1 = length (content ACTIVE l') \<and> lg_failed l' = lg_failed l"
proof -
  obtain l1 where re: "reopen env l = (Inr (), l1)"
    using assms by (auto simp: retry_append_def Let_def split: prod.splits sum.splits)
  have l1: "lg_active l1" "lg_size l1 = length (content ACTIVE l1)" "lg_failed l1 = lg_failed l"
    "content ACTIVE l1 = content ACTIVE l" "log_bytes l1 = log_bytes l"
    using reopen_active [OF re] reopen_log_ok [OF re] reopen_content [of _ env l] re
    by (auto intro: log_bytes_cong)
  show ?thesis
  proof (cases "lg_size l < lg_size l1")
    case False
    then have "append_raw env (record @ [nl]) l1 = (Inr u, l')"
      using assms re by (simp add: retry_append_def append_record_def Let_def)
    then show ?thesis
      by (cases rule: append_raw_cases) (use False l1 in auto)
  next
    case True
    obtain l2 where nl: "append_raw env [nl] l1 = (Inr (), l2)"
      using assms re True by (auto simp: retry_append_def Let_def split: prod.splits sum.splits)
    let ?l3 = "l2\<lparr>lg_size := lg_size l2 + 1\<rparr>"
    have rec: "append_raw env (record @ [nl]) ?l3 = (Inr u, l')"
      using assms re True nl by (simp add: retry_append_def append_record_def Let_def)
    have l3: "log_bytes ?l3 = log_bytes l2"
      by (rule log_bytes_cong) simp
    from nl have l2: "log_bytes l2 = log_bytes l1 @ [nl]" "content ACTIVE l2 = content ACTIVE l1 @ [nl]"
      "lg_size l2 = lg_size l1" "lg_failed l2 = lg_failed l1"
      by (cases rule: append_raw_cases; simp)+
    from rec show ?thesis
      by (cases rule: append_raw_cases) (use True l1 l2 l3 in auto)
  qed
qed

lemma write_record_spec:
  assumes "log_ok l" "\<not> lg_failed (write_record env record l)"
  defines "rec \<equiv> within_record env record l"
  shows "\<exists>l1 part. loses_oldest l l1 \<and> torn_part (rec @ [nl]) part
    \<and> log_bytes (write_record env record l) = log_bytes l1 @ part @ rec @ [nl]
    \<and> log_ok (write_record env record l)"
proof -
  have nf: "\<not> lg_failed l"
    using assms(2) by (auto simp: write_record_def)
  obtain r1 l1 where rot: "rotate_if_due env (length rec + 1) l = (r1, l1)"
    by fastforce
  have ok1: "log_ok l1" "\<not> lg_failed l1" "loses_oldest l l1"
    using rotate_if_due_log_ok [OF assms(1), of env "length rec + 1"] rotate_if_due_loses_oldest [of l env "length rec + 1"]
      rot nf by auto
  obtain u where r1: "r1 = Inr u"
    using assms(2) rot nf by (cases r1) (auto simp: write_record_def rec_def Let_def fail_def)
  obtain r2 l2 where app: "append_raw env (rec @ [nl]) l1 = (r2, l2)"
    by fastforce
  have eq: "write_record env record l =
     (case r2 of Inr _ \<Rightarrow> l2\<lparr>lg_size := lg_size l2 + (length rec + 1)\<rparr>
      | Inl first \<Rightarrow>
          (case retry_append env rec l2 of
             (Inl second, l3) \<Rightarrow> fail (''write: '' @ first @ ''; after reopening: '' @ second) l3
           | (Inr _, l3) \<Rightarrow> l3\<lparr>lg_size := lg_size l3 + (length rec + 1)\<rparr>))"
    unfolding write_record_def Let_def append_record_def rec_def [symmetric] by (simp add: nf rot [simplified] r1 app)
  have bytes: "log_bytes (l3\<lparr>lg_size := s\<rparr>) = log_bytes l3" for l3 s
    by (rule log_bytes_cong) simp
  show ?thesis
  proof (cases "\<exists>u. r2 = Inr u")
    case True
    from app have "log_bytes l2 = log_bytes l1 @ rec @ [nl]
        \<and> lg_size l2 + (length rec + 1) = length (content ACTIVE l2)"
      by (cases rule: append_raw_cases) (use True ok1(1) in \<open>auto simp: log_ok_def\<close>)
    with True eq ok1 bytes show ?thesis
      by (intro exI [of _ l1] exI [of _ "[]"]) (auto simp: log_ok_def torn_part_def)
  next
    case False
    then obtain first where r2: "r2 = Inl first"
      by (cases r2) auto
    obtain l3 where retry: "retry_append env rec l2 = (Inr (), l3)"
      using assms(2) eq r2 by (cases "retry_append env rec l2"; cases "fst (retry_append env rec l2)") (auto simp: fail_def)
    obtain k where torn: "log_bytes l2 = log_bytes l1 @ take k (rec @ [nl])"
      "length (content ACTIVE l2) \<le> lg_size l2 \<longrightarrow> take k (rec @ [nl]) = []"
      using app
    proof (cases rule: append_raw_cases)
      case (inactive e)
      then show ?thesis
        by (intro that [of 0]) auto
    next
      case (torn e k)
      then have "length (content ACTIVE l2) = lg_size l2 + length (take k (rec @ [nl]))"
        using ok1(1) by (simp add: log_ok_def del: take_append length_take)
      then have "length (content ACTIVE l2) \<le> lg_size l2 \<longrightarrow> take k (rec @ [nl]) = []"
        by (simp del: take_append length_take)
      with torn(4) show ?thesis
        by (rule that)
    next
      case ok
      with r2 have False
        by simp
      then show ?thesis ..
    qed
    obtain part where part: "part \<in> {[], [nl]}" "log_bytes l3 = log_bytes l2 @ part @ rec @ [nl]"
      "part = [] \<longleftrightarrow> length (content ACTIVE l2) \<le> lg_size l2"
      "lg_size l3 + length rec + 1 = length (content ACTIVE l3)"
      using retry_append_ok [OF retry] by auto
    have "torn_part (rec @ [nl]) (take k (rec @ [nl]) @ part)"
      using part(1,3) torn(2) by (auto simp: torn_part_def)
    with eq r2 retry ok1 bytes torn(1) part(2,4) show ?thesis
      by (intro exI [of _ l1] exI [of _ "take k (rec @ [nl]) @ part"]) (auto simp: log_ok_def)
  qed
qed



section \<open>Input in pieces\<close>

lemma take_bytes_append: "take_bytes (s @ t) l = take_bytes t (take_bytes s l)"
  by (auto simp: take_bytes_def Let_def)

text \<open>
  The log does not depend on how its input is cut: writing two
  pieces one after the other is writing them together, wherever the cut falls.
\<close>

lemma write_in_pieces: "log_write env (s @ t) l = log_write env t (log_write env s l)"
proof (induction env s l rule: log_write.induct)
  case (1 env s l)
  show ?case
  proof (cases "dropWhile (\<lambda>c. c \<noteq> nl) s")
    case Nil
    then have s: "\<forall>c \<in> set s. c \<noteq> nl"
      by (simp add: dropWhile_eq_Nil_conv)
    then have one: "log_write env s l = take_bytes s l"
      by (simp add: log_write.simps [of env s] Nil)
    have cut: "dropWhile (\<lambda>c. c \<noteq> nl) (s @ t) = dropWhile (\<lambda>c. c \<noteq> nl) t"
      "takeWhile (\<lambda>c. c \<noteq> nl) (s @ t) = s @ takeWhile (\<lambda>c. c \<noteq> nl) t"
      using s by (simp_all add: dropWhile_append2 takeWhile_append2)
    show ?thesis
      unfolding one log_write.simps [of env "s @ t"] log_write.simps [of env t] cut take_bytes_append
      by (rule refl)
  next
    case (Cons c rest)
    then have "\<not> (\<forall>c \<in> set s. c \<noteq> nl)"
      using dropWhile_eq_Nil_conv [of "\<lambda>c. c \<noteq> nl" s] by auto
    then have cut: "dropWhile (\<lambda>c. c \<noteq> nl) (s @ t) = c # rest @ t"
      "takeWhile (\<lambda>c. c \<noteq> nl) (s @ t) = takeWhile (\<lambda>c. c \<noteq> nl) s"
      using Cons by (auto simp: dropWhile_append takeWhile_append)
    from 1 [OF Cons] show ?thesis
      by (simp add: log_write.simps [of env "s @ t"] log_write.simps [of env s] cut Cons)
  qed
qed

section \<open>The bounds\<close>

definition calm :: "log_env \<Rightarrow> bool" where
  "calm env \<longleftrightarrow> (\<forall>k. fe_fault env k = None) \<and> (\<forall>k. length (fe_stamp env k) \<le> 1000)"

definition small :: "rotating_log \<Rightarrow> bool" where
  "small l \<longleftrightarrow> (\<forall>n. length (content n l) \<le> MAX_FILE_BYTES)"

definition bounded_log :: "rotating_log \<Rightarrow> bool" where
  "bounded_log l \<longleftrightarrow> small l \<and> log_ok l \<and> lg_active l \<and> file_exists ACTIVE l \<and> \<not> lg_unfinished l \<and> \<not> file_exists ROTATING l
     \<and> \<not> lg_failed l \<and> lg_rotation_failing l = None"

lemma calm_rename:
  assumes "calm env" "file_exists a l" "a \<noteq> b"
  shows "\<exists>l'. fs_rename env a b l = (Inr (), l') \<and> lg_files l' = (lg_files l)(a := None, b := lg_files l a)
    \<and> same_status l l' \<and> lg_unfinished l' = lg_unfinished l \<and> lg_rotation_failing l' = lg_rotation_failing l"
  using assms by (auto simp: calm_def fs_rename_def file_exists_def same_status_def next_op_def)

lemma calm_remove:
  assumes "calm env" "file_exists a l"
  shows "\<exists>l'. fs_remove env a l = (Inr (), l') \<and> lg_files l' = (lg_files l)(a := None) \<and> same_status l l'"
  using assms by (auto simp: calm_def fs_remove_def file_exists_def same_status_def next_op_def)

lemma small_moved:
  "small l \<Longrightarrow> lg_files l' = (lg_files l)(a := None, b := lg_files l a) \<Longrightarrow> small l'"
  by (auto simp: small_def content_def split: option.splits)

lemma calm_shift:
  "calm env \<Longrightarrow> \<forall>m \<in> {1..n}. file_exists (archive_name m) l \<Longrightarrow> small l \<Longrightarrow>
   \<exists>l'. shift_archives env n l = (Inr (), l') \<and> small l' \<and> same_status l l'
     \<and> lg_files l' ROTATING = lg_files l ROTATING \<and> lg_files l' ACTIVE = lg_files l ACTIVE
     \<and> lg_rotation_failing l' = lg_rotation_failing l"
proof (induction n arbitrary: l)
  case (Suc n)
  obtain l1 where ren: "fs_rename env (archive_name (Suc n)) (archive_name (Suc (Suc n))) l = (Inr (), l1)"
    and files: "lg_files l1 = (lg_files l)(archive_name (Suc n) := None, archive_name (Suc (Suc n)) := lg_files l (archive_name (Suc n)))"
    and st: "same_status l l1" "lg_rotation_failing l1 = lg_rotation_failing l"
    using calm_rename [OF Suc.prems(1), of "archive_name (Suc n)" l "archive_name (Suc (Suc n))"] Suc.prems(2) by auto
  have "\<forall>m \<in> {1..n}. file_exists (archive_name m) l1"
    using Suc.prems(2) files by (auto simp: file_exists_def)
  with Suc.IH [OF Suc.prems(1), of l1] small_moved [OF Suc.prems(3) files] ren st files show ?case
    by (auto intro: same_status_trans)
qed (auto simp: same_status_def)

lemma calm_place:
  assumes "calm env" "\<forall>m \<in> {1..<free}. file_exists (archive_name m) l" "0 < free" "small l" "file_exists ROTATING l"
  shows "\<exists>l'. place_rotating env free l = (Inr (), l') \<and> small l' \<and> same_status l l'
    \<and> lg_files l' ACTIVE = lg_files l ACTIVE \<and> \<not> file_exists ROTATING l' \<and> \<not> lg_unfinished l'"
proof -
  have "\<forall>m \<in> {1..free - 1}. file_exists (archive_name m) l"
    using assms(2) by auto
  then obtain l1 where shift: "shift_archives env (free - 1) l = (Inr (), l1)" "small l1" "same_status l l1"
    "lg_files l1 ROTATING = lg_files l ROTATING" "lg_files l1 ACTIVE = lg_files l ACTIVE"
    using calm_shift [OF assms(1) _ assms(4)] by blast
  then obtain l2 where ren: "fs_rename env ROTATING (archive_name 1) l1 = (Inr (), l2)"
    "lg_files l2 = (lg_files l1)(ROTATING := None, archive_name 1 := lg_files l1 ROTATING)" "same_status l1 l2"
    using calm_rename [OF assms(1), of ROTATING l1 "archive_name 1"] assms(5) by (auto simp: file_exists_def)
  have "small (l2\<lparr>lg_unfinished := False\<rparr>)"
    using small_moved [OF shift(2) ren(2)] by (simp add: small_def)
  with shift ren show ?thesis
    by (auto simp: place_rotating_def same_status_def file_exists_def)
qed

lemma calm_finish:
  assumes "calm env" "small l" "file_exists ROTATING l"
  shows "\<exists>l'. finish_rotation env l = (Inr (), l') \<and> small l' \<and> same_status l l'
    \<and> lg_files l' ACTIVE = lg_files l ACTIVE \<and> \<not> file_exists ROTATING l' \<and> \<not> lg_unfinished l'"
proof (cases "find (\<lambda>n. \<not> file_exists (archive_name n) l) [1..<ARCHIVES + 1]")
  case (Some free)
  then obtain i where i: "i < ARCHIVES" "free = [1..<ARCHIVES + 1] ! i"
    "\<forall>j<i. file_exists (archive_name ([1..<ARCHIVES + 1] ! j)) l"
    by (auto simp: find_Some_iff simp del: upt_Suc)
  then have free: "free = Suc i"
    by (simp add: nth_upt del: upt_Suc)
  have below: "\<forall>m \<in> {1..<free}. file_exists (archive_name m) l"
  proof
    fix m
    assume "m \<in> {1..<free}"
    then have "m - 1 < i" "[1..<ARCHIVES + 1] ! (m - 1) = m"
      using free i(1) by (auto simp: nth_upt simp del: upt_Suc)
    with i(3) show "file_exists (archive_name m) l"
      by metis
  qed
  with Some free calm_place [OF assms(1) below _ assms(2,3)] show ?thesis
    by (simp add: finish_rotation_def)
next
  case None
  then have all: "\<forall>m \<in> {1..<ARCHIVES + 1}. file_exists (archive_name m) l"
    by (auto simp: find_None_iff simp del: upt_Suc)
  obtain l1 where rm: "fs_remove env (archive_name ARCHIVES) l = (Inr (), l1)"
    and files: "lg_files l1 = (lg_files l)(archive_name ARCHIVES := None)" and st: "same_status l l1"
    using calm_remove [OF assms(1), of "archive_name ARCHIVES" l] all by (auto simp: ARCHIVES_def)
  have "\<forall>m \<in> {1..<ARCHIVES}. file_exists (archive_name m) l1" "file_exists ROTATING l1" "small l1" "0 < ARCHIVES"
    using all assms(2,3) files by (auto simp: file_exists_def small_def content_def ARCHIVES_def)
  with None rm files st calm_place [OF assms(1), of ARCHIVES l1] show ?thesis
    by (fastforce simp: finish_rotation_def intro: same_status_trans)
qed

lemma calm_rotate:
  assumes "calm env" "bounded_log l"
  shows "\<exists>l'. rotate env l = (Inr (), l') \<and> small l' \<and> lg_active l' \<and> lg_size l' = 0 \<and> \<not> lg_failed l'
    \<and> lg_files l' ACTIVE = Some [] \<and> \<not> file_exists ROTATING l' \<and> \<not> lg_unfinished l'"
proof -
  note b = assms(2) [unfolded bounded_log_def]
  let ?l0 = "l\<lparr>lg_active := False\<rparr>"
  obtain l1 where ren: "fs_rename env ACTIVE ROTATING ?l0 = (Inr (), l1)"
    and files: "lg_files l1 = (lg_files l)(ACTIVE := None, ROTATING := lg_files l ACTIVE)" and st: "same_status ?l0 l1"
    using calm_rename [OF assms(1), of ACTIVE ?l0 ROTATING] b by (auto simp: file_exists_def)
  have small1: "small l1"
    using small_moved [of l l1 ACTIVE ROTATING] b files by simp
  obtain l2 where re: "reopen env l1 = (Inr (), l2)" "lg_files l2 = (lg_files l1)(ACTIVE := Some [])"
    "lg_active l2" "lg_size l2 = 0" "\<not> lg_failed l2"
    using assms(1) files st b
    by (auto simp: reopen_def Let_def calm_def content_def next_op_def same_status_def)
  let ?l3 = "l2\<lparr>lg_unfinished := True\<rparr>"
  have "small ?l3" "file_exists ROTATING ?l3"
    using small1 re(2) files b by (auto simp: small_def content_def file_exists_def split: option.splits)
  then obtain l4 where "finish_rotation env ?l3 = (Inr (), l4)" "small l4" "same_status ?l3 l4"
    "lg_files l4 ACTIVE = Some []" "\<not> file_exists ROTATING l4" "\<not> lg_unfinished l4"
    using calm_finish [OF assms(1), of ?l3] re(2) by auto
  with b ren re show ?thesis
    by (simp add: rotate_def move_active_def same_status_def)
qed

lemma oversized_record_length:
  "length (oversized_record stamp n) + 1 \<le> MAX_RECORD_BYTES" if "length stamp \<le> 1000" "n < 10 ^ 20"
proof -
  have "length (dec MAX_RECORD_BYTES) \<le> 5"
    by (rule length_dec) (simp_all add: MAX_RECORD_BYTES_def)
  moreover have "length (dec n) \<le> 20"
    using that(2) by (intro length_dec) simp_all
  ultimately show ?thesis
    using that(1) by (simp add: oversized_record_def dquote_def MAX_RECORD_BYTES_def)
qed

lemma within_record_length:
  assumes "calm env" "length record < 10 ^ 20"
  shows "length (within_record env record l) + 1 \<le> MAX_RECORD_BYTES"
  using assms oversized_record_length [of "fe_stamp env (lg_ops l)" "length record"]
  by (simp add: within_record_def calm_def)

lemma calm_write_record:
  assumes "calm env" "bounded_log l" "length record < 10 ^ 20"
  shows "bounded_log (write_record env record l)"
proof -
  note b = assms(2) [unfolded bounded_log_def]
  define rec where "rec = within_record env record l"
  have len: "length rec + 1 \<le> MAX_RECORD_BYTES"
    unfolding rec_def using assms(1,3) by (rule within_record_length)
  obtain l1 where l1: "rotate_if_due env (length rec + 1) l = (Inr (), l1)" "small l1" "lg_active l1"
    "lg_size l1 = length (content ACTIVE l1)" "lg_size l1 + length rec + 1 \<le> MAX_FILE_BYTES" "\<not> lg_failed l1"
    "file_exists ACTIVE l1" "\<not> file_exists ROTATING l1" "\<not> lg_unfinished l1" "lg_rotation_failing l1 = None"
  proof (cases "0 < lg_size l \<and> MAX_FILE_BYTES < lg_size l + (length rec + 1)")
    case False
    then have "lg_size l + length rec + 1 \<le> MAX_FILE_BYTES"
      using len by (auto simp: MAX_FILE_BYTES_def MAX_RECORD_BYTES_def)
    with False b show ?thesis
      by (intro that [of l]) (auto simp: rotate_if_due_def log_ok_def)
  next
    case True
    obtain l2 where "rotate env l = (Inr (), l2)" "small l2" "lg_active l2" "lg_size l2 = 0" "\<not> lg_failed l2"
      "lg_files l2 ACTIVE = Some []" "\<not> file_exists ROTATING l2" "\<not> lg_unfinished l2"
      using calm_rotate [OF assms(1,2)] by blast
    with True b len show ?thesis
      by (intro that [of "l2\<lparr>lg_rotation_failing := None\<rparr>"])
        (auto simp: rotate_if_due_def small_def content_def file_exists_def MAX_FILE_BYTES_def MAX_RECORD_BYTES_def)
  qed
  let ?l2 = "(next_op l1)\<lparr>lg_files := (lg_files l1)(ACTIVE := Some (content ACTIVE l1 @ rec @ [nl]))\<rparr>"
  have "append_record env rec l1 = (Inr (), ?l2)"
    using assms(1) l1(3) by (simp add: append_record_def append_raw_def calm_def)
  then have "write_record env record l = ?l2\<lparr>lg_size := lg_size ?l2 + (length rec + 1)\<rparr>"
    unfolding write_record_def Let_def rec_def [symmetric] using b by (simp add: l1(1) [simplified])
  then show ?thesis
    using l1 by (auto simp: bounded_log_def log_ok_def small_def next_op_def file_exists_def content_def split: option.splits)
qed

lemma bounded_log_lines [simp]:
  "bounded_log (l\<lparr>lg_pending := p\<rparr>) = bounded_log l" "bounded_log (l\<lparr>lg_line_len := k\<rparr>) = bounded_log l"
  "bounded_log (l\<lparr>lg_discarding := d\<rparr>) = bounded_log l"
  by (simp_all add: bounded_log_def small_def log_ok_def file_exists_def)

lemma take_bytes_bounded [simp]: "bounded_log (take_bytes s l) = bounded_log l"
  by (simp add: take_bytes_def Let_def)

lemma take_bytes_line:
  "lg_line_len (take_bytes s l) = lg_line_len l + length s"
  "length (lg_pending l) \<le> lg_line_len l \<Longrightarrow> length (lg_pending (take_bytes s l)) \<le> lg_line_len l + length s"
  by (simp_all add: take_bytes_def Let_def)

lemma end_line_bounded:
  assumes "calm env" "bounded_log l" "length (lg_pending l) \<le> lg_line_len l" "lg_line_len l < 10 ^ 20"
  shows "bounded_log (end_line env l)"
proof -
  have "length (fe_stamp env (lg_ops l)) \<le> 1000"
    using assms(1) by (simp add: calm_def)
  from oversized_record_length [OF this assms(4)]
  have "length (oversized_record (fe_stamp env (lg_ops l)) (lg_line_len l)) < 10 ^ 20"
    by (simp add: MAX_RECORD_BYTES_def)
  with assms show ?thesis
    by (auto simp: end_line_def Let_def intro!: calm_write_record)
qed

lemma log_write_bounded:
  "calm env \<Longrightarrow> bounded_log l \<Longrightarrow> length (lg_pending l) \<le> lg_line_len l \<Longrightarrow> lg_line_len l + length buf < 10 ^ 20 \<Longrightarrow>
   bounded_log (log_write env buf l)"
proof (induction env buf l rule: log_write.induct)
  case (1 env buf l)
  show ?case
  proof (cases "dropWhile (\<lambda>c. c \<noteq> nl) buf")
    case Nil
    with 1(3) show ?thesis
      unfolding log_write.simps [of env buf] Nil by simp
  next
    case (Cons c rest)
    let ?line = "takeWhile (\<lambda>c. c \<noteq> nl) buf"
    let ?l = "take_bytes ?line l"
    have len: "length buf = length ?line + 1 + length rest"
      using arg_cong [OF takeWhile_dropWhile_id [of "\<lambda>c. c \<noteq> nl" buf], of length] Cons by simp
    have "bounded_log (end_line env ?l)"
      using 1(2-5) len by (intro end_line_bounded) (simp_all add: take_bytes_line)
    moreover have "lg_pending (end_line env ?l) = []" "lg_line_len (end_line env ?l) = 0"
      by (simp_all add: end_line_def Let_def)
    ultimately have "bounded_log (log_write env rest (end_line env ?l))"
      using 1(1) [OF Cons] 1(2,5) len by simp
    with Cons show ?thesis
      by (simp add: log_write.simps [of env buf])
  qed
qed

lemma log_open_empty:
  assumes "calm env"
  shows "\<exists>l. log_open env Map.empty = (Inr (), l) \<and> bounded_log l \<and> lg_pending l = [] \<and> lg_line_len l = 0"
  using assms
  by (simp add: log_open_def reopen_def calm_def next_op_def content_def MAX_FILE_BYTES_def bounded_log_def
    small_def log_ok_def file_exists_def ACTIVE_def ROTATING_def split: option.splits)

lemma bounded_log_bytes:
  assumes "bounded_log l"
  shows "length (log_bytes l) \<le> (ARCHIVES + 1) * MAX_FILE_BYTES"
proof -
  have "content ROTATING l = []"
    using assms by (simp add: bounded_log_def file_exists_def content_def)
  moreover have small: "length (content n l) \<le> MAX_FILE_BYTES" for n
    using assms by (simp add: bounded_log_def small_def)
  note small [of "archive_name 5"] small [of "archive_name 4"] small [of "archive_name 3"] small [of "archive_name 2"]
    small [of "archive_name 1"] small [of ACTIVE]
  ultimately show ?thesis
    by (simp add: log_bytes_def log_names_def ARCHIVES_def)
qed

text \<open>
  Claim C8. With a file system that does not fail, the log is bounded whatever
  is written to it: started on an empty directory, after any input no file
  exceeds the size of one file, the active file and its archives together hold
  at most six times that, no rotation is left half done and the log has not
  given up. The time stamp of a replaced record is assumed shorter than 1,000
  bytes and the input shorter than 10^20 bytes.
\<close>

theorem log_stays_bounded:
  assumes "calm env" "length buf < 10 ^ 20"
  shows "\<exists>l. log_open env Map.empty = (Inr (), l)
    \<and> (\<forall>n. length (content n (log_write env buf l)) \<le> MAX_FILE_BYTES)
    \<and> length (log_bytes (log_write env buf l)) \<le> (ARCHIVES + 1) * MAX_FILE_BYTES
    \<and> \<not> file_exists ROTATING (log_write env buf l) \<and> \<not> lg_failed (log_write env buf l)"
proof -
  obtain l where l: "log_open env Map.empty = (Inr (), l)" "bounded_log l" "lg_pending l = []" "lg_line_len l = 0"
    using log_open_empty [OF assms(1)] by blast
  then have b: "bounded_log (log_write env buf l)"
    using assms by (intro log_write_bounded) simp_all
  show ?thesis
    using l(1) bounded_log_bytes [OF b] b by (simp add: bounded_log_def small_def)
qed

text \<open>An environment in which nothing fails.\<close>

definition quiet_env :: log_env where
  "quiet_env = \<lparr>fe_fault = (\<lambda>_. None), fe_error = (\<lambda>_. []), fe_clock = id, fe_stamp = (\<lambda>_. ''2026-01-01T00:00:00Z'')\<rparr>"

lemma quiet_env_calm: "calm quiet_env"
  by (simp add: calm_def quiet_env_def)

theorem log_stays_bounded_witness:
  "\<exists>l. log_open quiet_env Map.empty = (Inr (), l)
    \<and> (\<forall>n. length (content n (log_write quiet_env (''first'' @ [nl] @ ''second'') l)) \<le> MAX_FILE_BYTES)"
  using log_stays_bounded [OF quiet_env_calm, of "''first'' @ [nl] @ ''second''"] by auto

section \<open>A rotation that is forgotten\<close>

text \<open>The moved file of an unfinished rotation is there, but the log does not remember the rotation.\<close>

definition forgotten :: "rotating_log \<Rightarrow> bool" where
  "forgotten l \<longleftrightarrow> log_ok l \<and> lg_active l \<and> \<not> lg_failed l \<and> file_exists ACTIVE l \<and> file_exists ROTATING l
     \<and> \<not> lg_unfinished l \<and> small l"

lemma write_record_appends:
  assumes "\<not> lg_failed l" "rotate_if_due env (length (within_record env r l) + 1) l = (Inr (), l1)" "lg_active l1"
    "fe_fault env (lg_ops l1) = None"
  shows "write_record env r l = (next_op l1)\<lparr>lg_files := (lg_files l1)(ACTIVE := Some (content ACTIVE l1 @ within_record env r l @ [nl])),
    lg_size := lg_size l1 + (length (within_record env r l) + 1)\<rparr>"
  using assms by (simp add: write_record_def Let_def append_record_def append_raw_def next_op_def [of l1])

lemma forgotten_keeps:
  assumes "calm env" "forgotten l" "lg_size l + length (within_record env r l) + 1 \<le> MAX_FILE_BYTES"
  shows "forgotten (write_record env r l)"
proof -
  have "rotate_if_due env (length (within_record env r l) + 1) l = (Inr (), l)"
    using assms(2,3) by (simp add: rotate_if_due_def forgotten_def)
  from write_record_appends [OF _ this] show ?thesis
    using assms by (auto simp: forgotten_def calm_def log_ok_def small_def file_exists_def next_op_def content_def
        split: option.splits)
qed

lemma forgotten_overflows:
  assumes "calm env" "forgotten l" "0 < lg_size l" "MAX_FILE_BYTES < lg_size l + length (within_record env r l) + 1"
  shows "MAX_FILE_BYTES < length (content ACTIVE (write_record env r l))"
proof -
  let ?len = "length (within_record env r l) + 1"
  have f: "small l" "file_exists ROTATING l" "lg_active l" "lg_size l = length (content ACTIVE l)" "\<not> lg_failed l"
    using assms(2) by (simp_all add: forgotten_def log_ok_def)
  obtain l1 where fin: "finish_rotation env l = (Inr (), l1)" "same_status l l1" "lg_files l1 ACTIVE = lg_files l ACTIVE"
    using calm_finish [OF assms(1) f(1,2)] by blast
  have "rotate env l = (Inr (), l1)"
    using fin(1) f(2) by (simp add: rotate_def)
  then have "rotate_if_due env ?len l \<in> {(Inr (), l), (Inr (), l1\<lparr>lg_rotation_failing := None\<rparr>)}"
    by (simp add: rotate_if_due_def Let_def)
  then obtain l2 where l2: "rotate_if_due env ?len l = (Inr (), l2)" "content ACTIVE l2 = content ACTIVE l" "lg_active l2"
    using fin(2,3) f(3) by (auto simp: same_status_def content_def)
  from write_record_appends [OF f(5) l2(1,3)] show ?thesis
    using assms(1,4) f(4) l2(2) by (simp add: calm_def)
qed

text \<open>One failure to open the new active file, in an otherwise working file system.\<close>

lemma failed_open_forgets:
  assumes "bounded_log l" "fe_fault env = (\<lambda>_. None)(lg_ops l + 1 := Some 0)" "0 < lg_rotation_retry_limit l"
    "0 < lg_size l" "MAX_FILE_BYTES < lg_size l + length (within_record env r l) + 1" "length (within_record env r l) + 1 \<le> MAX_RECORD_BYTES"
  shows "forgotten (write_record env r l)"
proof -
  let ?len = "length (within_record env r l) + 1"
  note b = assms(1) [unfolded bounded_log_def]
  obtain c where c: "lg_files l ACTIVE = Some c"
    using b by (auto simp: file_exists_def)
  define l1 where "l1 = l\<lparr>lg_active := False, lg_ops := lg_ops l + 2, lg_files := (lg_files l)(ACTIVE := None, ROTATING := Some c)\<rparr>"
  have "move_active env l = (Inl (fe_error env (lg_ops l + 1)), l1)"
    using assms(2) c by (simp add: move_active_def fs_rename_def reopen_def next_op_def l1_def)
  then have "rotate env l = (Inl (fe_error env (lg_ops l + 1)), l1)"
    using b by (simp add: rotate_def)
  then have due: "rotate_if_due env ?len l
    = (Inr (), l1\<lparr>lg_rotation_failing := Some (fe_clock env (lg_ops l), fe_clock env (lg_ops l)),
        lg_ops := lg_ops l + 3, lg_files := (lg_files l1)(ACTIVE := Some []), lg_active := True, lg_size := 0\<rparr>)"
    using assms(2-5) b by (simp add: rotate_if_due_def Let_def eval_nat_numeral l1_def reopen_def content_def next_op_def)
  have "c = content ACTIVE l"
    by (simp add: content_def c)
  with write_record_appends [OF _ due] show ?thesis
    using b assms(2,6)
    by (auto simp: forgotten_def l1_def log_ok_def small_def file_exists_def next_op_def content_def
        MAX_FILE_BYTES_def MAX_RECORD_BYTES_def split: option.splits)
qed

text \<open>
  Claim C9. When the active file was moved aside but the new one could not be
  opened once, the log goes on, but it has forgotten the rotation it began:
  the moved file is there and the flag that makes the next record finish the
  rotation is not set. It stays so for every record that fits, although
  nothing fails any more, and the record that no longer fits is appended
  without a rotation: the active file ends above the size of one file.
\<close>

theorem rotation_forgotten:
  assumes "bounded_log l" "fe_fault env = (\<lambda>_. None)(lg_ops l + 1 := Some 0)" "0 < lg_rotation_retry_limit l"
    "0 < lg_size l" "length r + 1 \<le> MAX_RECORD_BYTES" "MAX_FILE_BYTES < lg_size l + length r + 1"
  shows "forgotten (write_record env r l)
    \<and> (\<forall>env' l' r'. calm env' \<and> forgotten l' \<and> 0 < lg_size l' \<and> length r' + 1 \<le> MAX_RECORD_BYTES \<longrightarrow>
         (if lg_size l' + length r' + 1 \<le> MAX_FILE_BYTES then forgotten (write_record env' r' l')
          else MAX_FILE_BYTES < length (content ACTIVE (write_record env' r' l'))))"
proof -
  have fits: "within_record env' r' l' = r'" if "length r' + 1 \<le> MAX_RECORD_BYTES" for env' r' l'
    using that by (simp add: within_record_def)
  show ?thesis
    using assms failed_open_forgets [OF assms(1-4), of r] forgotten_keeps forgotten_overflows fits by auto
qed

text \<open>A log whose active file is full to the last byte.\<close>

definition full_log :: rotating_log where
  "full_log = \<lparr>lg_files = [ACTIVE \<mapsto> replicate MAX_FILE_BYTES CHR ''x''], lg_ops = 0, lg_active = True,
     lg_size = MAX_FILE_BYTES, lg_pending = [], lg_discarding = False, lg_line_len = 0, lg_failed = False,
     lg_on_failure = False, lg_reported = [], lg_rotation_failing = None,
     lg_rotation_retry_limit = ROTATION_RETRY_LIMIT, lg_unfinished = False\<rparr>"

lemma full_log_bounded: "bounded_log full_log"
  by (simp add: bounded_log_def full_log_def small_def log_ok_def content_def file_exists_def ROTATING_def ACTIVE_def)

theorem rotation_forgotten_witness:
  "forgotten (write_record (quiet_env\<lparr>fe_fault := (\<lambda>_. None)(1 := Some 0)\<rparr>) ''x'' full_log)"
  using rotation_forgotten [OF full_log_bounded, of "quiet_env\<lparr>fe_fault := (\<lambda>_. None)(1 := Some 0)\<rparr>" "''x''"]
  by (simp add: full_log_def ROTATION_RETRY_LIMIT_def secs_def MAX_FILE_BYTES_def MAX_RECORD_BYTES_def)

end
