(* ===== verification/Service_Log.thy ===== *)
theory Service_Log
  imports Custody Log_Rotation Service_Core
begin

text \<open>
  Where the service's log is kept (\<open>service/log_file.rs\<close>): the directories above
  it, created with their final security or checked, and the opener of a log
  file, over the store of \<open>Win_Store\<close>.
\<close>

definition LOG_DIRECTORY :: string where
  "LOG_DIRECTORY = ''O:SYD:P(A;OICI;FA;;;SY)(A;OICI;FR;;;BA)''"

definition LOG_FILE :: string where
  "LOG_FILE = ''O:SYD:P(A;;FA;;;SY)(A;;FR;;;BA)''"

definition ensure_log_directories :: "win_env \<Rightarrow> string \<Rightarrow> (string, unit) io" where
  "ensure_log_directories env program_data =
     (let product = win_join program_data ''CyberGuard'';
          agent = win_join product ''agent''
      in io_bind (ensure_directory env product PRIVATE_DIRECTORY policy_shared) (\<lambda>_.
         io_bind (ensure_directory env agent PRIVATE_DIRECTORY policy_shared) (\<lambda>_.
           ensure_directory env (win_join agent ''logs'') LOG_DIRECTORY policy_shared)))"

text \<open>\<open>CreateFileW\<close> with \<open>OPEN_ALWAYS\<close>: the file that is there, or a new one under the descriptor.\<close>

definition open_always_call :: "win_env \<Rightarrow> string \<Rightarrow> descriptor \<Rightarrow> (u32, bool) io" where
  "open_always_call env path d s =
     (if object_at path s \<noteq> None
      then (case we_fate env (st_ops s) of Done \<Rightarrow> (Inr True, tick s) | Win32 e _ \<Rightarrow> (Inl e, tick s))
      else case win_call env id (put_object (new_file env (st_ops s) path d [])) s of
             (Inr _, s1) \<Rightarrow> (Inr False, s1)
           | (Inl e, s1) \<Rightarrow> (Inl e, s1))"

unbundle bit_operations_syntax

definition open_log_file :: "win_env \<Rightarrow> string \<Rightarrow> (string, u64) io" where
  "open_log_file env path =
     io_bind (io_lift (from_sddl env LOG_FILE)) (\<lambda>d.
     io_bind (io_map_err (\<lambda>e. ''open '' @ path @ '': '' @ win32 e) (open_always_call env path d)) (\<lambda>existed s.
       case object_at path s of
         None \<Rightarrow> (Inl (path @ '' does not exist''), s)
       | Some handle \<Rightarrow>
           io_bind (file_information env handle path) (\<lambda>info.
           io_bind (io_lift (guard (fi_attributes info AND (FILE_ATTRIBUTE_REPARSE_POINT OR FILE_ATTRIBUTE_DIRECTORY) = 0)
                      (path @ '' is not a regular file''))) (\<lambda>_.
           io_bind (io_lift (guard (fi_links info = 1) (path @ '' is hard-linked''))) (\<lambda>_.
           io_bind (if existed then check_security env handle path policy_shared else io_lift (Inr ())) (\<lambda>_.
             io_lift (Inr (of_nat (length (ob_bytes handle)))))))) s))"

definition open_service_log :: "win_env \<Rightarrow> log_env \<Rightarrow> (string, string) result \<Rightarrow> (string \<Rightarrow> string option) \<Rightarrow> (string, rotating_log) io" where
  "open_service_log env lenv program_data files =
     io_bind (io_lift program_data) (\<lambda>pd.
     io_bind (ensure_log_directories env pd) (\<lambda>_.
     io_bind (open_log_file env (win_join (win_join (win_join (win_join pd ''CyberGuard'') ''agent'') ''logs'') ACTIVE)) (\<lambda>_.
       io_lift (case log_open lenv files of (Inl e, _) \<Rightarrow> Inl e | (Inr _, l) \<Rightarrow> Inr l))))"

section \<open>A log file that opened\<close>

text \<open>
  A log file that the opener hands out is a regular file with one name, and
  either it was there and passed the check of its security, or it is new,
  under the log's own descriptor.
\<close>

lemma open_always_cases:
  assumes "open_always_call env path d s = (Inr existed, s1)"
  shows "if existed then object_at path s \<noteq> None \<and> object_at path s1 = object_at path s
    else object_at path s = None \<and> object_at path s1 = Some (new_file env (st_ops s) path d [])"
  using assms
  by (auto simp: open_always_call_def win_call_def Let_def object_at_def put_object_def find_object_def new_file_def
      split: if_splits fate.splits)

lemma open_log_file_private:
  assumes "open_log_file env path s = (Inr len, s')"
  obtains handle s1 where "object_at path s1 = Some handle" "fi_links (ob_info handle) = 1"
    "fi_attributes (ob_info handle) AND (FILE_ATTRIBUTE_REPARSE_POINT OR FILE_ATTRIBUTE_DIRECTORY) = 0"
    "(object_at path s = Some handle \<and> check_descriptor env (ob_security handle) path policy_shared = Inr ())
     \<or> (object_at path s = None \<and> from_sddl env LOG_FILE = Inr (ob_security handle))"
proof -
  from assms obtain d existed s1 where d: "from_sddl env LOG_FILE = Inr d" and open_call: "open_always_call env path d s = (Inr existed, s1)"
    and rest: "(case object_at path s1 of
         None \<Rightarrow> (Inl (path @ '' does not exist''), s1)
       | Some handle \<Rightarrow>
           io_bind (file_information env handle path) (\<lambda>info.
           io_bind (io_lift (guard (fi_attributes info AND (FILE_ATTRIBUTE_REPARSE_POINT OR FILE_ATTRIBUTE_DIRECTORY) = 0)
                      (path @ '' is not a regular file''))) (\<lambda>_.
           io_bind (io_lift (guard (fi_links info = 1) (path @ '' is hard-linked''))) (\<lambda>_.
           io_bind (if existed then check_security env handle path policy_shared else io_lift (Inr ())) (\<lambda>_.
             io_lift (Inr (of_nat (length (ob_bytes handle)))))))) s1) = (Inr len, s')"
    by (auto simp: open_log_file_def store)
  obtain handle where handle: "object_at path s1 = Some handle"
    using rest by (cases "object_at path s1") auto
  with rest have "fi_links (ob_info handle) = 1"
    "fi_attributes (ob_info handle) AND (FILE_ATTRIBUTE_REPARSE_POINT OR FILE_ATTRIBUTE_DIRECTORY) = 0"
    "existed \<Longrightarrow> check_descriptor env (ob_security handle) path policy_shared = Inr ()"
    by (auto simp: store result file_information_def check_security_def security_of_def win_query_def split: fate.splits)
  with handle open_always_cases [OF open_call] d that show thesis
    by (cases existed) (auto simp: new_file_def)
qed

end
