(* ===== verification/Service_Run.thy ===== *)
theory Service_Run
  imports Agent_Run Service_Status Service_Log Migration_Props
begin

text \<open>
  The run of the Windows service (\<open>service/windows.rs\<close>) and of the console agent
  (\<open>main.rs\<close>): the checks before the lock, the migration, the log, the report
  that the service runs, the identity and the secure run, with the deadline
  that the supervisor keeps. The store, the lock, the sessions, the status and
  the Application log are the world of a run.
\<close>

section \<open>The world of a run\<close>

record world =
  wd_store :: store
  wd_host :: host
  wd_sessions :: trace_sessions
  wd_status :: status
  wd_events :: "event_entry list"

record serve_env =
  sv_program_data :: "(string, string) result"
  sv_migration :: "installed_paths \<Rightarrow> migration_env"
  sv_lock :: lock_env
  sv_win :: win_env
  sv_libs :: agent_libs
  sv_toml_value :: "string \<Rightarrow> toml_error + toml_value"
  sv_toml_config :: "string \<Rightarrow> toml_error + agent_config"
  sv_log :: log_env
  sv_log_files :: "string \<Rightarrow> string option"
  sv_steps_at :: "instant list"
  sv_running_at :: instant
  sv_rounds :: "nat \<Rightarrow> duration \<times> (enrollment_error, enrolled_identity) result"
  sv_rounds_at :: instant
  sv_settled :: duration
  sv_stop_at :: "instant option"
  sv_secure :: secure_env

text \<open>A part of the run ends the service or goes on with a value.\<close>

type_synonym 'a svc = "world \<Rightarrow> (service_exit, 'a) result \<times> world"

definition svc_lift :: "(service_exit, 'a) result \<Rightarrow> 'a svc" where
  "svc_lift r w = (r, w)"

definition svc_bind :: "'a svc \<Rightarrow> ('a \<Rightarrow> 'b svc) \<Rightarrow> 'b svc" where
  "svc_bind m f w = (case m w of (Inl exit, w1) \<Rightarrow> (Inl exit, w1) | (Inr x, w1) \<Rightarrow> f x w1)"

definition on_store :: "('e \<Rightarrow> service_exit) \<Rightarrow> ('e, 'a) io \<Rightarrow> 'a svc" where
  "on_store ends m w = (case m (wd_store w) of (r, s) \<Rightarrow> (map_err ends r, w\<lparr>wd_store := s\<rparr>))"

abbreviation service_failed :: "u8 \<Rightarrow> string \<Rightarrow> service_exit" where
  "service_failed \<equiv> service_exit.Failed"

section \<open>The configuration\<close>

text \<open>
  \<open>Path::is_absolute\<close> on Windows: a drive with a root, a verbatim or device
  path, or a share of a server.
\<close>

definition is_absolute :: "string \<Rightarrow> bool" where
  "is_absolute path =
     (case path of
        c # d # e # rest \<Rightarrow>
          let server = takeWhile (\<lambda>x. \<not> separator x) (e # rest);
              after = drop (length server) (e # rest);
              share = takeWhile (\<lambda>x. \<not> separator x) (drop 1 after)
          in (d = CHR '':'' \<and> separator e \<and> (CHR ''A'' \<le> c \<and> c \<le> CHR ''Z'' \<or> CHR ''a'' \<le> c \<and> c \<le> CHR ''z''))
             \<or> take 4 path = [CHR 0x5C, CHR 0x5C, CHR ''?'', CHR 0x5C]
             \<or> (separator c \<and> separator d \<and> (server = ''.'' \<and> after \<noteq> [] \<or> server \<noteq> [] \<and> share \<noteq> []))
      | _ \<Rightarrow> False)"

definition read_installed_config :: "serve_env \<Rightarrow> string \<Rightarrow> string \<Rightarrow> (string, agent_config) io" where
  "read_installed_config e fixed config_path =
     (let refused = (\<lambda>reason. ''cg-agent: invalid config '' @ config_path @ '': '' @ reason)
      in io_bind (io_map_err refused (read_checked (sv_win e) fixed policy_configuration)) (\<lambda>bytes.
         io_bind (io_lift (ok_or (config_error_line config_path (NotFound config_path)) bytes)) (\<lambda>bytes.
         io_bind (io_lift (ok_or (refused ''the file is not UTF-8'') (from_utf8 bytes))) (\<lambda>text.
           io_lift (map_err (config_error_line config_path) (load_from_str (sv_toml_value e) (sv_toml_config e) text))))))"

definition canonicalize :: "installed_paths \<Rightarrow> agent_config \<Rightarrow> agent_config" where
  "canonicalize paths config =
     config\<lparr>ac_server := (ac_server config)\<lparr>sc_trust_anchor_path := Some (ip_trust_anchor paths)\<rparr>,
            ac_enrollment := map_option (\<lambda>enr. enr\<lparr>ec_cert_path := ip_cert paths, ec_key_path := ip_key paths,
                                ec_identity_path := ip_identity paths\<rparr>) (ac_enrollment config)\<rparr>"

section \<open>The lock\<close>

definition lock_refusal :: "lock_outcome \<Rightarrow> u8 \<times> string" where
  "lock_refusal outcome =
     (case lock_exit_code outcome of None \<Rightarrow> 1 | Some code \<Rightarrow> code, case lock_stderr_line outcome of None \<Rightarrow> [] | Some line \<Rightarrow> line)"

definition migration_lock :: "lock_outcome \<Rightarrow> (stop, unit) result" where
  "migration_lock outcome =
     (case outcome of
        Acquired \<Rightarrow> Inr ()
      | Unprivileged \<Rightarrow> Inl (StopRefused 1 (stderr_lock_failed ''the migration's token cannot create the lock'' 5))
      | _ \<Rightarrow> Inl (StopRefused (fst (lock_refusal outcome)) (snd (lock_refusal outcome))))"

definition take_lock :: "serve_env \<Rightarrow> pid \<Rightarrow> lock_outcome svc" where
  "take_lock e p w =
     (let h = acquire (sv_lock e) p (wd_host w)
      in (Inr (the (acquired_outcome p h)), w\<lparr>wd_host := h\<rparr>))"

text \<open>
  Whether the migration takes the lock: it does exactly where a lock that is
  refused with the code zero, which no refusal of its own has, is what ends it.
\<close>

definition asks_for_lock :: "migration_env \<Rightarrow> request option \<Rightarrow> store \<Rightarrow> bool" where
  "asks_for_lock me request s =
     (case fst (prepare me request (io_lift (Inl (StopRefused 0 []))) s) of Inl (StopRefused code _) \<Rightarrow> code = 0 | _ \<Rightarrow> False)"

definition stop_exit :: "stop \<Rightarrow> service_exit" where
  "stop_exit stop =
     (case stop of
        StopRefused code line \<Rightarrow> service_failed code line
      | Crashed \<Rightarrow> service_failed 1 ''cg-agent: the migration ended abnormally'')"

text \<open>The steps of a migration that has the lock keep the pending start advancing.\<close>

definition report_steps :: "serve_env \<Rightarrow> lock_outcome \<Rightarrow> unit svc" where
  "report_steps e outcome w =
     (Inr (), if outcome = Acquired then w\<lparr>wd_status := fold progress (sv_steps_at e) (wd_status w)\<rparr> else w)"

definition serve_migration :: "serve_env \<Rightarrow> installed_paths \<Rightarrow> request option \<Rightarrow> pid \<Rightarrow> (prepared \<times> bool) svc" where
  "serve_migration e paths request p w =
     (let me = sv_migration e paths
      in if asks_for_lock me request (wd_store w)
         then svc_bind (take_lock e p) (\<lambda>outcome.
              svc_bind (report_steps e outcome) (\<lambda>_.
              svc_bind (on_store stop_exit (prepare me request (io_lift (migration_lock outcome)))) (\<lambda>prepared.
                svc_lift (Inr (prepared, True))))) w
         else svc_bind (on_store stop_exit (prepare me request (io_lift (Inl Crashed)))) (\<lambda>prepared.
                svc_lift (Inr (prepared, False))) w)"

section \<open>The parts of the run\<close>

definition serve_arguments :: "serve_env \<Rightarrow> string \<Rightarrow> string list \<Rightarrow> (service_exit, installed_paths \<times> request option) result" where
  "serve_arguments e config_path arguments =
     and_then (guard (is_absolute config_path) (service_failed 2 STDERR_RELATIVE_CONFIG)) (\<lambda>_.
     and_then (map_err (\<lambda>reason. service_failed 1 (''cg-agent: '' @ reason)) (sv_program_data e)) (\<lambda>program_data.
       let paths = paths_under program_data
       in and_then (map_err (service_failed 2) (check_config_path paths config_path)) (\<lambda>_.
          and_then (map_err (service_failed 2) (parse_start_arguments arguments)) (\<lambda>request. Inr (paths, request)))))"

definition serve_config :: "serve_env \<Rightarrow> installed_paths \<Rightarrow> string \<Rightarrow> prepared \<Rightarrow> agent_config svc" where
  "serve_config e paths config_path prepared =
     (let refused = (\<lambda>line. service_failed 2 (if prepared = ConsoleLayout then line @ ''; '' @ DEFAULT_REFUSAL else line))
      in svc_bind (on_store refused (read_installed_config e (ip_config paths) config_path)) (\<lambda>config.
         svc_bind (svc_lift (map_err refused (check_installed_config paths config_path config))) (\<lambda>_.
           svc_lift (Inr (canonicalize paths config)))))"

definition serve_lock :: "serve_env \<Rightarrow> bool \<Rightarrow> pid \<Rightarrow> bool svc" where
  "serve_lock e held p =
     (if held then svc_lift (Inr True)
      else svc_bind (take_lock e p) (\<lambda>outcome. svc_lift
        (case outcome of
           Acquired \<Rightarrow> Inr True
         | Unprivileged \<Rightarrow> Inr False
         | _ \<Rightarrow> Inl (service_failed (fst (lock_refusal outcome)) (snd (lock_refusal outcome))))))"

definition serve_log :: "serve_env \<Rightarrow> rotating_log svc" where
  "serve_log e =
     svc_bind (on_store (\<lambda>reason. service_failed EXIT_SERVICE_LOG (stderr_service_log reason))
       (open_service_log (sv_win e) (sv_log e) (sv_program_data e) (sv_log_files e))) (\<lambda>l.
       svc_lift (Inr (set_on_failure l)))"

definition report_running :: "serve_env \<Rightarrow> unit svc" where
  "report_running e w =
     (case running (sv_running_at e) (wd_status w) of
        (reported, st) \<Rightarrow>
          (Inr (), w\<lparr>wd_status := st, wd_events := wd_events w @ (if reported then [running_entry (rv_version (sv_secure e))] else [])\<rparr>))"

text \<open>The old copies are removed beside the run, under the lock; how that ends does not end the run.\<close>

definition remove_copies :: "serve_env \<Rightarrow> installed_paths \<Rightarrow> prepared \<Rightarrow> bool \<Rightarrow> unit svc" where
  "remove_copies e paths prepared has_lock w =
     (if prepared = Committed \<and> has_lock then (Inr (), w\<lparr>wd_store := snd (copies (sv_migration e paths) (wd_store w))\<rparr>) else (Inr (), w))"

definition check_identity_custody :: "serve_env \<Rightarrow> installed_paths \<Rightarrow> agent_config \<Rightarrow> unit svc" where
  "check_identity_custody e paths config =
     svc_bind (on_store (\<lambda>reason. service_failed 6 (tls_stderr_line (ClientConfig reason)))
       (custody_check (sv_win e) (ip_trust_anchor paths) File policy_configuration)) (\<lambda>_.
       on_store (\<lambda>err. service_failed (enrollment_exit_code err) (enrollment_stderr_line err))
         (installed_check (sv_win e) config (custody_system paths)))"

text \<open>
  A round of the identity step: the time of its requests and what enrollment
  answers are the environment's. A stop that comes while the last round stores
  the identity is seen once the step has returned, after \<open>sv_settled\<close>.
\<close>

definition identity_round ::
    "serve_env \<Rightarrow> installed_paths \<Rightarrow> agent_config \<Rightarrow> nat \<Rightarrow> store \<Rightarrow> duration \<times> (enrollment_error, agent_id_value) result \<times> store" where
  "identity_round e paths config i s =
     (case sv_rounds e i of
        (took, enrolled) \<Rightarrow>
          (took, installed_ensure (sv_win e) (sv_libs e) enrolled config (ip_config paths) (custody_system paths) s))"

definition has_stopped :: "serve_env \<Rightarrow> instant \<Rightarrow> bool" where
  "has_stopped e now = (case sv_stop_at e of Some t \<Rightarrow> t \<le> now | None \<Rightarrow> False)"

text \<open>The identity, or how the service ends without one; none while the rounds go on.\<close>

definition serve_identity ::
    "serve_env \<Rightarrow> installed_paths \<Rightarrow> agent_config \<Rightarrow> world \<Rightarrow> ((service_exit, agent_id_value) result \<times> world) option" where
  "serve_identity e paths config w =
     map_option (\<lambda>(res, ended, s).
         (case res of
            None \<Rightarrow> Inl (Clean 0)
          | Some (Inl err) \<Rightarrow> Inl (service_failed (enrollment_exit_code err) (enrollment_stderr_line err))
          | Some (Inr identity) \<Rightarrow> if has_stopped e (ended + sv_settled e) then Inl (Clean 0) else Inr identity,
          w\<lparr>wd_store := s\<rparr>))
       (identity_rounds (identity_round e paths config) (sv_stop_at e) ENROLLMENT_ROUND_WAIT 0 (sv_rounds_at e) (wd_store w))"

definition run_exit :: "(agent_error, stop_outcome \<times> instant) result \<Rightarrow> service_exit" where
  "run_exit res =
     (case res of
        Inl err \<Rightarrow> service_failed (agent_exit_code err) (agent_stderr_line err)
      | Inr (Completed lost, _) \<Rightarrow> Clean lost
      | Inr (stop_outcome.DeadlineExpired at_work lost, _) \<Rightarrow> service_exit.DeadlineExpired at_work (Some lost))"

definition serve_secure ::
    "serve_env \<Rightarrow> agent_config \<Rightarrow> agent_id_value \<Rightarrow> bool \<Rightarrow> pid \<Rightarrow> world \<Rightarrow> (service_exit \<times> world) option" where
  "serve_secure e config identity has_lock p w =
     map_option (\<lambda>(res, s). (run_exit res, w\<lparr>wd_sessions := s\<rparr>))
       (run_secure_within (case sv_stop_at e of Some t \<Rightarrow> (sv_secure e)\<lparr>rv_signal := t\<rparr> | None \<Rightarrow> sv_secure e) (config\<lparr>ac_agent := (ac_agent config)\<lparr>ai_id := id_agent_id identity\<rparr>\<rparr>) identity
          (Platform has_lock) (Some STOP_BUDGET) p (wd_sessions w))"

definition serve_start ::
    "serve_env \<Rightarrow> string \<Rightarrow> string list \<Rightarrow> pid \<Rightarrow> (installed_paths \<times> agent_config \<times> bool) svc" where
  "serve_start e config_path arguments p =
     svc_bind (svc_lift (serve_arguments e config_path arguments)) (\<lambda>(paths, request).
     svc_bind (serve_migration e paths request p) (\<lambda>(prepared, held).
     svc_bind (serve_config e paths config_path prepared) (\<lambda>config.
     svc_bind (serve_lock e held p) (\<lambda>has_lock.
     svc_bind (serve_log e) (\<lambda>_.
     svc_bind (report_running e) (\<lambda>_.
     svc_bind (remove_copies e paths prepared has_lock) (\<lambda>_.
     svc_bind (check_identity_custody e paths config) (\<lambda>_.
       svc_lift (Inr (paths, config, has_lock))))))))))"

text \<open>The guard of the lock is dropped when the run returns.\<close>

definition release_lock :: "pid \<Rightarrow> world \<Rightarrow> world" where
  "release_lock p w = w\<lparr>wd_host := drop_step p (drop_step p (wd_host w))\<rparr>"

definition serve :: "serve_env \<Rightarrow> string \<Rightarrow> string list \<Rightarrow> pid \<Rightarrow> world \<Rightarrow> (service_exit \<times> world) option" where
  "serve e config_path arguments p w =
     (case serve_start e config_path arguments p w of
        (Inl exit, w1) \<Rightarrow> Some (exit, release_lock p w1)
      | (Inr (paths, config, has_lock), w1) \<Rightarrow>
          (case serve_identity e paths config w1 of
             None \<Rightarrow> None
           | Some (Inl exit, w2) \<Rightarrow> Some (exit, release_lock p w2)
           | Some (Inr identity, w2) \<Rightarrow>
               map_option (\<lambda>(exit, w3). (exit, release_lock p w3)) (serve_secure e config identity has_lock p w2)))"

section \<open>The supervisor and the service's main function\<close>

datatype joined = Returned service_exit | Panicked | Cancelled

fun joined_exit :: "joined \<Rightarrow> service_exit" where
  "joined_exit (Returned exit) = exit"
| "joined_exit Panicked = service_failed 1 ''cg-agent: the service run ended abnormally (panic)''"
| "joined_exit Cancelled = service_failed 1 ''cg-agent: the service run ended abnormally (cancelled)''"

text \<open>
  The run as a task, with the instant at which it ends, if it does, beside the
  watchdog; the run is polled first. The result is the exit and its instant.
\<close>

definition supervise :: "(instant \<times> joined) option \<Rightarrow> instant option \<Rightarrow> string option \<Rightarrow> (service_exit \<times> instant) option" where
  "supervise run_task stop failed_log =
     (let watchdog = map_option (\<lambda>t. t + STOP_DEADLINE) stop;
          expired = service_exit.DeadlineExpired PENDING_UNKNOWN None
      in map_option (\<lambda>(exit, ended). (with_log_failure exit failed_log, ended))
           (case run_task of
              Some (ended, joined) \<Rightarrow>
                (case watchdog of
                   Some t \<Rightarrow> if ended \<le> t then Some (joined_exit joined, ended) else Some (expired, t)
                 | None \<Rightarrow> Some (joined_exit joined, ended))
            | None \<Rightarrow> map_option (\<lambda>t. (expired, t)) watchdog))"

text \<open>
  The service's main function: whether the handler registers and the runtime
  starts, the supervised run with what it does to the status and to the
  Application log, and when it begins and ends. Without a handler the process
  ends with code 1 and no status.
\<close>

definition service_main ::
    "(u32, unit) result \<Rightarrow> (string, unit) result \<Rightarrow> instant \<Rightarrow> (status \<Rightarrow> service_exit \<times> status \<times> event_entry list) \<Rightarrow> instant
     \<Rightarrow> u8 option \<times> status option \<times> event_entry list" where
  "service_main handler runtime begun supervised ended =
     (case handler of
        Inl error \<Rightarrow>
          (Some 1, None, [exit_entry (service_failed 1
             (''cg-agent: the service could not register its control handler: Win32 error '' @ dec (unat error)))])
      | Inr () \<Rightarrow>
          let st = start_pending begun (status_new begun);
              (exit, st', entries) =
                (case runtime of
                   Inl err \<Rightarrow> (service_failed 1 (''cg-agent: the service runtime failed: '' @ err), st, [])
                 | Inr () \<Rightarrow> supervised st)
          in (None, Some (stopped ended (specific_code exit) st'), entries @ [exit_entry exit]))"

definition ERROR_FAILED_SERVICE_CONTROLLER_CONNECT :: u32 where
  "ERROR_FAILED_SERVICE_CONTROLLER_CONNECT = 1063"

text \<open>The dispatcher's answer to the process, as its exit code and its line.\<close>

definition service_run :: "(u32, unit) result \<Rightarrow> u8 \<times> string list" where
  "service_run dispatcher =
     (case dispatcher of
        Inr () \<Rightarrow> (0, [])
      | Inl error \<Rightarrow>
          if error = ERROR_FAILED_SERVICE_CONTROLLER_CONNECT then (EXIT_NOT_STARTED_BY_SCM, [STDERR_NOT_STARTED_BY_SCM])
          else (1, [''cg-agent: the service dispatcher failed: Win32 error '' @ dec (unat error)]))"

section \<open>The console agent\<close>

record console_env =
  cs_config :: "bool \<times> (string, string) result"
  cs_toml_value :: "string \<Rightarrow> toml_error + toml_value"
  cs_toml_config :: "string \<Rightarrow> toml_error + agent_config"
  cs_lock :: lock_env
  cs_win :: win_env
  cs_libs :: agent_libs
  cs_sids :: acl_sids
  cs_enrolled :: "(enrollment_error, enrolled_identity) result"
  cs_secure :: secure_env
  cs_plain :: run_env
  cs_iterations :: nat

record ending =
  en_code :: u8
  en_logged :: "string list"
  en_stderr :: "string list"

definition report_lock_outcome :: "lock_outcome \<Rightarrow> ending" where
  "report_lock_outcome outcome =
     (let line = the (lock_stderr_line outcome)
      in \<lparr>en_code = the (lock_exit_code outcome), en_logged = [line], en_stderr = [line]\<rparr>)"

definition report_agent_error :: "agent_error \<Rightarrow> ending" where
  "report_agent_error err =
     \<lparr>en_code = agent_exit_code err,
      en_logged = (case err of EtwErr _ \<Rightarrow> [agent_stderr_line err] | LogonErr _ \<Rightarrow> [agent_stderr_line err] | _ \<Rightarrow> []),
      en_stderr = [agent_stderr_line err]\<rparr>"

definition ends_quietly :: ending where
  "ends_quietly = \<lparr>en_code = 0, en_logged = [], en_stderr = []\<rparr>"

text \<open>The secure path under the lock that \<open>acquire\<close> has answered for.\<close>

definition console_secure :: "console_env \<Rightarrow> string \<Rightarrow> agent_config \<Rightarrow> bool \<Rightarrow> pid \<Rightarrow> world \<Rightarrow> (ending \<times> world) option" where
  "console_secure e config_path config has_lock p w =
     (case ensure_identity (cs_win e) (cs_libs e) (cs_sids e) (cs_enrolled e) config config_path (wd_store w) of
        (Inl err, s) \<Rightarrow>
          Some (\<lparr>en_code = enrollment_exit_code err, en_logged = [], en_stderr = [enrollment_stderr_line err]\<rparr>, w\<lparr>wd_store := s\<rparr>)
      | (Inr identity, s) \<Rightarrow>
          map_option (\<lambda>(res, sessions).
              (case res of Inl err \<Rightarrow> report_agent_error err | Inr _ \<Rightarrow> ends_quietly, w\<lparr>wd_store := s, wd_sessions := sessions\<rparr>))
            (run_secure (cs_secure e) (config\<lparr>ac_agent := (ac_agent config)\<lparr>ai_id := id_agent_id identity\<rparr>\<rparr>) identity
               (Platform has_lock) p (wd_sessions w)))"

text \<open>
  The plain path, up to a number of iterations of its loop. It ends, always
  well, once it has handed out the envelope that says it goes offline.
\<close>

definition console_plain :: "console_env \<Rightarrow> agent_config \<Rightarrow> heartbeat_envelope list" where
  "console_plain e config =
     run (cs_iterations e)
       ((cs_plain e)\<lparr>re_agent := \<lparr>ab_agent_id = ai_id (ac_agent config), ab_agent_version = rv_version (cs_secure e),
           ab_agent_platform = detect_platform (rv_os (cs_secure e)), ab_agent_hostname = ai_hostname (ac_agent config)\<rparr>,
         re_interval := secs (unat (hb_interval_seconds (ac_heartbeat config)))\<rparr>)"

definition console :: "console_env \<Rightarrow> string \<Rightarrow> pid \<Rightarrow> world \<Rightarrow> (ending \<times> world) option" where
  "console e config_path p w =
     (case load_from_path (cs_toml_value e) (cs_toml_config e) config_path (fst (cs_config e)) (snd (cs_config e)) of
        Inl err \<Rightarrow> Some (\<lparr>en_code = 2, en_logged = [], en_stderr = [''cg-agent: invalid config: '' @ config_error_text err]\<rparr>, w)
      | Inr config \<Rightarrow>
          if sc_trust_anchor_path (ac_server config) \<noteq> None
          then let h = acquire (cs_lock e) p (wd_host w);
                   w1 = w\<lparr>wd_host := h\<rparr>;
                   outcome = the (acquired_outcome p h)
               in map_option (\<lambda>(ending, w2). (ending, release_lock p w2))
                    (case outcome of
                       Acquired \<Rightarrow> console_secure e config_path config True p w1
                     | Unprivileged \<Rightarrow> console_secure e config_path config False p w1
                     | _ \<Rightarrow> Some (report_lock_outcome outcome, w1))
          else if list_ex (\<lambda>envelope. he_status envelope = GoingOffline) (console_plain e config) then Some (ends_quietly, w)
          else None)"

text \<open>The process: the service when it is asked for, the console otherwise.\<close>

definition agent_main ::
    "bool \<Rightarrow> (u32, unit) result \<Rightarrow> (string, unit) result \<Rightarrow> console_env \<Rightarrow> string \<Rightarrow> pid \<Rightarrow> world \<Rightarrow> (ending \<times> world) option" where
  "agent_main service dispatcher runtime e config_path p w =
     (if service then (case service_run dispatcher of (code, lines) \<Rightarrow> Some (\<lparr>en_code = code, en_logged = [], en_stderr = lines\<rparr>, w))
      else case runtime of
             Inl err \<Rightarrow> Some (\<lparr>en_code = 1, en_logged = [], en_stderr = [''cg-agent: runtime failed: '' @ err]\<rparr>, w)
           | Inr () \<Rightarrow> console e config_path p w)"

section \<open>A lock that is refused\<close>

text \<open>A part that ends the migration without a change.\<close>

definition stops_quietly :: "('e, 'a) io \<Rightarrow> store \<Rightarrow> bool" where
  "stops_quietly m s \<longleftrightarrow> (\<exists>x s'. m s = (Inl x, s') \<and> st_objects s' = st_objects s)"

lemma stops_objects: "stops_quietly m s \<Longrightarrow> m s = (r, s') \<Longrightarrow> st_objects s = st_objects s'"
  by (auto simp: stops_quietly_def)

lemma stops_bind: "stops_quietly m s \<Longrightarrow> stops_quietly (io_bind m f) s"
  by (auto simp: stops_quietly_def io_bind_def)

lemma stops_after:
  assumes "steps (=) m" "\<And>x s1. m s = (Inr x, s1) \<Longrightarrow> stops_quietly (f x) s1"
  shows "stops_quietly (io_bind m f) s"
proof -
  obtain r s1 where m: "m s = (r, s1)"
    by fastforce
  with stepsD [OF assms(1)] have "st_objects s1 = st_objects s"
    by simp
  with m assms(2) show ?thesis
    by (cases r) (auto simp: stops_quietly_def io_bind_def)
qed

lemma stops_in_place: "stops_quietly (in_place e code line) s"
proof -
  obtain line' s1 where "with_state e line s = (line', s1)"
    by fastforce
  with stepsD [OF quiet_with_state] show ?thesis
    by (fastforce simp: stops_quietly_def in_place_def)
qed

lemma stops_lift: "stops_quietly (io_lift (Inl x)) s"
  by (simp add: stops_quietly_def io_lift_def)

lemma stops_catch: "stops_quietly (h x) s \<Longrightarrow> stops_quietly (io_catch (io_lift (Inl x)) h) s"
  by (simp add: stops_quietly_def io_catch_def io_lift_def)

lemma route_refused: "stops_quietly (route e q attempt (io_lift (Inl x))) s"
  unfolding route_def
  by (intro stops_bind stops_catch) (simp add: stops_in_place stops_lift split: stop.split)

lemma beside_refused: "stops_quietly (beside_a_console_layout e request (io_lift (Inl x))) s"
  unfolding beside_a_console_layout_def
  by (rule stops_after) (auto simp: nothing.catch route_refused stops_in_place split: option.split)

lemma between_refused: "stops_quietly (between_the_renames e request (io_lift (Inl x))) s"
  unfolding between_the_renames_def Let_def
  by (intro stops_after stops_bind [OF stops_lift]) (simp_all add: nothing.map_err nothing.lift)

text \<open>
  A start of the migration whose lock is refused changes nothing, and where it
  does not end, the lock was not asked for.
\<close>

lemma prepare_refused_quiet: "steps (=) (prepare e request (io_lift (Inl x)))"
proof (rule stepsI)
  fix s r s'
  assume "prepare e request (io_lift (Inl x)) s = (r, s')"
  then show "st_objects s = st_objects s'"
  proof (rule prepare_cases)
    fix s1
    have "steps (=) (committed e request)" "steps (=) (plain e request)"
      "steps (=) (io_bind (check_data_directories e True) (\<lambda>_. io_lift (Inr ConsoleLayout)))"
      unfolding committed_def plain_def by (intro quiet_rules; simp)+
    note same = stops_objects [OF between_refused] stops_objects [OF beside_refused] stops_objects [OF route_refused]
      stepsD [OF this(1)] stepsD [OF this(2)] stepsD [OF this(3)]
    assume "st_objects s1 = st_objects s"
      "(between_the_renames e request (io_lift (Inl x)) s1 = (r, s') \<or> committed e request s1 = (r, s'))
         \<and> content (legacy (me_paths e)) (st_objects s) \<noteq> None
       \<or> beside_a_console_layout e request (io_lift (Inl x)) s1 = (r, s') \<or> plain e request s1 = (r, s')
       \<or> (\<exists>q. request = Some q \<and> route e q Fresh (io_lift (Inl x)) s1 = (r, s'))
       \<or> request = None \<and> io_bind (check_data_directories e True) (\<lambda>_. io_lift (Inr ConsoleLayout)) s1 = (r, s')
       \<or> r = Inl (other_combination e) \<and> s' = s1"
    then have "st_objects s1 = st_objects s'"
      by (elim disjE conjE exE) (erule same | simp)+
    then show ?thesis
      by (simp add: \<open>st_objects s1 = st_objects s\<close>)
  qed
qed

lemma prepare_refused_Inr:
  assumes "prepare e request (io_lift (Inl x)) s = (Inr v, s')"
  shows "prepare e request lock s = (Inr v, s')"
proof -
  have "between_the_renames e request (io_lift (Inl x)) s1 \<noteq> (Inr v, s')" "beside_a_console_layout e request (io_lift (Inl x)) s1 \<noteq> (Inr v, s')"
    "route e q Fresh (io_lift (Inl x)) s1 \<noteq> (Inr v, s')" for s1 q
    using between_refused [of e request x s1] beside_refused [of e request x s1] route_refused [of e q Fresh x s1]
    by (auto simp: stops_quietly_def)
  with assms show ?thesis
    by (auto simp: prepare_def Let_def split_beta split: if_splits option.splits)
qed

lemma asked_and_refused:
  assumes "asks_for_lock me request s"
  shows "\<exists>stop s'. prepare me request (io_lift (Inl x)) s = (Inl stop, s')"
proof -
  have "prepare me request (io_lift (Inl x)) s \<noteq> (Inr v, s')" for v s'
    using prepare_refused_Inr [where lock = "io_lift (Inl (StopRefused 0 []))"] assms by (auto simp: asks_for_lock_def)
  then show ?thesis
    by (metis old.sum.exhaust prod.collapse)
qed

text \<open>While another process holds the lock, and with a token of which the lock is asked, \<open>acquire\<close> ends the start.\<close>

lemma lock_step_privileged:
  assumes "classify_token (le_token e) \<noteq> Ordinary" "ho_phase h p \<noteq> Decided Unprivileged" "ho_phase h p \<noteq> AtCloseNamespace Unprivileged"
  shows "ho_phase (lock_step e p h) p \<noteq> Decided Unprivileged \<and> ho_phase (lock_step e p h) p \<noteq> AtCloseNamespace Unprivileged"
  using assms by (cases "ho_phase h p") (auto simp: lock_steps split: sum.split token_class.split option.split)

lemma acquire_privileged:
  assumes "classify_token (le_token e) \<noteq> Ordinary"
  shows "acquired_outcome p (acquire e p h) \<noteq> Some Unprivileged"
proof -
  have "ho_phase ((lock_step e p ^^ n) (goto p AtToken h)) p \<noteq> Decided Unprivileged
      \<and> ho_phase ((lock_step e p ^^ n) (goto p AtToken h)) p \<noteq> AtCloseNamespace Unprivileged" for n
    by (induction n) (use lock_step_privileged [OF assms] in auto)
  from this [of 11] show ?thesis
    by (auto simp: acquire_def acquired_outcome_def split: lock_phase.splits)
qed

definition lock_refused :: "lock_env \<Rightarrow> pid \<Rightarrow> host \<Rightarrow> bool" where
  "lock_refused e p h \<longleftrightarrow> (\<exists>outcome. acquired_outcome p (acquire e p h) = Some outcome \<and> outcome \<noteq> Acquired \<and> outcome \<noteq> Unprivileged)"

lemma second_lock_refused:
  assumes "lock_moves\<^sup>*\<^sup>* quiet_host h" "holds_lock h q" "ho_phase h p = Outside" "classify_token (le_token e) \<noteq> Ordinary"
  shows "lock_refused e p h" "holds_lock (acquire e p h) q"
proof -
  have "p \<noteq> q"
    using assms(2,3) by (auto simp: holds_lock_def)
  then show holds: "holds_lock (acquire e p h) q"
    using assms(2) acquire_other [of q p e h] by (simp add: holds_lock_def)
  have "\<not> holds_lock (acquire e p h) p"
    using lock_inv_D(5) [OF reached_inv [OF rtranclp_trans [OF assms(1) acquire_moves [OF assms(3)]]] holds] \<open>p \<noteq> q\<close> by auto
  with acquire_decides [of p e h] acquire_privileged [OF assms(4), of p h] show "lock_refused e p h"
    by (auto simp: lock_refused_def holds_lock_def acquired_outcome_def split: lock_phase.splits)
qed

text \<open>What a start may have changed of the world that ends before its report.\<close>

definition unchanged :: "lock_env \<Rightarrow> pid \<Rightarrow> world \<Rightarrow> world \<Rightarrow> bool" where
  "unchanged le p w w' \<longleftrightarrow>
     st_objects (wd_store w') = st_objects (wd_store w) \<and> wd_sessions w' = wd_sessions w \<and> wd_status w' = wd_status w
     \<and> wd_events w' = wd_events w \<and> (wd_host w' = wd_host w \<or> wd_host w' = acquire le p (wd_host w))"

lemma on_store_unchanged:
  assumes "steps (=) m" "on_store ends m w = (r, w')"
  shows "unchanged le p w w' \<and> wd_host w' = wd_host w"
proof -
  obtain x s where m: "m (wd_store w) = (x, s)"
    by fastforce
  with stepsD [OF assms(1)] have "st_objects s = st_objects (wd_store w)"
    by simp
  with assms(2) m show ?thesis
    by (auto simp: on_store_def unchanged_def)
qed

lemma quiet_installed_config [simp]: "steps (=) (read_installed_config e fixed config_path)"
  unfolding read_installed_config_def Let_def by (intro quiet_rules) simp

lemma serve_config_unchanged:
  assumes "serve_config e paths config_path prepared w = (r, w')"
  shows "unchanged le p w w' \<and> wd_host w' = wd_host w \<and> (\<forall>exit. r = Inl exit \<longrightarrow> (\<exists>line. exit = service_failed 2 line))"
proof -
  let ?refused = "\<lambda>line. service_failed 2 (if prepared = ConsoleLayout then line @ ''; '' @ DEFAULT_REFUSAL else line)"
  obtain x w1 where read: "on_store ?refused (read_installed_config e (ip_config paths) config_path) w = (x, w1)"
    by fastforce
  then have "unchanged le p w w1 \<and> wd_host w1 = wd_host w"
    by (rule on_store_unchanged [OF quiet_installed_config])
  moreover have "\<And>exit. x = Inl exit \<Longrightarrow> \<exists>line. exit = service_failed 2 line"
    using read by (auto simp: on_store_def result split: prod.splits sum.splits)
  ultimately show ?thesis
    using assms read
    by (cases x) (auto simp: serve_config_def svc_bind_def svc_lift_def Let_def result split: sum.splits)
qed

lemma serve_migration_refused:
  assumes "lock_refused (sv_lock e) p (wd_host w)" "serve_migration e paths request p w = (r, w')"
  shows "unchanged (sv_lock e) p w w'
    \<and> (case r of Inl exit \<Rightarrow> \<exists>code line. exit = service_failed code line | Inr (prepared, held) \<Rightarrow> \<not> held \<and> wd_host w' = wd_host w)"
proof -
  let ?me = "sv_migration e paths" and ?h = "acquire (sv_lock e) p (wd_host w)"
  have "\<exists>code line. stop_exit x = service_failed code line" for x
    by (cases x) (auto simp: stop_exit_def)
  then have failed: "\<exists>code line. exit = service_failed code line" if "on_store stop_exit m v = (Inl exit, v')" for m v v' exit
    using that by (auto simp: on_store_def result split: prod.splits)
  show ?thesis
  proof (cases "asks_for_lock ?me request (wd_store w)")
    case True
    obtain outcome where outcome: "acquired_outcome p ?h = Some outcome" "outcome \<noteq> Acquired" "outcome \<noteq> Unprivileged"
      using assms(1) by (auto simp: lock_refused_def)
    then obtain x where x: "migration_lock outcome = Inl x"
      by (cases outcome) (auto simp: migration_lock_def)
    obtain stop s1 where stops: "prepare ?me request (io_lift (Inl x)) (wd_store w) = (Inl stop, s1)"
      using asked_and_refused [OF True] by blast
    then have "st_objects s1 = st_objects (wd_store w)"
      using stepsD [OF prepare_refused_quiet] by metis
    moreover have "r = Inl (stop_exit stop)" "w' = w\<lparr>wd_host := ?h, wd_store := s1\<rparr>"
      using assms(2) True outcome(1,2) x stops
      by (auto simp: serve_migration_def svc_bind_def take_lock_def report_steps_def on_store_def Let_def)
    ultimately show ?thesis
      by (simp add: unchanged_def stop_exit_def split: stop.split)
  next
    case False
    obtain y w1 where y: "on_store stop_exit (prepare ?me request (io_lift (Inl Crashed))) w = (y, w1)"
      by fastforce
    then have "unchanged (sv_lock e) p w w1 \<and> wd_host w1 = wd_host w"
      by (rule on_store_unchanged [OF prepare_refused_quiet])
    with y False assms(2) failed show ?thesis
      by (cases y) (auto simp: serve_migration_def svc_bind_def svc_lift_def Let_def)
  qed
qed

lemma serve_lock_refused:
  assumes "lock_refused (sv_lock e) p (wd_host w)"
  shows "\<exists>code line. serve_lock e False p w = (Inl (service_failed code line), w\<lparr>wd_host := acquire (sv_lock e) p (wd_host w)\<rparr>)"
  using assms
  by (auto simp: serve_lock_def svc_bind_def svc_lift_def take_lock_def lock_refused_def Let_def split: lock_outcome.split)

lemma serve_start_refused:
  assumes "lock_refused (sv_lock e) p (wd_host w)"
  shows "\<exists>code line w'. serve_start e config_path arguments p w = (Inl (service_failed code line), w') \<and> unchanged (sv_lock e) p w w'"
proof (cases "serve_arguments e config_path arguments")
  case (Inl exit)
  then have "\<exists>code line. exit = service_failed code line"
    by (auto simp: serve_arguments_def Let_def result)
  with Inl show ?thesis
    by (auto simp: serve_start_def svc_bind_def svc_lift_def unchanged_def)
next
  case (Inr start)
  then obtain paths request where args: "serve_arguments e config_path arguments = Inr (paths, request)"
    by (cases start) auto
  obtain m w1 where m: "serve_migration e paths request p w = (m, w1)"
    by fastforce
  note migration = serve_migration_refused [OF assms m]
  show ?thesis
  proof (cases m)
    case (Inl exit)
    with args m migration show ?thesis
      by (auto simp: serve_start_def svc_bind_def svc_lift_def)
  next
    case (Inr prepared_held)
    then obtain prepared where prepared: "m = Inr (prepared, False)" and host1: "wd_host w1 = wd_host w"
      using migration by (cases prepared_held) auto
    obtain c w2 where c: "serve_config e paths config_path prepared w1 = (c, w2)"
      by fastforce
    note config = serve_config_unchanged [OF c, of "sv_lock e" p]
    have w2: "unchanged (sv_lock e) p w w2" "wd_host w2 = wd_host w"
      using config migration host1 by (auto simp: unchanged_def)
    show ?thesis
    proof (cases c)
      case (Inl exit)
      with args m prepared c config w2 show ?thesis
        by (auto simp: serve_start_def svc_bind_def svc_lift_def)
    next
      case (Inr cfg)
      obtain code line where "serve_lock e False p w2 = (Inl (service_failed code line), w2\<lparr>wd_host := acquire (sv_lock e) p (wd_host w2)\<rparr>)"
        using serve_lock_refused [of e p w2] assms w2(2) by auto
      with args m prepared c Inr w2 show ?thesis
        by (auto simp: serve_start_def svc_bind_def svc_lift_def unchanged_def)
    qed
  qed
qed

lemma release_lock_refused:
  assumes "\<not> holds_lock (wd_host w) p" "ho_phase (wd_host w) p \<noteq> AtDropNamespace"
  shows "release_lock p w = w"
  using assms by (auto simp: release_lock_def drop_step_def holds_lock_def split: lock_phase.split lock_outcome.split)

lemma unchanged_released:
  assumes "lock_refused (sv_lock e) p (wd_host w)" "ho_phase (wd_host w) p = Outside" "unchanged (sv_lock e) p w w'"
  shows "release_lock p w' = w'"
  using assms by (intro release_lock_refused)
    (auto simp: unchanged_def lock_refused_def holds_lock_def acquired_outcome_def split: lock_phase.splits)


section \<open>What a start has settled\<close>

lemma svc_bind_Inr:
  "svc_bind m f w = (Inr y, w') \<longleftrightarrow> (\<exists>x w1. m w = (Inr x, w1) \<and> f x w1 = (Inr y, w'))"
  by (auto simp: svc_bind_def split: prod.splits sum.splits)

lemma svc_lift_Inr: "svc_lift r w = (Inr y, w') \<longleftrightarrow> r = Inr y \<and> w' = w"
  by (auto simp: svc_lift_def)

lemma on_store_Inr: "on_store ends m w = (Inr y, w') \<longleftrightarrow> (\<exists>s. m (wd_store w) = (Inr y, s) \<and> w' = w\<lparr>wd_store := s\<rparr>)"
  by (auto simp: on_store_def result split: prod.splits)

lemma take_lock_Inr:
  "take_lock e p w = (Inr outcome, w') \<longleftrightarrow>
     outcome = the (acquired_outcome p (acquire (sv_lock e) p (wd_host w))) \<and> w' = w\<lparr>wd_host := acquire (sv_lock e) p (wd_host w)\<rparr>"
  by (auto simp: take_lock_def Let_def)

lemma report_steps_Inr:
  "report_steps e outcome w = (Inr u, w') \<longleftrightarrow>
     w' = (if outcome = Acquired then w\<lparr>wd_status := fold progress (sv_steps_at e) (wd_status w)\<rparr> else w)"
  by (auto simp: report_steps_def)

lemmas svc_Inr = svc_bind_Inr svc_lift_Inr on_store_Inr take_lock_Inr report_steps_Inr

lemma acquired_phase:
  "ho_phase (acquire le p h) p = Decided (the (acquired_outcome p (acquire le p h)))"
  using acquire_decides [of p le h] by (auto simp: acquired_outcome_def split: lock_phase.splits)

lemma migration_lock_Inl: "outcome \<noteq> Acquired \<Longrightarrow> \<exists>x. migration_lock outcome = Inl x"
  by (cases outcome) (auto simp: migration_lock_def)

lemma serve_migration_lock:
  assumes "serve_migration e paths request p w = (Inr (prepared, held), w')"
  shows "if held then holds_lock (wd_host w') p else wd_host w' = wd_host w"
proof (cases "asks_for_lock (sv_migration e paths) request (wd_store w)")
  case True
  let ?outcome = "the (acquired_outcome p (acquire (sv_lock e) p (wd_host w)))"
  from assms True obtain s where prepare: "prepare (sv_migration e paths) request (io_lift (migration_lock ?outcome)) (wd_store w) = (Inr prepared, s)"
    and "held" "wd_host w' = acquire (sv_lock e) p (wd_host w)"
    by (auto simp: serve_migration_def Let_def svc_Inr split: if_splits)
  moreover have "?outcome = Acquired"
  proof (rule ccontr)
    assume "?outcome \<noteq> Acquired"
    then obtain x where "migration_lock ?outcome = Inl x"
      using migration_lock_Inl by blast
    with prepare asked_and_refused [OF True, of x] show False
      by simp
  qed
  ultimately show ?thesis
    using acquired_phase [of "sv_lock e" p "wd_host w"] by (simp add: holds_lock_def)
qed (use assms in \<open>auto simp: serve_migration_def Let_def svc_Inr\<close>)

lemma serve_lock_holds:
  assumes "serve_lock e held p w = (Inr has_lock, w')" "held \<Longrightarrow> holds_lock (wd_host w) p"
  shows "has_lock \<longleftrightarrow> holds_lock (wd_host w') p"
  using assms acquired_phase [of "sv_lock e" p "wd_host w"]
  by (auto simp: serve_lock_def svc_Inr holds_lock_def split: if_splits lock_outcome.splits)

lemma serve_config_paths:
  assumes "serve_config e paths config_path prepared w = (Inr config, w')"
  shows "wd_host w' = wd_host w \<and> sc_trust_anchor_path (ac_server config) = Some (ip_trust_anchor paths) \<and> sc_heartbeat_url (ac_server config) \<noteq> None
    \<and> (\<exists>enr. ac_enrollment config = Some enr \<and> ec_cert_path enr = ip_cert paths \<and> ec_key_path enr = ip_key paths
         \<and> ec_identity_path enr = ip_identity paths)"
proof -
  from assms obtain read s where read: "check_installed_config paths config_path read = Inr ()" and config: "config = canonicalize paths read"
    and "w' = w\<lparr>wd_store := s\<rparr>"
    by (auto simp: serve_config_def Let_def svc_Inr result)
  with check_installed_config_paths [OF read] show ?thesis
    by (auto simp: canonicalize_def)
qed


section \<open>A stop before the capture\<close>

text \<open>No part of a start touches the sessions of the host.\<close>

definition keeps_sessions :: "'a svc \<Rightarrow> bool" where
  "keeps_sessions m \<longleftrightarrow> (\<forall>w. wd_sessions (snd (m w)) = wd_sessions w)"

lemma keeps_sessions_bind: "keeps_sessions m \<Longrightarrow> (\<And>x. keeps_sessions (f x)) \<Longrightarrow> keeps_sessions (svc_bind m f)"
  by (auto simp: keeps_sessions_def svc_bind_def split: prod.split sum.split) (metis snd_conv)+

lemma keeps_sessions_parts [simp]:
  "keeps_sessions (svc_lift r)" "keeps_sessions (on_store ends m)" "keeps_sessions (take_lock e p)" "keeps_sessions (report_running e)"
  "keeps_sessions (remove_copies e paths prepared has_lock)"
  by (auto simp: keeps_sessions_def svc_lift_def on_store_def take_lock_def report_running_def remove_copies_def Let_def split: prod.split)

lemma keeps_sessions_steps [simp]: "keeps_sessions (report_steps e outcome)"
  by (simp add: keeps_sessions_def report_steps_def)

lemma keeps_sessions_if: "(\<And>c. keeps_sessions (if c then m else m')) \<Longrightarrow> keeps_sessions (\<lambda>w. if P w then m w else m' w)"
  unfolding keeps_sessions_def by metis

lemma keeps_sessions_migration [simp]: "keeps_sessions (serve_migration e paths request p)"
  unfolding serve_migration_def Let_def
  by (rule keeps_sessions_if) (auto intro!: keeps_sessions_bind)

lemma keeps_sessions_start: "keeps_sessions (serve_start e config_path arguments p)"
  unfolding serve_start_def serve_config_def serve_lock_def serve_log_def check_identity_custody_def Let_def
  by (auto intro!: keeps_sessions_bind)

text \<open>
  Claim C19. No capture starts after a stop. With a stop that came before the
  identity step began, the service ends, cleanly or with the failure of its
  start, and the trace sessions of the host are as they were; the identity step
  does not begin.
\<close>

theorem stop_before_capture:
  assumes "sv_stop_at e = Some t" "t \<le> sv_rounds_at e"
  shows "\<exists>exit w'. serve e config_path arguments p w = Some (exit, w') \<and> wd_sessions w' = wd_sessions w
    \<and> wd_store w' = wd_store (snd (serve_start e config_path arguments p w))
    \<and> exit = (case fst (serve_start e config_path arguments p w) of Inl early \<Rightarrow> early | Inr _ \<Rightarrow> Clean 0)"
proof -
  have rounds: "identity_rounds (identity_round e paths config) (Some t) ENROLLMENT_ROUND_WAIT 0 (sv_rounds_at e) s
      = Some (None, sv_rounds_at e, s)" for paths config s
    using assms(2) by (subst identity_rounds.simps) (auto simp: Let_def split_beta)
  obtain r w1 where start: "serve_start e config_path arguments p w = (r, w1)"
    by fastforce
  then have "wd_sessions w1 = wd_sessions w"
    using keeps_sessions_start unfolding keeps_sessions_def by (metis snd_conv)
  with start rounds assms(1) show ?thesis
    by (auto simp: serve_def serve_identity_def release_lock_def split: sum.split)
qed

text \<open>A stop ends the supervised service within a minute, and what it ends with is clean only if the run's end was.\<close>

lemma clean_exits:
  "with_log_failure exit failed_log = Clean lost \<longleftrightarrow> exit = Clean lost \<and> failed_log = None"
  "joined_exit joined = Clean lost \<longleftrightarrow> joined = Returned (Clean lost)"
  by (cases exit; cases failed_log; auto simp: with_log_failure_def) (cases joined; simp)

lemma supervise_ends: "\<exists>exit ended. supervise run_task (Some t) failed_log = Some (exit, ended) \<and> ended \<le> t + STOP_DEADLINE"
  by (cases run_task) (auto simp: supervise_def Let_def)

lemma supervise_clean:
  assumes "supervise run_task (Some t) failed_log = Some (Clean lost, ended)"
  shows "run_task = Some (ended, Returned (Clean lost)) \<and> failed_log = None"
  using assms by (cases run_task) (auto simp: supervise_def Let_def clean_exits split: if_splits)

text \<open>The last report of the service is that it has stopped, with the code of its exit; the last entry of the log is the exit's.\<close>

lemma stopped_reports:
  "ss_state (st_status (stopped ended specific st)) = ServiceStopped" "last (st_reports (stopped ended specific st)) = st_status (stopped ended specific st)"
  "ss_win32_exit_code (st_status (stopped ended specific st)) = 0 \<longleftrightarrow> specific = None"
  "ss_specific_exit_code (st_status (stopped ended specific st)) = (case specific of None \<Rightarrow> 0 | Some c \<Rightarrow> ucast c)"
  by (cases specific; simp add: stopped_def enter_state_def status_report_def ERROR_SERVICE_SPECIFIC_ERROR_def Let_def)+

lemma service_main_reports:
  assumes "supervised (start_pending begun (status_new begun)) = (exit, st', written)"
  shows "\<exists>st. service_main (Inr ()) (Inr ()) begun supervised ended = (None, Some st, written @ [exit_entry exit])
    \<and> ss_state (st_status st) = ServiceStopped \<and> last (st_reports st) = st_status st
    \<and> (ss_win32_exit_code (st_status st) = 0 \<longleftrightarrow> specific_code exit = None)"
  using assms stopped_reports by (simp add: service_main_def Let_def split: unit.split)

section \<open>A service that starts\<close>

text \<open>An installed layout whose agent has no identity yet, on a host without failures.\<close>

definition log_directory :: string where
  "log_directory = win_join (ip_data_root run_paths) ''logs''"

definition service_objects :: "wobject list" where
  "service_objects =
     [console_object (ip_product_root run_paths) 0x10 [], console_object (ip_data_root run_paths) 0x10 [],
      console_object (ip_config run_paths) 0x80 (as_bytes ''new''), console_object (ip_trust_anchor run_paths) 0x80 (as_bytes ''ca''),
      console_object log_directory 0x10 [], console_object (win_join log_directory ACTIVE) 0x80 []]"

definition service_env :: "instant option \<Rightarrow> serve_env" where
  "service_env stop =
     \<lparr>sv_program_data = Inr run_root, sv_migration = (\<lambda>_. run_env), sv_lock = willing, sv_win = sample_env, sv_libs = sample_libs,
      sv_toml_value = me_toml_value run_env, sv_toml_config = me_toml_config run_env, sv_log = quiet_env, sv_log_files = (\<lambda>_. None),
      sv_steps_at = [], sv_running_at = secs 1, sv_rounds = (\<lambda>_. (secs 33, Inl (Unreachable 3 ''down''))), sv_rounds_at = secs 2, sv_settled = 0,
      sv_stop_at = stop, sv_secure = plain_host\<rparr>"

definition service_world :: "host \<Rightarrow> world" where
  "service_world h =
     \<lparr>wd_store = at_op service_objects 0, wd_host = h, wd_sessions = Map.empty, wd_status = start_pending 0 (status_new 0), wd_events = []\<rparr>"


theorem stop_before_capture_witness:
  "\<exists>exit w'. serve (service_env (Some (secs 1))) (ip_config run_paths) [] 1 (service_world quiet_host) = Some (exit, w') \<and> wd_sessions w' = Map.empty"
  using stop_before_capture [of "service_env (Some (secs 1))" "secs 1" "ip_config run_paths" "[]" 1 "service_world quiet_host"]
  by (auto simp: service_env_def service_world_def secs_def)

lemma service_find [run]:
  "find_object (ip_product_root run_paths) service_objects = Some (console_object (ip_product_root run_paths) 0x10 [])"
  "find_object (ip_data_root run_paths) service_objects = Some (console_object (ip_data_root run_paths) 0x10 [])"
  "find_object (ip_config run_paths) service_objects = Some (console_object (ip_config run_paths) 0x80 (as_bytes ''new''))"
  "find_object (ip_trust_anchor run_paths) service_objects = Some (console_object (ip_trust_anchor run_paths) 0x80 (as_bytes ''ca''))"
  "find_object log_directory service_objects = Some (console_object log_directory 0x10 [])"
  "find_object (win_join log_directory ACTIVE) service_objects = Some (console_object (win_join log_directory ACTIVE) 0x80 [])"
  "find_object (staging run_paths) service_objects = None" "find_object (legacy run_paths) service_objects = None"
  "find_object (record_path run_paths) service_objects = None" "find_object (ip_identity_dir run_paths) service_objects = None"
  "name \<in> set IDENTITY_FILES \<Longrightarrow> find_object (win_join (ip_data_root run_paths) name) service_objects = None"
  by (auto simp: find_object_def service_objects_def console_object_def paths_under_def Let_def win_join_def staging_def legacy_def record_path_def
      log_directory_def ACTIVE_def IDENTITY_FILES_def with_file_name_def eq_ignore_ascii_case_def ascii_lower_def)

lemma service_directories: "\<exists>k. check_data_directories run_env False (at_op service_objects n) = (Inr (), at_op service_objects k)"
  by (simp add: check_data_directories_def migration_custody_system_def policy_configuration_def Let_def run run_ops)

lemma service_record: "\<exists>k. data_root_record run_env (at_op service_objects n) = (Inr None, at_op service_objects k)"
  by (simp add: data_root_record_def Let_def run run_ops)

lemma service_plain: "\<exists>k. plain run_env None (at_op service_objects n) = (Inr Plain, at_op service_objects k)"
proof -
  obtain a where a: "check_data_directories run_env False (at_op service_objects n) = (Inr (), at_op service_objects a)"
    using service_directories by blast
  obtain b where "data_root_record run_env (at_op service_objects a) = (Inr None, at_op service_objects b)"
    using service_record by blast
  with a show ?thesis
    by (auto simp: plain_def guard_def io_run)
qed

lemma service_prepare: "\<exists>k. prepare run_env None lock (at_op service_objects n) = (Inr Plain, at_op service_objects k)"
  using service_plain by (simp add: prepare_def is_there_def counts_def IDENTITY_FILES_def run run_ops)

lemma service_env_simps [simp]:
  "sv_program_data (service_env stop) = Inr run_root" "sv_migration (service_env stop) paths = run_env" "sv_lock (service_env stop) = willing"
  "sv_win (service_env stop) = sample_env" "sv_toml_value (service_env stop) = me_toml_value run_env"
  "sv_toml_config (service_env stop) = me_toml_config run_env" "sv_log (service_env stop) = quiet_env"
  "sv_log_files (service_env stop) = (\<lambda>_. None)"
  by (simp_all add: service_env_def)

lemma service_arguments: "serve_arguments (service_env stop) (ip_config run_paths) [] = Inr (run_paths, None)"
proof -
  have "is_absolute (ip_config run_paths)"
    by (simp add: is_absolute_def paths_under_def Let_def win_join_def separator_def less_eq_char_def)
  moreover have "is_fixed_path path path" for path
    by (simp add: is_fixed_path_def eq_ignore_ascii_case_def)
  ultimately show ?thesis
    by (simp add: serve_arguments_def check_config_path_def parse_start_arguments_def guard_def Let_def)
qed

lemma service_not_asked: "\<not> asks_for_lock run_env None (at_op service_objects n)"
  using service_prepare [of "io_lift (Inl (StopRefused 0 []))" n] by (auto simp: asks_for_lock_def)

lemma service_migration:
  "\<exists>k. serve_migration (service_env stop) run_paths None p (service_world h)
     = (Inr (Plain, False), (service_world h)\<lparr>wd_store := at_op service_objects k\<rparr>)"
  using service_prepare [of "io_lift (Inl Crashed)" 0] service_not_asked [of 0]
  by (auto simp: serve_migration_def svc_bind_def svc_lift_def on_store_def service_world_def Let_def)

lemma service_read:
  "\<exists>k. read_installed_config (service_env stop) (ip_config run_paths) (ip_config run_paths) (at_op service_objects n)
     = (Inr (run_config (ip_identity_dir run_paths)), at_op service_objects k)"
proof -
  have "\<exists>k. read_checked sample_env (ip_config run_paths) policy_configuration (at_op service_objects n) = (Inr (Some (as_bytes ''new'')), at_op service_objects k)"
    by (simp add: Let_def guard_def READ_LIMIT_def as_bytes_def run run_ops)
  then show ?thesis
    by (auto simp: read_installed_config_def io_run texts_run config_run)
qed

lemma service_installed: "check_installed_config run_paths (ip_config run_paths) (run_config (ip_identity_dir run_paths)) = Inr ()"
  by (simp add: check_installed_config_def check_service_config_def is_fixed_path_def run_config_def run_enrollment_def demo_config_def guard_def
      paths_under_def Let_def win_join_def eq_ignore_ascii_case_def)

lemma service_config:
  assumes "wd_store w = at_op service_objects n"
  shows "\<exists>config k. serve_config (service_env stop) run_paths (ip_config run_paths) Plain w = (Inr config, w\<lparr>wd_store := at_op service_objects k\<rparr>)
    \<and> ac_enrollment config \<noteq> None"
proof -
  obtain k where "read_installed_config (service_env stop) (ip_config run_paths) (ip_config run_paths) (wd_store w)
      = (Inr (run_config (ip_identity_dir run_paths)), at_op service_objects k)"
    using service_read assms by metis
  then have "serve_config (service_env stop) run_paths (ip_config run_paths) Plain w
      = (Inr (canonicalize run_paths (run_config (ip_identity_dir run_paths))), w\<lparr>wd_store := at_op service_objects k\<rparr>)"
    by (simp add: serve_config_def svc_bind_def svc_lift_def on_store_def service_installed Let_def)
  then show ?thesis
    by (auto simp: canonicalize_def run_config_def)
qed

lemma service_log:
  assumes "wd_store w = at_op service_objects n"
  shows "\<exists>l k. serve_log (service_env stop) w = (Inr l, w\<lparr>wd_store := at_op service_objects k\<rparr>)"
proof -
  have logs: "win_join (win_join (win_join run_root ''CyberGuard'') ''agent'') ''logs'' = log_directory"
    "win_join run_root ''CyberGuard'' = ip_product_root run_paths" "win_join (ip_product_root run_paths) ''agent'' = ip_data_root run_paths"
    "win_join (ip_data_root run_paths) ''logs'' = log_directory"
    by (simp_all add: log_directory_def paths_under_def Let_def)
  have shared: "check_descriptor sample_env sample_descriptor path policy_shared = Inr ()" for path
    by (simp add: policy_shared_def run)
  have "\<exists>k. ensure_log_directories sample_env run_root (at_op service_objects n) = (Inr (), at_op service_objects k)"
    by (simp add: ensure_log_directories_def ensure_directory_def from_sddl_def create_directory_call_def logs shared Let_def run run_ops)
  then obtain a where a: "ensure_log_directories sample_env run_root (at_op service_objects n) = (Inr (), at_op service_objects a)"
    by blast
  have "\<exists>k. open_log_file sample_env (win_join log_directory ACTIVE) (at_op service_objects a) = (Inr 0, at_op service_objects k)"
    by (simp add: open_log_file_def from_sddl_def open_always_call_def guard_def shared run run_ops)
  then obtain b where b: "open_log_file sample_env (win_join log_directory ACTIVE) (at_op service_objects a) = (Inr 0, at_op service_objects b)"
    by blast
  obtain l where "log_open quiet_env (\<lambda>_. None) = (Inr (), l)"
    using log_open_empty [OF quiet_env_calm] by blast
  with a b have "open_service_log sample_env quiet_env (Inr run_root) (\<lambda>_. None) (wd_store w) = (Inr l, at_op service_objects b)"
    by (simp add: open_service_log_def io_run logs assms)
  then show ?thesis
    by (auto simp: serve_log_def svc_bind_def svc_lift_def on_store_def)
qed

lemma service_custody:
  assumes "wd_store w = at_op service_objects n" "ac_enrollment config \<noteq> None"
  shows "\<exists>k. check_identity_custody (service_env stop) run_paths config w = (Inr (), w\<lparr>wd_store := at_op service_objects k\<rparr>)"
proof -
  have "\<exists>k. custody_check sample_env (ip_trust_anchor run_paths) File policy_configuration (at_op service_objects n) = (Inr (), at_op service_objects k)"
    by (simp add: guard_def run run_ops)
  then obtain a where a: "custody_check sample_env (ip_trust_anchor run_paths) File policy_configuration (at_op service_objects n)
      = (Inr (), at_op service_objects a)"
    by blast
  have "\<exists>k. installed_check sample_env config (custody_system run_paths) (at_op service_objects a) = (Inr (), at_op service_objects k)"
    using assms(2) by (auto simp: installed_check_def custody_system_def run run_ops)
  with a assms(1) show ?thesis
    by (auto simp: check_identity_custody_def svc_bind_def on_store_def)
qed

lemma service_takes_lock:
  "serve_lock (service_env stop) False 1 w = (Inr True, w\<lparr>wd_host := one_holds\<rparr>)" if "wd_host w = quiet_host"
  using one_holds(2) that
  by (simp add: serve_lock_def svc_bind_def svc_lift_def take_lock_def holds_lock_def acquired_outcome_def Let_def)

lemma report_running_store: "\<exists>w'. report_running e w = (Inr (), w') \<and> wd_store w' = wd_store w"
  by (auto simp: report_running_def split: prod.split)

lemma service_starts:
  "\<exists>config w'. serve_start (service_env stop) (ip_config run_paths) [] 1 (service_world quiet_host) = (Inr (run_paths, config, True), w')"
proof -
  let ?e = "service_env stop" and ?w = "service_world quiet_host"
  obtain a where a: "serve_migration ?e run_paths None 1 ?w = (Inr (Plain, False), ?w\<lparr>wd_store := at_op service_objects a\<rparr>)"
    using service_migration by blast
  let ?w1 = "?w\<lparr>wd_store := at_op service_objects a\<rparr>"
  obtain config b where b: "serve_config ?e run_paths (ip_config run_paths) Plain ?w1 = (Inr config, ?w1\<lparr>wd_store := at_op service_objects b\<rparr>)"
    "ac_enrollment config \<noteq> None"
    using service_config [of ?w1 a stop] by auto
  let ?w2 = "?w1\<lparr>wd_store := at_op service_objects b\<rparr>"
  have c: "serve_lock ?e False 1 ?w2 = (Inr True, ?w2\<lparr>wd_host := one_holds\<rparr>)"
    by (rule service_takes_lock) (simp add: service_world_def)
  let ?w3 = "?w2\<lparr>wd_host := one_holds\<rparr>"
  obtain l d where d: "serve_log ?e ?w3 = (Inr l, ?w3\<lparr>wd_store := at_op service_objects d\<rparr>)"
    using service_log [of ?w3 b stop] by auto
  let ?w4 = "?w3\<lparr>wd_store := at_op service_objects d\<rparr>"
  obtain w5 where w5: "report_running ?e ?w4 = (Inr (), w5)" "wd_store w5 = at_op service_objects d"
    using report_running_store [of ?e ?w4] by auto
  have "remove_copies ?e run_paths Plain True w5 = (Inr (), w5)"
    by (simp add: remove_copies_def)
  moreover obtain k where "check_identity_custody ?e run_paths config w5 = (Inr (), w5\<lparr>wd_store := at_op service_objects k\<rparr>)"
    using service_custody [OF w5(2) b(2)] by blast
  ultimately show ?thesis
    using service_arguments a b(1) c d w5(1) by (simp add: serve_start_def svc_bind_def svc_lift_def)
qed


end
