(* ===== verification/Agent_Version.thy ===== *)
theory Agent_Version
  imports Tls_Client Net_Decode
begin

text \<open>
  The product version: its check when the crate is compiled (\<open>version.rs\<close>), and
  the version resource that the build script writes for the executable
  (\<open>build.rs\<close>), byte for byte.
\<close>

unbundle bit_operations_syntax

section \<open>The version of a release\<close>

text \<open>The loop over the bytes, with the dots, the digits of the component and whether it is a zero.\<close>

fun version_loop :: "string \<Rightarrow> usize \<Rightarrow> usize \<Rightarrow> bool \<Rightarrow> bool" where
  "version_loop [] dots digits leading_zero = (dots = 2 \<and> 0 < digits)"
| "version_loop (c # cs) dots digits leading_zero =
     (if c = CHR ''.'' then (if digits = 0 \<or> dots = 2 then False else version_loop cs (dots + 1) 0 False)
      else if is_ascii_digit c
      then (if leading_zero then False else version_loop cs dots (digits + 1) (digits = 0 \<and> c = CHR ''0''))
      else False)"

definition is_release_version :: "string \<Rightarrow> bool" where
  "is_release_version s = version_loop s 0 0 False"

text \<open>The version that the agent reports, and whether the build is refused for its input.\<close>

definition AGENT_VERSION :: "string \<Rightarrow> string option \<Rightarrow> string" where
  "AGENT_VERSION cargo_version release = (case release of Some v \<Rightarrow> v | None \<Rightarrow> cargo_version @ ''-dev'')"

definition version_accepted :: "string option \<Rightarrow> bool" where
  "version_accepted release = (case release of Some v \<Rightarrow> is_release_version v | None \<Rightarrow> True)"

section \<open>The build script\<close>

definition component_ok :: "string \<Rightarrow> bool" where
  "component_ok c \<longleftrightarrow> c \<noteq> [] \<and> list_all is_ascii_digit c \<and> (c = ''0'' \<or> \<not> prefix ''0'' c)"

definition release_components :: "string \<Rightarrow> (string \<times> string \<times> string) option" where
  "release_components s =
     (case split (CHR ''.'') s of
        [x, y, z] \<Rightarrow> if list_all component_ok [x, y, z] then Some (x, y, z) else None
      | _ \<Rightarrow> None)"

definition LANGUAGE :: u16 where "LANGUAGE = 0x0409"
definition CODE_PAGE :: u16 where "CODE_PAGE = 1200"
definition RT_VERSION :: u16 where "RT_VERSION = 16"

text \<open>\<open>str::encode_utf16\<close> on the UTF-8 bytes of a string.\<close>

fun encode_utf16 :: "string \<Rightarrow> u16 list" where
  "encode_utf16 [] = []"
| "encode_utf16 (c # s) =
     (if cval c < 0x80 then of_nat (cval c) # encode_utf16 s
      else if cval c < 0xE0 then
        (case s of d # t \<Rightarrow> of_nat ((cval c - 0xC0) * 64 + (cval d - 0x80)) # encode_utf16 t | [] \<Rightarrow> [])
      else if cval c < 0xF0 then
        (case s of d # e # t \<Rightarrow> of_nat ((cval c - 0xE0) * 4096 + (cval d - 0x80) * 64 + (cval e - 0x80)) # encode_utf16 t | _ \<Rightarrow> [])
      else
        (case s of
           d # e # f # t \<Rightarrow>
             let above = (cval c - 0xF0) * 262144 + (cval d - 0x80) * 4096 + (cval e - 0x80) * 64 + (cval f - 0x80) - 0x10000
             in of_nat (0xD800 + above div 1024) # of_nat (0xDC00 + above mod 1024) # encode_utf16 t
         | _ \<Rightarrow> []))"

definition u16_le :: "u16 \<Rightarrow> bytes" where "u16_le w = to_le_bytes 2 (unat w)"
definition u32_le :: "u32 \<Rightarrow> bytes" where "u32_le w = to_le_bytes 4 (unat w)"

definition wide_units :: "string \<Rightarrow> u16 list" where
  "wide_units s = encode_utf16 s @ [0]"

definition pad4 :: "bytes \<Rightarrow> bytes" where
  "pad4 out = out @ replicate ((4 - length out mod 4) mod 4) 0"

datatype version_value = NoValue | Binary bytes | Text string

definition block_value :: "version_value \<Rightarrow> bytes \<times> u16 \<times> u16" where
  "block_value v =
     (case v of
        NoValue \<Rightarrow> ([], 0, 1)
      | Binary bs \<Rightarrow> (bs, of_nat (length bs), 0)
      | Text t \<Rightarrow> (concat (map u16_le (wide_units t)), of_nat (length (wide_units t)), 1))"

definition block :: "string \<Rightarrow> version_value \<Rightarrow> bytes list \<Rightarrow> bytes" where
  "block key v children =
     (let head = pad4 (replicate 6 0 @ concat (map u16_le (wide_units key)));
          (bs, value_length, kind) = block_value v;
          out = foldl (\<lambda>out child. pad4 out @ child) (head @ bs) children
      in u16_le (of_nat (length out)) @ u16_le value_length @ u16_le kind @ drop 6 out)"

definition hex4 :: "u16 \<Rightarrow> string" where
  "hex4 w = map (\<lambda>i. let d = unat w div 16 ^ i mod 16 in char_of (if d < 10 then 48 + d else 55 + d :: nat)) [3, 2, 1, 0]"

definition fixed_info :: "u16 \<times> u16 \<times> u16 \<Rightarrow> bytes" where
  "fixed_info numbers =
     (case numbers of (x, y, z) \<Rightarrow>
        let ms = push_bit 16 (ucast x) OR ucast y; ls = push_bit 16 (ucast z)
        in concat (map u32_le [0xFEEF04BD, 0x00010000, ms, ls, ms, ls, 0x0000003F, 0, 0x00040004, 1, 0, 0, 0]))"

definition version_info :: "u16 \<times> u16 \<times> u16 \<Rightarrow> string \<Rightarrow> bytes" where
  "version_info numbers text =
     (let strings = map (\<lambda>(key, v). block key (Text v) [])
            [(''FileDescription'', ''CyberGuard endpoint agent''), (''FileVersion'', text), (''OriginalFilename'', ''cg-agent.exe''),
             (''ProductName'', ''CyberGuard Agent''), (''ProductVersion'', text)];
          table = block (hex4 LANGUAGE @ hex4 CODE_PAGE) NoValue strings;
          string_file_info = block ''StringFileInfo'' NoValue [table];
          var = block ''Translation'' (Binary (u16_le LANGUAGE @ u16_le CODE_PAGE)) [];
          var_file_info = block ''VarFileInfo'' NoValue [var]
      in block ''VS_VERSION_INFO'' (Binary (fixed_info numbers)) [string_file_info, var_file_info])"

definition resource_header :: "u32 \<Rightarrow> u16 \<Rightarrow> u16 \<Rightarrow> u16 \<Rightarrow> u16 \<Rightarrow> bytes" where
  "resource_header data_size type_id name_id memory_flags language =
     u32_le data_size @ u32_le 32 @ u16_le 0xFFFF @ u16_le type_id @ u16_le 0xFFFF @ u16_le name_id @ u32_le 0
     @ u16_le memory_flags @ u16_le language @ u32_le 0 @ u32_le 0"

definition resource_file :: "u16 \<times> u16 \<times> u16 \<Rightarrow> string \<Rightarrow> bytes" where
  "resource_file numbers text =
     (let info = version_info numbers text
      in pad4 (resource_header 0 0 0 0 0 @ resource_header (of_nat (length info)) RT_VERSION 1 0x0030 LANGUAGE @ info))"

datatype build_outcome = WritesNothing | Panics string | Writes bytes

definition version_core :: "string \<Rightarrow> string" where
  "version_core s = takeWhile (\<lambda>c. c \<noteq> CHR ''-'' \<and> c \<noteq> CHR ''+'') s"

definition component_numbers :: "string \<times> string \<times> string \<Rightarrow> (string, u16 \<times> u16 \<times> u16) result" where
  "component_numbers components =
     (let number = (\<lambda>c. ok_or (''version component '' @ c @ '' is above 65535, which a PE version field cannot hold'') (parse_u16 c))
      in case components of (x, y, z) \<Rightarrow>
           and_then (number x) (\<lambda>x. and_then (number y) (\<lambda>y. and_then (number z) (\<lambda>z. Inr (x, y, z)))))"

definition build_resource :: "string \<Rightarrow> string \<times> string \<times> string \<Rightarrow> build_outcome" where
  "build_resource text components =
     (case component_numbers components of Inl reason \<Rightarrow> Panics reason | Inr numbers \<Rightarrow> Writes (resource_file numbers text))"

definition build_main :: "string \<Rightarrow> string \<Rightarrow> string \<Rightarrow> string option \<Rightarrow> build_outcome" where
  "build_main os abi cargo_version release =
     (if os \<noteq> ''windows'' \<or> abi \<noteq> ''msvc'' then WritesNothing
      else case release of
        Some v \<Rightarrow> (case release_components v of Some components \<Rightarrow> build_resource v components | None \<Rightarrow> WritesNothing)
      | None \<Rightarrow>
          (case release_components (version_core cargo_version) of
             Some components \<Rightarrow> build_resource (cargo_version @ ''-dev'') components
           | None \<Rightarrow> Panics (''Cargo's version '' @ cargo_version @ '' is not X.Y.Z'')))"

section \<open>The two readings of a version agree\<close>

lemma dot_no_digit [simp]: "\<not> is_ascii_digit (CHR ''.'')"
  by (simp add: is_ascii_digit_def)

lemma component_Cons: "component_ok (c # w) \<longleftrightarrow> is_ascii_digit c \<and> list_all is_ascii_digit w \<and> (c = CHR ''0'' \<longrightarrow> w = [])"
  by (auto simp: component_ok_def)

lemma version_loop_pieces:
  assumes "digits = 0 \<longrightarrow> \<not> leading_zero" "dots \<le> 2" "split (CHR ''.'') s = w # ws"
  shows "version_loop s dots digits leading_zero \<longleftrightarrow>
    (if digits = 0 then component_ok w else list_all is_ascii_digit w \<and> (leading_zero \<longrightarrow> w = [])) \<and> list_all component_ok ws \<and> dots + length ws = 2"
  using assms
proof (induction s arbitrary: dots digits leading_zero w ws)
  case Nil
  then show ?case
    by (auto simp: split_def component_ok_def)
next
  case (Cons c s)
  obtain v vs where rest: "split (CHR ''.'') s = v # vs"
    by (metis list.exhaust split_def split_on_nonempty)
  show ?case
  proof (cases "c = CHR ''.''")
    case True
    with Cons.prems rest have "w = []" "ws = v # vs"
      by (auto simp: split_def)
    with True Cons.prems Cons.IH [OF _ _ rest, of 0 False "dots + 1"] show ?thesis
      by (auto simp: component_ok_def)
  next
    case False
    with Cons.prems rest have w: "w = c # v" "ws = vs"
      by (auto simp: split_def)
    have "is_ascii_digit c \<Longrightarrow> \<not> leading_zero \<Longrightarrow> version_loop s dots (digits + 1) (digits = 0 \<and> c = CHR ''0'') \<longleftrightarrow>
        (list_all is_ascii_digit v \<and> (digits = 0 \<and> c = CHR ''0'' \<longrightarrow> v = [])) \<and> list_all component_ok vs \<and> dots + length vs = 2"
      using Cons.IH [OF _ Cons.prems(2) rest, of "digits + 1" "digits = 0 \<and> c = CHR ''0''"] by simp
    with False Cons.prems(1) show ?thesis
      by (auto simp: w component_Cons)
  qed
qed

text \<open>What the crate refuses to compile is exactly what the build script writes no resource for.\<close>

lemma release_versions_agree: "is_release_version s \<longleftrightarrow> release_components s \<noteq> None"
proof -
  obtain w ws where pieces: "split (CHR ''.'') s = w # ws"
    by (metis list.exhaust split_def split_on_nonempty)
  then have "is_release_version s \<longleftrightarrow> component_ok w \<and> list_all component_ok ws \<and> length ws = 2"
    using version_loop_pieces [of 0 False 0 s w ws] by (simp add: is_release_version_def)
  then show ?thesis
    by (auto simp: release_components_def pieces split: list.split)
qed

section \<open>The numbers of the resource\<close>

lemma component_value: "component_ok c \<Longrightarrow> dec (digits_value c) = c"
proof (induction c rule: rev_induct)
  case (snoc d s)
  have digit: "is_ascii_digit d" "digit (cval d - 48) = d" "cval d - 48 < 10"
    using snoc.prems by (auto simp: component_ok_def is_ascii_digit_def digit_def)
  show ?case
  proof (cases "s = []")
    case True
    with digit show ?thesis
      by (simp add: digits_value_def dec_def radix_small)
  next
    case False
    then have s: "component_ok s" "s \<noteq> ''0''"
      using snoc.prems by (cases s; auto simp: component_ok_def)+
    have "dec 0 = ''0''"
      by code_simp
    then have "0 < digits_value s"
      using snoc.IH [OF s(1)] s(2) by (cases "digits_value s") auto
    with snoc.IH [OF s(1)] digit show ?thesis
      by (simp add: digits_value_snoc dec_def radix_step)
  qed
qed (simp add: component_ok_def)

lemma parse_component: "component_ok c \<Longrightarrow> parse_u16 c = Some n \<Longrightarrow> c = dec (unat n)"
proof -
  assume ok: "component_ok c" and n: "parse_u16 c = Some n"
  have "hd c \<noteq> CHR ''+''"
    using ok by (cases c) (auto simp: component_ok_def is_ascii_digit_def)
  with ok n have "digits_value c < 65536" "n = of_nat (digits_value c)"
    by (cases c; auto simp: parse_u16_def component_ok_def Let_def split: if_splits)+
  then have "unat n = digits_value c"
    by (simp add: unat_of_nat)
  with component_value [OF ok] show ?thesis
    by simp
qed

lemma release_components_Some:
  assumes "release_components s = Some (x, y, z)"
  shows "s = x @ CHR ''.'' # y @ CHR ''.'' # z \<and> component_ok x \<and> component_ok y \<and> component_ok z"
proof -
  have "split (CHR ''.'') s = [x, y, z]" "component_ok x" "component_ok y" "component_ok z"
    using assms by (auto simp: release_components_def split: list.splits if_splits)
  with join_split [of "CHR ''.''" s] show ?thesis
    by simp
qed

lemma lengths_le [simp]: "length (u16_le w) = 2" "length (u32_le v) = 4"
  by (simp_all add: u16_le_def u32_le_def)

lemma length_resource_header [simp]: "length (resource_header a b c d e) = 32"
  by (simp add: resource_header_def)

lemma pad4_aligned: "length (pad4 bs) mod 4 = 0"
proof -
  consider "length bs mod 4 = 0" | "length bs mod 4 = 1" | "length bs mod 4 = 2" | "length bs mod 4 = 3"
    using mod_less_divisor [of 4 "length bs"] by linarith
  then show ?thesis
    by cases (simp_all add: pad4_def, presburger+)
qed

lemma foldl_pad_prefix: "\<exists>rest. foldl (\<lambda>out child. pad4 out @ child) bs children = bs @ rest"
proof (induction children arbitrary: bs)
  case (Cons child children)
  from Cons.IH [of "pad4 bs @ child"] show ?case
    by (auto simp: pad4_def)
qed simp

text \<open>The fixed part of the version information begins 40 bytes into its block.\<close>

lemma version_info_fixed: "\<exists>front rest. version_info numbers text = front @ fixed_info numbers @ rest \<and> length front = 40"
proof -
  have head: "length (pad4 (replicate 6 0 @ concat (map u16_le (wide_units ''VS_VERSION_INFO'')))) = 40"
    by (simp add: wide_units_def pad4_def)
  define h where "h = pad4 (replicate 6 0 @ concat (map u16_le (wide_units ''VS_VERSION_INFO'')))"
  have "\<exists>front rest. block ''VS_VERSION_INFO'' (Binary bs) children = front @ bs @ rest \<and> length front = 40" for bs children
  proof -
    obtain rest where "foldl (\<lambda>out child. pad4 out @ child) (h @ bs) children = h @ bs @ rest"
      using foldl_pad_prefix [of "h @ bs" children] by auto
    then have "block ''VS_VERSION_INFO'' (Binary bs) children =
        (u16_le (of_nat (length (h @ bs @ rest))) @ u16_le (of_nat (length bs)) @ u16_le 0 @ drop 6 h) @ bs @ rest"
      using head by (simp add: block_def block_value_def h_def [symmetric] Let_def)
    moreover have "length (u16_le (of_nat (length (h @ bs @ rest))) @ u16_le (of_nat (length bs)) @ u16_le 0 @ drop 6 h) = 40"
      using head by (simp add: h_def [symmetric])
    ultimately show ?thesis
      by blast
  qed
  then show ?thesis
    by (simp add: version_info_def Let_def)
qed

lemma high_low: "unat (push_bit 16 (ucast x) OR ucast y :: u32) = unat x * 65536 + unat y" for x y :: u16
proof -
  let ?h = "push_bit 16 (ucast x) :: u32" and ?l = "ucast y :: u32"
  have "?h OR ?l = ?h + ?l"
    by (rule disjunctive_add [symmetric]) (auto simp: bit_simps dest: bit_imp_le_length)
  moreover have low: "unat (ucast w :: u32) = unat w" for w :: u16
    using unat_bound [of w] by (simp add: unsigned_ucast_eq take_bit_nat_eq_self)
  moreover have "unat ?h = unat x * 65536"
    using unat_bound [of x] by (simp add: push_bit_eq_mult unat_word_ariths low)
  moreover have "unat x * 65536 + unat y < 2 ^ 32"
    using unat_bound [of x] unat_bound [of y] by simp
  ultimately show ?thesis
    by (simp add: unat_word_ariths)
qed

lemma fixed_info_numbers:
  "le_value (take 4 (drop 8 (fixed_info (x, y, z)))) = unat x * 65536 + unat y"
  "le_value (take 4 (drop 12 (fixed_info (x, y, z)))) = unat z * 65536" "length (fixed_info (x, y, z)) = 52"
proof -
  have "le_value (u32_le w) = unat w" for w :: u32
    using unat_bound [of w] by (simp add: u32_le_def le_value_to_le_bytes)
  with high_low [of x y] high_low [of z 0] show "le_value (take 4 (drop 8 (fixed_info (x, y, z)))) = unat x * 65536 + unat y"
    "le_value (take 4 (drop 12 (fixed_info (x, y, z)))) = unat z * 65536" "length (fixed_info (x, y, z)) = 52"
    by (simp_all add: fixed_info_def Let_def)
qed

lemma resource_file_numbers:
  "le_value (take 4 (drop 112 (resource_file (x, y, z) text))) = unat x * 65536 + unat y"
  "le_value (take 4 (drop 116 (resource_file (x, y, z) text))) = unat z * 65536"
  "length (resource_file (x, y, z) text) mod 4 = 0"
proof -
  obtain front rest where info: "version_info (x, y, z) text = front @ fixed_info (x, y, z) @ rest" "length front = 40"
    using version_info_fixed by blast
  then have "\<exists>before after. resource_file (x, y, z) text = before @ fixed_info (x, y, z) @ after \<and> length before = 104"
    unfolding resource_file_def Let_def pad4_def
    by (intro exI [of _ "resource_header 0 0 0 0 0 @ resource_header (of_nat (length (front @ fixed_info (x, y, z) @ rest))) RT_VERSION 1 0x0030 LANGUAGE @ front"]
        exI) simp
  then obtain before after where parts: "resource_file (x, y, z) text = before @ fixed_info (x, y, z) @ after" "length before = 104"
    by blast
  have "take 4 (drop (104 + k) (resource_file (x, y, z) text)) = take 4 (drop k (fixed_info (x, y, z)))" if "k \<le> 48" for k
    using parts fixed_info_numbers(3) [of x y z] that by simp
  from this [of 8] this [of 12] fixed_info_numbers show
    "le_value (take 4 (drop 112 (resource_file (x, y, z) text))) = unat x * 65536 + unat y"
    "le_value (take 4 (drop 116 (resource_file (x, y, z) text))) = unat z * 65536"
    by simp_all
  show "length (resource_file (x, y, z) text) mod 4 = 0"
    by (simp add: resource_file_def Let_def pad4_aligned)
qed

lemma version_core_release:
  assumes "release_components s = Some components"
  shows "version_core s = s"
proof -
  obtain x y z where s: "s = x @ CHR ''.'' # y @ CHR ''.'' # z" "component_ok x" "component_ok y" "component_ok z"
    using release_components_Some assms by (metis prod_cases3)
  have "is_ascii_digit c \<Longrightarrow> c \<noteq> CHR ''-'' \<and> c \<noteq> CHR ''+''" for c
    by (auto simp: is_ascii_digit_def)
  with s show ?thesis
    by (auto simp: version_core_def component_ok_def list_all_iff takeWhile_eq_all_conv)
qed

lemma version_core_dev: "version_core (cargo_version @ ''-dev'') = version_core cargo_version"
  by (auto simp: version_core_def takeWhile_append takeWhile_eq_all_conv [THEN iffD2])

lemma build_main_Writes:
  assumes "build_main os abi cargo_version release = Writes file"
  shows "\<exists>a b c. release_components (version_core (AGENT_VERSION cargo_version release)) = Some (a, b, c)
    \<and> build_resource (AGENT_VERSION cargo_version release) (a, b, c) = Writes file \<and> version_accepted release"
proof (cases release)
  case None
  with assms show ?thesis
    by (auto simp: build_main_def AGENT_VERSION_def version_accepted_def version_core_dev split: if_splits option.splits)
next
  case (Some v)
  with assms obtain components where "release_components v = Some components" "build_resource v components = Writes file"
    by (auto simp: build_main_def split: if_splits option.splits)
  with Some show ?thesis
    using release_versions_agree [of v] version_core_release [of v]
    by (cases components) (auto simp: AGENT_VERSION_def version_accepted_def)
qed

text \<open>
  Claim C39. The resource of an executable carries the version that the agent
  reports. Whenever the build script writes one, the crate compiles with the
  same input, the version that the agent reports is, up to a suffix after a
  hyphen or a plus sign, three decimal numbers joined by dots, each of which
  fits a version field, and these are the file version in the resource; the
  file is aligned as the linker expects it.
\<close>

theorem resource_carries_version:
  assumes "build_main os abi cargo_version release = Writes file"
  shows "version_accepted release
    \<and> (\<exists>(x :: u16) (y :: u16) (z :: u16). version_core (AGENT_VERSION cargo_version release) = dec (unat x) @ ''.'' @ dec (unat y) @ ''.'' @ dec (unat z)
         \<and> le_value (take 4 (drop 112 file)) = unat x * 65536 + unat y \<and> le_value (take 4 (drop 116 file)) = unat z * 65536)
    \<and> length file mod 4 = 0"
proof -
  obtain a b c where components: "release_components (version_core (AGENT_VERSION cargo_version release)) = Some (a, b, c)"
    and built: "build_resource (AGENT_VERSION cargo_version release) (a, b, c) = Writes file" and accepted: "version_accepted release"
    using build_main_Writes [OF assms] by blast
  obtain x y z where numbers: "parse_u16 a = Some x" "parse_u16 b = Some y" "parse_u16 c = Some z"
    and written: "file = resource_file (x, y, z) (AGENT_VERSION cargo_version release)"
    using built by (auto simp: build_resource_def component_numbers_def result Let_def split: sum.splits)
  have "version_core (AGENT_VERSION cargo_version release) = dec (unat x) @ ''.'' @ dec (unat y) @ ''.'' @ dec (unat z)"
    using release_components_Some [OF components] parse_component numbers by auto
  with accepted show ?thesis
    unfolding written using resource_file_numbers [of x y z "AGENT_VERSION cargo_version release"] by blast
qed

theorem resource_carries_version_witness:
  "\<exists>file. build_main ''windows'' ''msvc'' ''0.1.0'' (Some ''1.20.3'') = Writes file
     \<and> (\<exists>(x :: u16) (y :: u16) (z :: u16). version_core ''1.20.3'' = dec (unat x) @ ''.'' @ dec (unat y) @ ''.'' @ dec (unat z)
          \<and> le_value (take 4 (drop 112 file)) = unat x * 65536 + unat y \<and> le_value (take 4 (drop 116 file)) = unat z * 65536)"
proof -
  have components: "release_components ''1.20.3'' = Some (''1'', ''20'', ''3'')"
    by code_simp
  have "dec 1 = ''1''" "dec 20 = ''20''" "dec 3 = ''3''"
    by code_simp+
  then have numbers: "parse_u16 ''1'' = Some 1" "parse_u16 ''20'' = Some 20" "parse_u16 ''3'' = Some 3"
    using parse_u16_dec [of 1] parse_u16_dec [of 20] parse_u16_dec [of 3] by simp_all
  obtain res where build: "build_main ''windows'' ''msvc'' ''0.1.0'' (Some ''1.20.3'') = Writes res"
    using components numbers by (simp add: build_main_def build_resource_def component_numbers_def Let_def)
  have "AGENT_VERSION ''0.1.0'' (Some ''1.20.3'') = ''1.20.3''"
    by (simp add: AGENT_VERSION_def)
  with build resource_carries_version [OF build] show ?thesis
    by metis
qed

end
