(* ===== verification/Spec2Isabelle.thy ===== *)
theory Spec2Isabelle
  imports Hygiene Migration_Copies Capture_Host Service_Run Agent_Version
begin

text \<open>
  A verification development of the CyberGuard endpoint agent, the Rust crate
  under \<open>agent/cg-agent\<close>: a process of a Windows host that enrolls with a server,
  captures process, network and logon events, and delivers them at least once
  over mutually authenticated TLS, from a console or as a Windows service.
  File names below are relative to \<open>agent/cg-agent/src\<close>.

  \<^bold>\<open>The program and its parts.\<close> \<open>main.rs\<close> runs the service (\<open>service/windows.rs\<close>) or
  the console. Both take the instance lock of the host (\<open>instance_lock.rs\<close>), load
  or enroll an identity (\<open>identity.rs\<close>, \<open>enrollment.rs\<close>), and run the secure path
  (\<open>lib.rs\<close>): it opens the capture (\<open>etw\<close>, \<open>logon\<close>), whose events go through a
  bounded ring to the delivery loop (\<open>delivery.rs\<close>), which renders, seals and
  posts them (\<open>cges\<close>, \<open>envelope.rs\<close>, \<open>signing.rs\<close>, \<open>tls.rs\<close>). The service also
  migrates the files of a console installation (\<open>service/migration.rs\<close>) under
  the custody rules of \<open>custody.rs\<close>, and keeps a rotating log.

  \<^bold>\<open>Foundations.\<close> \<open>CG_Prelude\<close> has the machine types, the integer and string
  operations of the standard library and their lemmas; \<open>Rust_Result\<close> the results
  with \<open>?\<close>, and UTF-8; \<open>Rust_F64\<close> binary floating point numbers; \<open>Win_Store\<close> the
  store of files and directories with their security, in which each Win32 call
  may fail, and the error-and-state computations over it; \<open>Store_Steps\<close> a locale
  for relations that every step of such a computation keeps, with its
  interpretations.

  \<^bold>\<open>Capture.\<close> \<open>Event_Types\<close> (\<open>etw/types.rs\<close>), \<open>Event_Ring\<close> (\<open>etw/ring.rs\<close>),
  \<open>Created_Cache\<close> (\<open>etw/cache.rs\<close>), \<open>Net_Decode\<close> (\<open>etw/network.rs\<close>), \<open>Dispatch\<close>
  (\<open>etw/dispatch.rs\<close>), \<open>Hygiene\<close> (\<open>etw/hygiene.rs\<close>), \<open>Device_Paths\<close> and \<open>Ip_Text\<close>
  (\<open>paths.rs\<close> and the printing of addresses), \<open>Logon_Decode\<close> (\<open>logon/mod.rs\<close>).
  \<open>Capture_Session\<close> has the start, the failed start and the stop of the trace
  session (\<open>etw/session.rs\<close>), \<open>Logon_Thread\<close> the thread of the logon subscription
  call by call (\<open>logon/subscription.rs\<close>). Their lemmas show that events are
  conserved and ordered, that a sweep evicts only what it saw, that a withheld
  account name does not influence an event, that a failed start leaves no
  session, and that no logon record is lost or dispatched twice.

  \<^bold>\<open>Delivery.\<close> \<open>Cges_Emit\<close> (\<open>cges/emit.rs\<close>), \<open>Envelope\<close> (\<open>envelope.rs\<close>, \<open>signing.rs\<close>,
  \<open>canonical.rs\<close>), \<open>Heartbeat\<close> (\<open>transport.rs\<close> and the plain loop of \<open>lib.rs\<close>),
  \<open>Delivery\<close> (\<open>delivery.rs\<close>) as a step relation between the loop's awaits, and
  \<open>Delivery_Props\<close>: every admitted event is delivered, in flight, buffered or
  counted as dropped, in every execution; the order and the numbers of the
  POSTs; the retry rule; that a tick is served; the loss count at the end.

  \<^bold>\<open>Identity and custody.\<close> \<open>Agent_Errors\<close>, \<open>Agent_Config\<close>, \<open>X509\<close>, \<open>Agent_Keys\<close>,
  \<open>Tls_Client\<close>, \<open>Enrollment\<close>, \<open>Custody\<close>, \<open>Identity\<close> and \<open>Identity_Props\<close>: the
  certificate reader accepts exactly the encodings of its certificates; an
  exchange does not depend on how the answer is cut into reads; checked reads
  are private; a replacement is atomic; an interrupted persistence never leaves
  an identity that was not issued.

  \<^bold>\<open>Service.\<close> \<open>Service_Core\<close> (\<open>service/mod.rs\<close>), \<open>Service_Status\<close> (the reports to
  the service manager), \<open>Log_Rotation\<close> (\<open>service/rotation.rs\<close>), \<open>Service_Log\<close>
  (\<open>service/log_file.rs\<close>), \<open>Migration\<close> with \<open>Migration_Run\<close>, \<open>Migration_Props\<close> and
  \<open>Migration_Copies\<close> (\<open>service/migration.rs\<close>). The migration refines a machine of
  three phases for every sequence of starts with failures and crashes anywhere;
  the log keeps its bytes in order under every failure; the reports keep their
  order in every interleaving of the run, the handler and the status thread.

  \<^bold>\<open>Runs and hosts.\<close> \<open>Instance_Lock\<close> has the calls of the lock, interleaved for
  any number of processes. \<open>Agent_Run\<close> composes capture, client, delivery and
  stop (\<open>lib.rs\<close>); \<open>Capture_Host\<close> puts any number of such agents on one host:
  whoever captures holds the lock and owns the session, and a crash does not
  keep the next agent from capturing. \<open>Service_Run\<close> composes the whole service
  and the console (\<open>service/windows.rs\<close>, \<open>main.rs\<close>) over one world of store, lock,
  sessions, status and event log: a second instance changes nothing, a start
  that reaches its identity has settled its paths and its lock, and no capture
  starts after a stop. \<open>Agent_Version\<close> has \<open>version.rs\<close> and \<open>build.rs\<close>.

  \<^bold>\<open>Conventions.\<close> A string is the list of its UTF-8 bytes as characters. Integers
  that may wrap are words; \<open>usize\<close> counts objects in memory and is a natural
  number; instants and durations are nanoseconds. A fallible function returns
  a sum, the error on the left. What an await answers, the clocks, the answers
  of Windows, of the network and of the crates are arguments or fields of an
  environment record, with what a theorem needs of them as its hypotheses.
  Loops that may not end are relations or partial functions: the enrollment
  rounds return none while they go on, and are proved to return once a stop is
  asked for. The plain heartbeat loop takes a bound on its iterations, which
  its schedule theorem shows to be enough. \<open>acquire\<close> makes eleven calls at most,
  and always decides.

  \<^bold>\<open>Not modelled.\<close> The marshalling of Win32 calls (handles, buffers, wide
  strings), whose answers are arguments; the crates rustls, ed25519-dalek, serde, toml,
  ferrisetw, tokio and tracing beyond the behaviour that the agent relies on;
  the DPAPI sealing store of \<open>secure_storage.rs\<close>; the text of log
  lines; \<open>etw/session_stub.rs\<close> and \<open>shutdown.rs\<close>, which only answer that there is
  no capture and await a signal. The removal of the migration's old copies runs
  beside the identity step in the code and before it in \<open>Service_Run\<close>. The
  TypeScript services, the dashboard, the deployment, the rules and the schemas
  of the repository are other programs and data.
\<close>

end
